(* ===== verification/Olt_Prelude.thy ===== *)
theory Olt_Prelude
  imports Main "HOL-Library.Word" "HOL-Library.Product_Lexorder" "HOL-Library.List_Lexorder"
    "HOL-Library.Char_ord" "HOL-Library.Monad_Syntax" "HOL-Library.Multiset"
begin

text \<open>
  What the components share: the collections of simplification rules, the identifier search of
  the fixed-size bitsets (\<open>std::bitset\<close> is the set of its one bits), the ordered associative
  container (\<open>std::map\<close> with its comparator) and the C integer conversions.
\<close>

named_theorems frame_simps "the fields of the agent state an operation leaves alone"
named_theorems handler_defs "definitions of straight-line handlers"

type_synonym uint8 = "8 word"
type_synonym uint16 = "16 word"
type_synonym uint32 = "32 word"
type_synonym uint64 = "64 word"

section \<open>C integer conversions\<close>

text \<open>A value of type \<open>int32_t\<close> is an \<open>int\<close>; the conversions between it and an unsigned word.\<close>

definition u32_of_int :: "int \<Rightarrow> uint32" where
  "u32_of_int i = word_of_int i"

definition i32_of_u32 :: "uint32 \<Rightarrow> int" where
  "i32_of_u32 w = sint w"

definition i16_of_u32 :: "uint32 \<Rightarrow> int" where
  "i16_of_u32 w = sint (ucast w :: 16 word)"

definition int32 :: "int \<Rightarrow> bool" where
  "int32 i \<longleftrightarrow> - (2 ^ 31) \<le> i \<and> i < 2 ^ 31"

lemma i32_of_u32_of_int [simp]: "int32 i \<Longrightarrow> i32_of_u32 (u32_of_int i) = i"
  unfolding i32_of_u32_def u32_of_int_def int32_def
  by (simp add: sint_sbintrunc' signed_take_bit_int_eq_self)

lemma uint_max32 [simp]: "uint (-1 :: uint32) = 4294967295"
  by (simp add: unsigned_minus_1_eq_mask mask_eq_exp_minus_1)

lemma sint16_small:
  assumes "unat (a :: uint16) < 32768"
  shows "sint a = int (unat a)"
proof -
  have n: "LENGTH(16) - Suc 0 = 15" by simp
  have u: "uint a = int (unat a)" by simp
  have p: "(2 :: int) ^ 15 = 32768" by simp
  have "- (2 ^ 15) \<le> int (unat a)" "int (unat a) < 2 ^ 15" using assms unfolding p by linarith+
  then have "signed_take_bit 15 (int (unat a)) = int (unat a)" by (rule signed_take_bit_int_eq_self)
  then show ?thesis by (simp only: sint_uint n u)
qed

section \<open>The first free bit of a bitset\<close>

text \<open>\<open>for (id = i; id < n; id++) if (bitset[id] == 0) ...\<close>: the loop of every identifier pool.\<close>

function first_free :: "nat set \<Rightarrow> nat \<Rightarrow> nat \<Rightarrow> nat option" where
  "first_free bs i n =
     (if i < n then (if i \<in> bs then first_free bs (Suc i) n else Some i) else None)"
  by pat_completeness auto
termination by (relation "measure (\<lambda>(_, i, n). n - i)") auto

declare first_free.simps [simp del]

lemma first_free_Some:
  "first_free bs i n = Some k \<Longrightarrow> i \<le> k \<and> k < n \<and> k \<notin> bs \<and> {i..<k} \<subseteq> bs"
proof (induction bs i n rule: first_free.induct)
  case (1 bs i n)
  show ?case
  proof (cases "i < n \<and> i \<in> bs")
    case True
    then have "first_free bs (Suc i) n = Some k"
      using "1.prems" by (simp add: first_free.simps [of bs i n])
    then have "Suc i \<le> k \<and> k < n \<and> k \<notin> bs \<and> {Suc i..<k} \<subseteq> bs"
      using "1.IH" True by blast
    moreover have "{i..<k} \<subseteq> insert i {Suc i..<k}" by auto
    ultimately show ?thesis using True by auto
  next
    case False
    then show ?thesis
      using "1.prems" by (auto simp: first_free.simps [of bs i n] split: if_splits)
  qed
qed

lemma first_free_None: "first_free bs i n = None \<longleftrightarrow> {i..<n} \<subseteq> bs"
proof (induction bs i n rule: first_free.induct)
  case (1 bs i n)
  show ?case
  proof (cases "i < n \<and> i \<in> bs")
    case True
    then have "{i..<n} = insert i {Suc i..<n}" by auto
    then show ?thesis using 1 True by (simp add: first_free.simps [of bs i n])
  next
    case False
    then show ?thesis by (auto simp: first_free.simps [of bs i n])
  qed
qed

lemma first_free_least:
  assumes "i \<le> k" "k < n" "k \<notin> bs" "{i..<k} \<subseteq> bs"
  shows "first_free bs i n = Some k"
proof (cases "first_free bs i n")
  case None
  then have "k \<in> bs" using assms first_free_None [of bs i n] by auto
  then show ?thesis using assms by simp
next
  case (Some j)
  then have "i \<le> j \<and> j < n \<and> j \<notin> bs \<and> {i..<j} \<subseteq> bs" by (rule first_free_Some)
  then have "j = k" using assms
    by (metis atLeastLessThan_iff linorder_neqE_nat subsetD)
  then show ?thesis using Some by simp
qed

section \<open>Ordered associative containers\<close>

text \<open>
  \<open>std::map\<close> keeps its entries sorted by a comparator; two keys neither of which precedes the
  other are the same key for it.  \<open>om_insert\<close> is \<open>insert\<close> (an existing entry stays),
  \<open>om_put\<close> is \<open>m[k] = v\<close> (an existing entry keeps its key and gets the new value).
\<close>

type_synonym ('k, 'v) omap = "('k \<times> 'v) list"

fun om_find :: "('k \<Rightarrow> 'k \<Rightarrow> bool) \<Rightarrow> 'k \<Rightarrow> ('k, 'v) omap \<Rightarrow> 'v option" where
  "om_find lt k [] = None"
| "om_find lt k ((k', v) # m) =
     (if lt k' k then om_find lt k m else if lt k k' then None else Some v)"

fun om_put :: "('k \<Rightarrow> 'k \<Rightarrow> bool) \<Rightarrow> 'k \<Rightarrow> 'v \<Rightarrow> ('k, 'v) omap \<Rightarrow> ('k, 'v) omap" where
  "om_put lt k v [] = [(k, v)]"
| "om_put lt k v ((k', v') # m) =
     (if lt k' k then (k', v') # om_put lt k v m
      else if lt k k' then (k, v) # (k', v') # m else (k', v) # m)"

definition om_insert :: "('k \<Rightarrow> 'k \<Rightarrow> bool) \<Rightarrow> 'k \<Rightarrow> 'v \<Rightarrow> ('k, 'v) omap \<Rightarrow> ('k, 'v) omap" where
  "om_insert lt k v m = (case om_find lt k m of None \<Rightarrow> om_put lt k v m | Some _ \<Rightarrow> m)"

fun om_erase :: "('k \<Rightarrow> 'k \<Rightarrow> bool) \<Rightarrow> 'k \<Rightarrow> ('k, 'v) omap \<Rightarrow> ('k, 'v) omap" where
  "om_erase lt k [] = []"
| "om_erase lt k ((k', v) # m) =
     (if lt k' k then (k', v) # om_erase lt k m else if lt k k' then (k', v) # m else m)"

definition om_sorted :: "('k \<Rightarrow> 'k \<Rightarrow> bool) \<Rightarrow> ('k, 'v) omap \<Rightarrow> bool" where
  "om_sorted lt m = sorted_wrt lt (map fst m)"


text \<open>The contract of an ordered container, and what a client may conclude from it.\<close>

locale std_map =
  fixes eqk :: "'k \<Rightarrow> 'k \<Rightarrow> bool"
    and inv :: "'m \<Rightarrow> bool"
    and empty_map :: 'm
    and find :: "'k \<Rightarrow> 'm \<Rightarrow> 'v option"
    and put :: "'k \<Rightarrow> 'v \<Rightarrow> 'm \<Rightarrow> 'm"
    and insert_new :: "'k \<Rightarrow> 'v \<Rightarrow> 'm \<Rightarrow> 'm"
    and erase :: "'k \<Rightarrow> 'm \<Rightarrow> 'm"
  assumes eqk_refl: "eqk k k"
    and inv_empty: "inv empty_map"
    and find_empty: "find k empty_map = None"
    and inv_put: "inv m \<Longrightarrow> inv (put k v m)"
    and inv_erase: "inv m \<Longrightarrow> inv (erase k m)"
    and find_put: "inv m \<Longrightarrow> find k (put k' v m) = (if eqk k' k then Some v else find k m)"
    and find_erase: "inv m \<Longrightarrow> find k (erase k' m) = (if eqk k' k then None else find k m)"
    and insert_new_def: "insert_new k v m = (case find k m of None \<Rightarrow> put k v m | Some _ \<Rightarrow> m)"
begin

lemma find_put_same: "inv m \<Longrightarrow> find k (put k v m) = Some v"
  by (simp add: find_put eqk_refl)

lemma find_erase_same: "inv m \<Longrightarrow> find k (erase k m) = None"
  by (simp add: find_erase eqk_refl)

lemma inv_insert: "inv m \<Longrightarrow> inv (insert_new k v m)"
  by (simp add: insert_new_def inv_put split: option.split)

lemma find_insert_same:
  "inv m \<Longrightarrow> find k (insert_new k v m) = (case find k m of None \<Rightarrow> Some v | Some w \<Rightarrow> Some w)"
  by (simp add: insert_new_def find_put_same split: option.split)

lemma find_insert_other:
  "inv m \<Longrightarrow> \<not> eqk k' k \<Longrightarrow> find k (insert_new k' v m) = find k m"
  by (simp add: insert_new_def find_put split: option.split)

end

text \<open>The requirement of the language on a comparator.\<close>

locale strict_weak =
  fixes lt :: "'k \<Rightarrow> 'k \<Rightarrow> bool"
  assumes lt_irrefl: "\<not> lt a a"
    and lt_trans: "lt a b \<Longrightarrow> lt b c \<Longrightarrow> lt a c"
    and lt_cotrans: "lt a b \<Longrightarrow> lt a c \<or> lt c b"
begin

definition equiv_key :: "'k \<Rightarrow> 'k \<Rightarrow> bool" where
  "equiv_key a b \<longleftrightarrow> \<not> lt a b \<and> \<not> lt b a"

lemma lt_asym: "lt a b \<Longrightarrow> \<not> lt b a"
  using lt_irrefl lt_trans by blast

lemma equiv_lt: "equiv_key a b \<Longrightarrow> lt a c \<longleftrightarrow> lt b c"
  using lt_cotrans unfolding equiv_key_def by blast

lemma equiv_gt: "equiv_key a b \<Longrightarrow> lt c a \<longleftrightarrow> lt c b"
  using lt_cotrans unfolding equiv_key_def by blast

lemma om_find_all_gt:
  "\<forall>x\<in>set m. lt k (fst x) \<Longrightarrow> om_find lt k m = None"
  by (cases m) (auto dest: lt_asym)

lemma om_put_keys:
  "x \<in> set (om_put lt k v m) \<Longrightarrow> fst x = k \<or> (\<exists>y\<in>set m. fst x = fst y)"
  by (induction m) (force split: if_splits)+

lemma om_erase_subset: "set (om_erase lt k m) \<subseteq> set m"
  by (induction m) (auto split: if_splits)

lemma om_sorted_put: "om_sorted lt m \<Longrightarrow> om_sorted lt (om_put lt k v m)"
proof (induction m)
  case Nil
  then show ?case by (simp add: om_sorted_def)
next
  case (Cons e m)
  obtain k' v' where e: "e = (k', v')" by fastforce
  from Cons.prems have gt: "\<forall>x\<in>set m. lt k' (fst x)" and m: "om_sorted lt m"
    by (auto simp: om_sorted_def e)
  consider "lt k' k" | "lt k k'" | "\<not> lt k' k" "\<not> lt k k'" by blast
  then show ?case
  proof cases
    case 1
    then have "\<forall>x\<in>set (om_put lt k v m). lt k' (fst x)" using gt om_put_keys by metis
    then show ?thesis using 1 Cons.IH [OF m] by (simp add: om_sorted_def e)
  next
    case 2
    then have "\<forall>x\<in>set m. lt k (fst x)" using gt lt_trans by blast
    then show ?thesis using 2 lt_asym Cons.prems by (simp add: om_sorted_def e)
  next
    case 3
    then show ?thesis using gt m by (simp add: om_sorted_def e)
  qed
qed

lemma om_sorted_erase: "om_sorted lt m \<Longrightarrow> om_sorted lt (om_erase lt k m)"
proof (induction m)
  case Nil
  then show ?case by simp
next
  case (Cons e m)
  obtain k' v' where e: "e = (k', v')" by fastforce
  show ?case using Cons om_erase_subset [of k m]
    by (auto simp: om_sorted_def e)
qed

lemma om_find_put:
  "om_sorted lt m \<Longrightarrow>
    om_find lt k (om_put lt k' v m) = (if equiv_key k' k then Some v else om_find lt k m)"
proof (induction m)
  case Nil
  then show ?case by (simp add: equiv_key_def)
next
  case (Cons e m)
  obtain a b where e: "e = (a, b)" by fastforce
  have IH: "om_find lt k (om_put lt k' v m) = (if equiv_key k' k then Some v else om_find lt k m)"
    using Cons by (auto simp: om_sorted_def)
  consider "lt a k'" | "lt k' a" | "equiv_key k' a" by (auto simp: equiv_key_def)
  then show ?case
  proof cases
    case 1
    then have "equiv_key k' k \<Longrightarrow> lt a k" using equiv_gt by blast
    then show ?thesis using 1 IH lt_asym [of a k] by (auto simp: e)
  next
    case 2
    then have "\<not> lt a k'" and "equiv_key k' k \<Longrightarrow> lt k a" and "lt k k' \<Longrightarrow> lt k a"
      using lt_asym equiv_lt lt_trans by blast+
    then show ?thesis using 2 lt_asym by (auto simp: e equiv_key_def)
  next
    case 3
    then have "lt a k \<longleftrightarrow> lt k' k" "lt k a \<longleftrightarrow> lt k k'"
      using equiv_lt equiv_gt by blast+
    then show ?thesis using 3 by (auto simp: e equiv_key_def)
  qed
qed

lemma om_find_erase:
  "om_sorted lt m \<Longrightarrow>
    om_find lt k (om_erase lt k' m) = (if equiv_key k' k then None else om_find lt k m)"
proof (induction m)
  case Nil
  then show ?case by simp
next
  case (Cons e m)
  obtain a b where e: "e = (a, b)" by fastforce
  have gt: "\<forall>x\<in>set m. lt a (fst x)" and IH: "om_find lt k (om_erase lt k' m) =
      (if equiv_key k' k then None else om_find lt k m)"
    using Cons by (auto simp: om_sorted_def e)
  consider "lt a k'" | "lt k' a" | "equiv_key k' a" by (auto simp: equiv_key_def)
  then show ?case
  proof cases
    case 1
    then have "equiv_key k' k \<Longrightarrow> lt a k" using equiv_gt by blast
    then show ?thesis using 1 IH lt_asym [of a k] by (auto simp: e)
  next
    case 2
    then have "\<not> lt a k'" and "equiv_key k' k \<Longrightarrow> lt k a" using lt_asym equiv_lt by blast+
    then show ?thesis using 2 lt_asym [of k a] by (auto simp: e)
  next
    case 3
    have a: "lt a k \<longleftrightarrow> lt k' k" "lt k a \<longleftrightarrow> lt k k'"
      using equiv_lt [OF 3, of k] equiv_gt [OF 3, of k] by simp_all
    have b: "\<not> lt k' a" "\<not> lt a k'" using 3 by (simp_all add: equiv_key_def)
    show ?thesis
    proof (cases "lt a k")
      case True
      then show ?thesis using a b by (simp add: e equiv_key_def)
    next
      case False
      have "om_find lt k m = None"
        by (rule om_find_all_gt) (use gt False lt_cotrans in blast)
      then show ?thesis using False a b by (simp add: e equiv_key_def)
    qed
  qed
qed

end

sublocale strict_weak \<subseteq> om: std_map equiv_key "om_sorted lt" "[]" "om_find lt" "om_put lt"
    "om_insert lt" "om_erase lt"
  by unfold_locales
    (auto simp: equiv_key_def lt_irrefl om_sorted_def [of lt "[]"] om_sorted_put om_sorted_erase
      om_find_put om_find_erase om_insert_def)

text \<open>The keys with a linear order of their own: integers, words and tuples of them.\<close>

interpretation lin: strict_weak "(<) :: ('k::linorder) \<Rightarrow> 'k \<Rightarrow> bool"
  by unfold_locales auto

lemma lin_equiv_key [simp]: "lin.equiv_key a b \<longleftrightarrow> a = b"
  by (auto simp: lin.equiv_key_def)

text \<open>The entries of an ordered map over such keys, as a set.\<close>

lemma om_find_iff:
  "om_sorted (<) m \<Longrightarrow> om_find (<) (k :: 'k::linorder) m = Some v \<longleftrightarrow> (k, v) \<in> set m"
  by (induction m) (force simp: om_sorted_def)+

lemma om_find_None_iff:
  "om_sorted (<) m \<Longrightarrow> om_find (<) (k :: 'k::linorder) m = None \<longleftrightarrow> k \<notin> fst ` set m"
  using om_find_iff [of m k] by (cases "om_find (<) k m") (force simp: image_iff)+

lemma om_put_set_new:
  "k \<notin> fst ` set m \<Longrightarrow> set (om_put (<) (k :: 'k::linorder) v m) = insert (k, v) (set m)"
  by (induction m) (auto split: if_splits)

lemma om_erase_set:
  "om_sorted (<) m \<Longrightarrow> set (om_erase (<) (k :: 'k::linorder) m) = {e \<in> set m. fst e \<noteq> k}"
  by (induction m) (force simp: om_sorted_def)+

lemma om_insert_set:
  "om_sorted (<) m \<Longrightarrow> set (om_insert (<) (k :: 'k::linorder) v m) =
     (if k \<in> fst ` set m then set m else insert (k, v) (set m))"
  using om_find_None_iff [of m k] om_put_set_new [of k m v]
  by (auto simp: om_insert_def split: option.split)

lemma om_put_mset_new: "om_find lt k m = None \<Longrightarrow> mset (om_put lt k v m) = add_mset (k, v) (mset m)"
  by (induction m) (auto split: if_splits)

lemma om_put_new_values:
  assumes "om_find lt k m = None" "v \<notin> snd ` set m" "distinct (map snd m)"
  shows "distinct (map snd (om_put lt k v m))" "set (om_put lt k v m) = insert (k, v) (set m)"
proof -
  note m = om_put_mset_new [of lt k m v, OF assms(1)]
  then have "mset (map snd (om_put lt k v m)) = mset (map snd ((k, v) # m))" by simp
  then show "distinct (map snd (om_put lt k v m))"
    using assms(2,3) mset_eq_imp_distinct_iff [of "map snd (om_put lt k v m)" "map snd ((k, v) # m)"] by auto
  show "set (om_put lt k v m) = insert (k, v) (set m)"
    using m by (metis list.set(2) mset.simps(2) set_mset_mset)
qed

lemmas om_lin_simps = lin.om.inv_insert lin.om_sorted_erase lin.om_sorted_put om_insert_set om_erase_set

end
