(* ===== verification/Bal.thy ===== *)
theory Bal
  imports Olt_Prelude
begin

text \<open>
  The boundary of the agent: the error numbers and enumerations of the Broadcom adaptation layer
  (BAL) the agent names, the messages it sends and the answers it reads, the gRPC status it
  returns (\<open>agent/src/error_format.cc\<close>), and the small translations of
  \<open>agent/src/translation.cc\<close>.  BAL itself is outside the repository: it is the field
  \<open>bal_respond\<close> of the record \<open>platform\<close>, an arbitrary function of the messages sent so far
  (latest first) and of the new one, so that every history-dependent BAL is an instance.
  The field \<open>uninit\<close> is the value a named variable holds before the code assigns it.
  An enumeration constant that is only sent, never compared, is written with its C name;
  \<open>enum_value\<close> and \<open>errno_value\<close> are the numbers of the constants, where the code computes with them;
  \<open>vendor_const\<close> are those of the selected \<open>agent/device/*/vendor.h\<close>, \<open>max_devs\<close> is BAL's
  \<open>BCM_MAX_DEVS_PER_LINE_CARD\<close>, and \<open>sysinfo\<close> and \<open>grpc_interface_mac\<close> are what the board reports of
  itself (the latter \<open>None\<close> when no interface is named on the command line).
\<close>

section \<open>Error numbers and states\<close>

datatype bcmos_errno =
    BCM_ERR_OK | BCM_ERR_PARM | BCM_ERR_RANGE | BCM_ERR_NOT_SUPPORTED | BCM_ERR_NOENT
  | BCM_ERR_NODEV | BCM_ERR_TIMEOUT | BCM_ERR_TOO_LONG | BCM_ERR_TOO_MANY_REQS | BCM_ERR_ALREADY
  | BCM_ERR_NO_MORE | BCM_ERR_INSUFFICIENT_LIST_MEM | BCM_ERR_INTERNAL | BCM_ERR_STATE
  | BCM_ERR_NOT_CONNECTED | BCM_ERR_NULL | BCM_ERR_SYSCALL_ERR | BCM_ERR_OTHER int

datatype bcmolt_onu_state =
    BCMOLT_ONU_STATE_NOT_CONFIGURED | BCMOLT_ONU_STATE_INACTIVE | BCMOLT_ONU_STATE_ACTIVE
  | BCMOLT_ONU_STATE_DISABLED | BCMOLT_ONU_STATE_UNAWARE | ONU_STATE_OTHER int

datatype bcmolt_interface_state =
    BCMOLT_INTERFACE_STATE_INACTIVE | BCMOLT_INTERFACE_STATE_PROCESSING
  | BCMOLT_INTERFACE_STATE_ACTIVE_WORKING | BCMOLT_INTERFACE_STATE_ACTIVE_STANDBY
  | BCMOLT_INTERFACE_STATE_DISABLED | INTERFACE_STATE_OTHER int

datatype bcmolt_activation_state =
    BCMOLT_ACTIVATION_STATE_NOT_CONFIGURED | BCMOLT_ACTIVATION_STATE_INACTIVE
  | BCMOLT_ACTIVATION_STATE_PROCESSING | BCMOLT_ACTIVATION_STATE_ACTIVE
  | ACTIVATION_STATE_OTHER int

datatype bcmolt_config_state = BCMOLT_CONFIG_STATE_CONFIGURED | CONFIG_STATE_OTHER int

datatype bcmolt_status =
    BCMOLT_STATUS_OFF | BCMOLT_STATUS_ON | BCMOLT_STATUS_NO_CHANGE | STATUS_OTHER int

datatype bcmolt_result = BCMOLT_RESULT_SUCCESS | BCMOLT_RESULT_FAIL | RESULT_OTHER int

datatype bcmolt_interface_type =
    BCMOLT_INTERFACE_TYPE_PON | BCMOLT_INTERFACE_TYPE_NNI | BCMOLT_INTERFACE_TYPE_HOST
  | BCMOLT_INTERFACE_TYPE_EPON_1_G | BCMOLT_INTERFACE_TYPE_EPON_10_G | INTERFACE_TYPE_OTHER int

datatype bcmolt_flow_type =
    BCMOLT_FLOW_TYPE_UPSTREAM | BCMOLT_FLOW_TYPE_DOWNSTREAM | BCMOLT_FLOW_TYPE_BROADCAST
  | BCMOLT_FLOW_TYPE_MULTICAST

text \<open>The results the BAL callbacks push into the completion queues (\<open>agent/src/core_data.h\<close>).\<close>

datatype obj_state =
    OBJECT_STATE_NOT_CONFIGURED | OBJECT_STATE_INACTIVE | OBJECT_STATE_PROCESSING
  | OBJECT_STATE_ACTIVE

datatype cfg_status = CFG_STATUS_SUCCESS | CFG_STATUS_FAIL

record cfg_complete_result =
  res_state :: obj_state
  res_status :: cfg_status

datatype cfg_action = OBJECT_CREATE | OBJECT_DELETE | OBJECT_ENCRYPT

section \<open>Messages and answers\<close>

text \<open>
  A message names the object and its key components and carries the fields the code sets, in the
  order of the \<open>BCMOLT_MSG_FIELD_SET\<close> calls; a field that is not set is not in the list.
\<close>

datatype obj_key = Obj (obj_name: string) (obj_ids: "int list")

datatype field_value = Num int | Sym string | Txt string | Bytes "int list" | Flds "(string \<times> field_value) list"

type_synonym fields = "(string \<times> field_value) list"

datatype bal_req =
    Cfg_get obj_key
  | Cfg_set obj_key fields
  | Cfg_clear obj_key
  | Oper_submit obj_key string fields
  | Stat_get obj_key
  | Stat_cfg_set obj_key fields
  | Ind_subscribe string
  | Host_call string
  | Pop_wait obj_key

text \<open>
  What an answer may hold: the error number and a value for every field the code may read, on
  errors too (the C code then reads whatever the buffer holds).  \<open>r_cfg_result\<close>, \<open>r_deact_result\<close>
  and \<open>r_rssi_ok\<close> are the result a completion queue delivers before its time limit, if any.
\<close>

record bal_rsp =
  r_err :: bcmos_errno
  r_num :: "string \<Rightarrow> int"
  r_sym :: "string \<Rightarrow> string"
  r_onu_state :: bcmolt_onu_state
  r_if_state :: bcmolt_interface_state
  r_act_state :: bcmolt_activation_state
  r_config_state :: bcmolt_config_state
  r_status :: "string \<Rightarrow> bcmolt_status"
  r_bytes :: "string \<Rightarrow> int list"
  r_cfg_result :: "cfg_complete_result option"
  r_deact_result :: "bcmolt_result option"
  r_rssi_ok :: "bool option"

record platform =
  bal_respond :: "bal_req list \<Rightarrow> bal_req \<Rightarrow> bal_rsp"
  bcmos_strerror :: "bcmos_errno \<Rightarrow> string"
  errno_value :: "bcmos_errno \<Rightarrow> int"
  enum_value :: "string \<Rightarrow> int"
  uninit :: "bal_req list \<Rightarrow> string \<Rightarrow> int"
  max_supported_pon :: nat
  GEM_PORT_ID_START :: int
  vendor_const :: "string \<Rightarrow> int"
  max_devs :: nat
  vendor_name :: string
  model_id :: string
  sysinfo :: "string \<Rightarrow> string"
  grpc_interface_mac :: "string option option"

section \<open>The gRPC status\<close>

datatype status_code =
    OK | CANCELLED | UNKNOWN | INVALID_ARGUMENT | DEADLINE_EXCEEDED | NOT_FOUND | ALREADY_EXISTS
  | PERMISSION_DENIED | UNAUTHENTICATED | RESOURCE_EXHAUSTED | FAILED_PRECONDITION | ABORTED
  | OUT_OF_RANGE | UNIMPLEMENTED | INTERNAL | UNAVAILABLE | DATA_LOSS | DO_NOT_USE

record status =
  code :: status_code
  msg :: string

definition Status_OK :: status where
  "Status_OK = \<lparr>code = OK, msg = []\<rparr>"

definition Status_of :: "status_code \<Rightarrow> string \<Rightarrow> status" where
  "Status_of c m = \<lparr>code = c, msg = m\<rparr>"

definition ok :: "status \<Rightarrow> bool" where
  "ok st \<longleftrightarrow> code st = OK"

fun errno_to_code :: "bcmos_errno \<Rightarrow> status_code" where
  "errno_to_code BCM_ERR_PARM = INVALID_ARGUMENT"
| "errno_to_code BCM_ERR_RANGE = OUT_OF_RANGE"
| "errno_to_code BCM_ERR_NOT_SUPPORTED = UNIMPLEMENTED"
| "errno_to_code BCM_ERR_NOENT = NOT_FOUND"
| "errno_to_code BCM_ERR_NODEV = NOT_FOUND"
| "errno_to_code BCM_ERR_TIMEOUT = DEADLINE_EXCEEDED"
| "errno_to_code BCM_ERR_TOO_LONG = DEADLINE_EXCEEDED"
| "errno_to_code BCM_ERR_TOO_MANY_REQS = DEADLINE_EXCEEDED"
| "errno_to_code BCM_ERR_ALREADY = ALREADY_EXISTS"
| "errno_to_code BCM_ERR_NO_MORE = RESOURCE_EXHAUSTED"
| "errno_to_code BCM_ERR_INSUFFICIENT_LIST_MEM = RESOURCE_EXHAUSTED"
| "errno_to_code _ = INTERNAL"

definition bcm_to_grpc_err :: "platform \<Rightarrow> bcmos_errno \<Rightarrow> string \<Rightarrow> status" where
  "bcm_to_grpc_err P bcm_err message =
     Status_of (errno_to_code bcm_err) (message @ '' BCM Error: '' @ bcmos_strerror P bcm_err)"

fun grpc_status_code_to_string :: "status_code \<Rightarrow> string" where
  "grpc_status_code_to_string OK = ''StatusCode::OK''"
| "grpc_status_code_to_string CANCELLED = ''StatusCode::CANCELED''"
| "grpc_status_code_to_string UNKNOWN = ''StatusCode::UNKNOWN''"
| "grpc_status_code_to_string INVALID_ARGUMENT = ''StatusCode::INVALID_ARGUMENT''"
| "grpc_status_code_to_string DEADLINE_EXCEEDED = ''StatusCode::DEADLINE_EXCEEDED''"
| "grpc_status_code_to_string NOT_FOUND = ''StatusCode::NOT_FOUND''"
| "grpc_status_code_to_string ALREADY_EXISTS = ''StatusCode::ALREADY_EXISTS''"
| "grpc_status_code_to_string PERMISSION_DENIED = ''StatusCode::PERMISSION_DENIED''"
| "grpc_status_code_to_string UNAUTHENTICATED = ''StatusCode::UNAUTHENTICATED''"
| "grpc_status_code_to_string RESOURCE_EXHAUSTED = ''StatusCode::RESOURCE_EXHAUSTED''"
| "grpc_status_code_to_string FAILED_PRECONDITION = ''StatusCode::FAILED_PRECONDITION''"
| "grpc_status_code_to_string ABORTED = ''StatusCode::ABORTED''"
| "grpc_status_code_to_string OUT_OF_RANGE = ''StatusCode::OUT_OF_RANGE''"
| "grpc_status_code_to_string INTERNAL = ''StatusCode::INTERNAL''"
| "grpc_status_code_to_string UNAVAILABLE = ''StatusCode::UNAVAILABLE''"
| "grpc_status_code_to_string DATA_LOSS = ''StatusCode::DATA_LOSS''"
| "grpc_status_code_to_string DO_NOT_USE = ''StatusCode::DO_NOT_USE''"
| "grpc_status_code_to_string UNIMPLEMENTED = ''Unknown GRPC status Code''"

lemma errno_to_code_not_OK [simp]: "errno_to_code e \<noteq> OK"
  by (cases e) auto

lemma ok_Status_OK [simp]: "ok Status_OK"
  by (simp add: ok_def Status_OK_def)

lemma code_Status_OK [simp]: "code Status_OK = OK"
  by (simp add: Status_OK_def)

lemma code_Status_of [simp]: "code (Status_of c m) = c"
  by (simp add: Status_of_def)

lemma ok_Status_of [simp]: "ok (Status_of c m) \<longleftrightarrow> c = OK"
  by (simp add: ok_def)

lemma code_bcm_to_grpc_err [simp]: "code (bcm_to_grpc_err P e m) = errno_to_code e"
  by (simp add: bcm_to_grpc_err_def)

lemma not_ok_bcm_to_grpc_err [simp]: "\<not> ok (bcm_to_grpc_err P e m)"
  by (simp add: ok_def)

lemma Status_OK_neq [simp]:
  "c \<noteq> OK \<Longrightarrow> Status_of c m \<noteq> Status_OK" "bcm_to_grpc_err P e m \<noteq> Status_OK"
  by (auto simp: bcm_to_grpc_err_def Status_OK_def Status_of_def)

section \<open>Translations\<close>

definition interface_key_to_port_no :: "uint32 \<Rightarrow> bcmolt_interface_type \<Rightarrow> uint32" where
  "interface_key_to_port_no intf_id intf_type =
     (if intf_type = BCMOLT_INTERFACE_TYPE_NNI then push_bit 24 1 + intf_id
      else if intf_type = BCMOLT_INTERFACE_TYPE_PON then push_bit 28 2 + intf_id
      else intf_id)"

definition bcmolt_to_grpc_intf_type :: "bcmolt_interface_type \<Rightarrow> string" where
  "bcmolt_to_grpc_intf_type t =
     (if t = BCMOLT_INTERFACE_TYPE_NNI then ''nni''
      else if t = BCMOLT_INTERFACE_TYPE_PON then ''pon''
      else if t = BCMOLT_INTERFACE_TYPE_HOST then ''host''
      else ''unknown'')"

definition bcmolt_to_grpc_interface_rf__intf_type :: "bcmolt_interface_type \<Rightarrow> string" where
  "bcmolt_to_grpc_interface_rf__intf_type t =
     (if t = BCMOLT_INTERFACE_TYPE_NNI then ''nni''
      else if t = BCMOLT_INTERFACE_TYPE_PON then ''pon''
      else if t = BCMOLT_INTERFACE_TYPE_HOST then ''host''
      else ''unknown'')"

fun alarm_status_to_string :: "bcmolt_status \<Rightarrow> string" where
  "alarm_status_to_string BCMOLT_STATUS_OFF = ''off''"
| "alarm_status_to_string BCMOLT_STATUS_ON = ''on''"
| "alarm_status_to_string BCMOLT_STATUS_NO_CHANGE = ''no_change''"
| "alarm_status_to_string (STATUS_OTHER _) = ''unknown''"

fun bcmolt_result_to_string :: "bcmolt_result \<Rightarrow> string" where
  "bcmolt_result_to_string BCMOLT_RESULT_SUCCESS = ''success''"
| "bcmolt_result_to_string BCMOLT_RESULT_FAIL = ''fail''"
| "bcmolt_result_to_string (RESULT_OTHER _) = ''unknown''"

section \<open>Sample platforms\<close>

text \<open>The platform whose BAL gives one answer to every message, for the concrete instances.\<close>

definition ok_rsp :: bal_rsp where
  "ok_rsp = \<lparr>r_err = BCM_ERR_OK, r_num = (\<lambda>_. 0), r_sym = (\<lambda>_. []),
     r_onu_state = BCMOLT_ONU_STATE_INACTIVE, r_if_state = BCMOLT_INTERFACE_STATE_INACTIVE,
     r_act_state = BCMOLT_ACTIVATION_STATE_ACTIVE, r_config_state = CONFIG_STATE_OTHER 0,
     r_status = (\<lambda>_. BCMOLT_STATUS_OFF), r_bytes = (\<lambda>_. []), r_cfg_result = None,
     r_deact_result = None, r_rssi_ok = None\<rparr>"

definition const_platform :: "bal_rsp \<Rightarrow> platform" where
  "const_platform rsp = \<lparr>bal_respond = (\<lambda>_ _. rsp), bcmos_strerror = (\<lambda>_. []),
     errno_value = (\<lambda>_. -1), enum_value = (\<lambda>_. 0), uninit = (\<lambda>_ _. 0), max_supported_pon = 16,
     GEM_PORT_ID_START = 1024, vendor_const = (\<lambda>_. 0), max_devs = 2, vendor_name = ''vendor'',
     model_id = ''model'', sysinfo = (\<lambda>_. []), grpc_interface_mac = None\<rparr>"

lemma const_platform_sel [simp]:
  "bal_respond (const_platform rsp) t q = rsp" "uninit (const_platform rsp) t v = 0"
  "max_supported_pon (const_platform rsp) = 16" "GEM_PORT_ID_START (const_platform rsp) = 1024"
  "bcmos_strerror (const_platform rsp) e = []" "max_devs (const_platform rsp) = 2"
  "model_id (const_platform rsp) = ''model''"
  by (simp_all add: const_platform_def)

lemma ok_rsp_sel [simp]:
  "r_err ok_rsp = BCM_ERR_OK" "r_onu_state ok_rsp = BCMOLT_ONU_STATE_INACTIVE"
  "r_cfg_result ok_rsp = None" "r_act_state ok_rsp = BCMOLT_ACTIVATION_STATE_ACTIVE"
  "r_config_state ok_rsp = CONFIG_STATE_OTHER 0"
  "r_if_state ok_rsp = BCMOLT_INTERFACE_STATE_INACTIVE" "r_num ok_rsp v = 0" "r_sym ok_rsp v = []"
  "r_status ok_rsp v = BCMOLT_STATUS_OFF" "r_deact_result ok_rsp = None" "r_rssi_ok ok_rsp = None"
  by (simp_all add: ok_rsp_def)

end
