(* ===== verification/Core_Data.thy ===== *)
theory Core_Data
  imports Bal
begin

text \<open>
  The global variables of the agent (\<open>agent/src/core_data.h\<close>, \<open>agent/src/core_data.cc\<close>,
  \<open>agent/common/core.h\<close>, \<open>agent/common/state.h\<close>) as one record, with the types of their keys and
  values, and the call of BAL, which appends the message to the trace and returns the answer.

  A \<open>std::bitset\<close> is the set of its one bits.  A \<open>std::map\<close> that is only looked up is a partial
  function; one that is traversed, counted or ordered by a comparator of its own is an ordered
  association list.  The pointers of the completion maps are the booleans \<open>True\<close> (a live queue)
  and \<open>False\<close> (\<open>NULL\<close>).
\<close>

section \<open>Constants\<close>

definition MAX_TM_QMP_ID :: nat where "MAX_TM_QMP_ID = 16"
definition TMQ_MAP_PROFILE_SIZE :: nat where "TMQ_MAP_PROFILE_SIZE = 8"
definition MAX_TM_SCHED_ID :: nat where "MAX_TM_SCHED_ID = 1023"
definition XGS_BANDWIDTH_GRANULARITY :: uint32 where "XGS_BANDWIDTH_GRANULARITY = 16000"
definition GPON_BANDWIDTH_GRANULARITY :: uint32 where "GPON_BANDWIDTH_GRANULARITY = 32000"
definition NUM_OF_PRIORITIES :: nat where "NUM_OF_PRIORITIES = 8"
definition NUMBER_OF_DEFAULT_INTERFACE_QUEUES :: nat where "NUMBER_OF_DEFAULT_INTERFACE_QUEUES = 4"
definition NUMBER_OF_PBITS :: nat where "NUMBER_OF_PBITS = 8"
definition MAX_ACL_ID :: nat where "MAX_ACL_ID = 33"
definition MAX_ACL_WITH_VLAN_CLASSIFIER :: nat where "MAX_ACL_WITH_VLAN_CLASSIFIER = 10"
definition ANY_VLAN :: int where "ANY_VLAN = 4095"
definition MAX_BAL_API_RETRY_COUNT :: nat where "MAX_BAL_API_RETRY_COUNT = 5"
definition ONU_ID_START :: int where "ONU_ID_START = 1"
definition INVALID_FLOW_ID :: uint16 where "INVALID_FLOW_ID = 0"

definition upstream :: string where "upstream = ''upstream''"
definition downstream :: string where "downstream = ''downstream''"
definition multicast :: string where "multicast = ''multicast''"

lemma directions_distinct [simp]:
  "upstream \<noteq> downstream" "downstream \<noteq> upstream" "upstream \<noteq> multicast"
  "multicast \<noteq> upstream" "downstream \<noteq> multicast" "multicast \<noteq> downstream"
  by (simp_all add: upstream_def downstream_def multicast_def)

definition tm_upstream_sched_id_start :: "platform \<Rightarrow> nat" where
  "tm_upstream_sched_id_start P =
     (if max_supported_pon P = 16 then MAX_TM_SCHED_ID - 3 else MAX_TM_SCHED_ID - 9)"

definition tm_downstream_sched_id_start :: "platform \<Rightarrow> nat" where
  "tm_downstream_sched_id_start P =
     (if max_supported_pon P = 16 then tm_upstream_sched_id_start P - 16
      else tm_upstream_sched_id_start P - 64)"

definition queue_id_list :: "uint32 list" where
  "queue_id_list = [0, 1, 2, 3, 4, 5, 6, 7]"

section \<open>Keys and values\<close>

datatype egress_qos_type =
    QOS_FIXED_QUEUE | QOS_TC_TO_QUEUE | QOS_PBIT_TO_TC | QOS_NONE | QOS_PRIORITY_TO_QUEUE

type_synonym sched_map_key = "uint32 \<times> uint32 \<times> uint32 \<times> string \<times> uint32"
type_synonym qos_type_map_key = "uint32 \<times> uint32 \<times> uint32"
type_synonym sched_qmp_id_map_key = "uint32 \<times> uint32 \<times> uint32 \<times> uint32"
type_synonym gemport_status_map_key = "uint32 \<times> uint32 \<times> uint32 \<times> uint32"
type_synonym cfg_compltd_key = "uint32 \<times> uint32"
type_synonym symmetric_key = "int \<times> int \<times> int \<times> uint32 \<times> string"

text \<open>The classifier of an ACL; an absent component is \<open>-1\<close>.\<close>

record acl_classifier_key =
  k_ether_type :: int
  k_ip_proto :: int
  k_src_port :: int
  k_dst_port :: int
  k_o_vid :: int

datatype trap_to_host_packet_type =
    dhcpv4 | lldp | eap | igmpv4 | pppoed | unsupported_trap_to_host_pkt_type

type_synonym trap_to_host_pkt_info = "bcmolt_interface_type \<times> uint32 \<times> trap_to_host_packet_type \<times> int"

record device_flow_params =
  dfp_pbit :: uint8
  dfp_gemport_id :: uint32
  dfp_flow_id :: uint16

record device_flow =
  is_flow_replicated :: bool
  df_flow_type :: string
  df_params :: "nat \<Rightarrow> device_flow_params"
  total_replicated_flows :: uint8
  df_voltha_flow_id :: uint64
  symmetric_voltha_flow_id :: uint64

text \<open>The order of the flow types in the key of \<open>flow_map\<close>.\<close>

fun flow_type_num :: "bcmolt_flow_type \<Rightarrow> nat" where
  "flow_type_num BCMOLT_FLOW_TYPE_UPSTREAM = 0"
| "flow_type_num BCMOLT_FLOW_TYPE_DOWNSTREAM = 1"
| "flow_type_num BCMOLT_FLOW_TYPE_BROADCAST = 2"
| "flow_type_num BCMOLT_FLOW_TYPE_MULTICAST = 3"

lemma flow_type_num_inject [simp]: "flow_type_num a = flow_type_num b \<longleftrightarrow> a = b"
  by (cases a; cases b) auto

instantiation bcmolt_flow_type :: linorder
begin

definition less_eq_bcmolt_flow_type :: "bcmolt_flow_type \<Rightarrow> bcmolt_flow_type \<Rightarrow> bool" where
  "less_eq_bcmolt_flow_type a b = (flow_type_num a \<le> flow_type_num b)"

definition less_bcmolt_flow_type :: "bcmolt_flow_type \<Rightarrow> bcmolt_flow_type \<Rightarrow> bool" where
  "less_bcmolt_flow_type a b = (flow_type_num a < flow_type_num b)"

instance
  by intro_classes (auto simp: less_eq_bcmolt_flow_type_def less_bcmolt_flow_type_def)

end

lemmas flow_type_order = less_eq_bcmolt_flow_type_def less_bcmolt_flow_type_def

text \<open>The indications queued for VOLTHA; those the core inspects have constructors of their own.\<close>

datatype indication =
    Olt_ind string
  | Intf_oper_ind string uint32 string uint32
  | Pkt_ind string uint32 "uint32 option" uint32 uint32 "int list"
  | Other_ind string fields

section \<open>The state\<close>

record olt =
  bal_trace :: "bal_req list"
  activated :: bool
  connected_to_voltha :: bool
  connected_once :: bool
  num_of_nni_ports :: uint32
  num_of_pon_ports :: uint32
  board_technology :: string
  chip_family :: string
  firmware_version :: string
  openolt_version :: "string option"
  subscribed :: bool
  intf_technologies :: "nat \<Rightarrow> string"
  oltIndQ :: "indication list"
  sched_map :: "sched_map_key \<rightharpoonup> int"
  tm_sched_bitset :: "nat set"
  qos_type_map :: "qos_type_map_key \<rightharpoonup> egress_qos_type"
  sched_qmp_id_map :: "(sched_qmp_id_map_key, int) omap"
  qmp_id_to_qmp_map :: "(int, uint32 list) omap"
  tm_qmp_bitset :: "nat set"
  gemport_status_map :: "gemport_status_map_key \<rightharpoonup> bool"
  pon_gem_to_onu_uni_map :: "(uint32 \<times> uint32) \<rightharpoonup> (uint32 \<times> uint32)"
  alloc_cfg_compltd_map :: "cfg_compltd_key \<rightharpoonup> bool"
  gem_cfg_compltd_map :: "cfg_compltd_key \<rightharpoonup> bool"
  onu_deact_compltd_map :: "cfg_compltd_key \<rightharpoonup> bool"
  onu_rssi_compltd_map :: "cfg_compltd_key \<rightharpoonup> bool"
  acl_id_bitset :: "nat set"
  acl_classifier_to_acl_id_map :: "(acl_classifier_key, uint16) omap"
  flow_to_acl_map :: "(uint64 \<times> string) \<rightharpoonup> (int \<times> int)"
  acl_ref_cnt :: "uint16 \<rightharpoonup> uint16"
  intf_acl_registration_ref_cnt :: "(uint16 \<times> uint8 \<times> string) \<rightharpoonup> uint16"
  max_acls_with_vlan_classifiers_hit :: bool
  trap_pkt_info_with_vlan_for_flow_id :: "uint64 \<rightharpoonup> (trap_to_host_pkt_info \<times> uint16)"
  trap_vlan_ids_for_pkt_info :: "trap_to_host_pkt_info \<rightharpoonup> uint16 list"
  flow_id_bitset :: "nat set"
  voltha_flow_to_device_flow :: "uint64 \<rightharpoonup> device_flow"
  symmetric_datapath_flow_id_map :: "symmetric_key \<rightharpoonup> uint64"
  flowid_to_port :: "uint32 \<rightharpoonup> uint32"
  flowid_to_gemport :: "uint32 \<rightharpoonup> uint32"
  port_to_flows :: "uint32 \<rightharpoonup> uint32 set"
  flow_map :: "(uint16 \<times> bcmolt_flow_type, int) omap"
  flow_id_counters :: uint16

definition init_olt :: olt where
  "init_olt = \<lparr>bal_trace = [], activated = False, connected_to_voltha = False,
     connected_once = False, num_of_nni_ports = 0, num_of_pon_ports = 0,
     board_technology = ''unknown'', chip_family = ''unknown'', firmware_version = ''Openolt.2019.07.01'',
     openolt_version = None, subscribed = False, intf_technologies = (\<lambda>_. []), oltIndQ = [],
     sched_map = Map.empty, tm_sched_bitset = {}, qos_type_map = Map.empty,
     sched_qmp_id_map = [], qmp_id_to_qmp_map = [], tm_qmp_bitset = {},
     gemport_status_map = Map.empty, pon_gem_to_onu_uni_map = Map.empty,
     alloc_cfg_compltd_map = Map.empty, gem_cfg_compltd_map = Map.empty,
     onu_deact_compltd_map = Map.empty, onu_rssi_compltd_map = Map.empty,
     acl_id_bitset = {}, acl_classifier_to_acl_id_map = [], flow_to_acl_map = Map.empty,
     acl_ref_cnt = Map.empty, intf_acl_registration_ref_cnt = Map.empty,
     max_acls_with_vlan_classifiers_hit = False,
     trap_pkt_info_with_vlan_for_flow_id = Map.empty, trap_vlan_ids_for_pkt_info = Map.empty,
     flow_id_bitset = {}, voltha_flow_to_device_flow = Map.empty,
     symmetric_datapath_flow_id_map = Map.empty, flowid_to_port = Map.empty,
     flowid_to_gemport = Map.empty, port_to_flows = Map.empty, flow_map = [],
     flow_id_counters = 0\<rparr>"

lemma init_olt_sel [simp]:
  "bal_trace init_olt = []"
  "activated init_olt = False"
  "connected_to_voltha init_olt = False"
  "connected_once init_olt = False"
  "num_of_nni_ports init_olt = 0"
  "num_of_pon_ports init_olt = 0"
  "board_technology init_olt = ''unknown''"
  "chip_family init_olt = ''unknown''"
  "firmware_version init_olt = ''Openolt.2019.07.01''"
  "openolt_version init_olt = None"
  "subscribed init_olt = False"
  "intf_technologies init_olt = (\<lambda>_. [])"
  "oltIndQ init_olt = []"
  "sched_map init_olt = Map.empty"
  "tm_sched_bitset init_olt = {}"
  "qos_type_map init_olt = Map.empty"
  "sched_qmp_id_map init_olt = []"
  "qmp_id_to_qmp_map init_olt = []"
  "tm_qmp_bitset init_olt = {}"
  "gemport_status_map init_olt = Map.empty"
  "pon_gem_to_onu_uni_map init_olt = Map.empty"
  "alloc_cfg_compltd_map init_olt = Map.empty"
  "gem_cfg_compltd_map init_olt = Map.empty"
  "onu_deact_compltd_map init_olt = Map.empty"
  "onu_rssi_compltd_map init_olt = Map.empty"
  "acl_id_bitset init_olt = {}"
  "acl_classifier_to_acl_id_map init_olt = []"
  "flow_to_acl_map init_olt = Map.empty"
  "acl_ref_cnt init_olt = Map.empty"
  "intf_acl_registration_ref_cnt init_olt = Map.empty"
  "max_acls_with_vlan_classifiers_hit init_olt = False"
  "trap_pkt_info_with_vlan_for_flow_id init_olt = Map.empty"
  "trap_vlan_ids_for_pkt_info init_olt = Map.empty"
  "flow_id_bitset init_olt = {}"
  "voltha_flow_to_device_flow init_olt = Map.empty"
  "symmetric_datapath_flow_id_map init_olt = Map.empty"
  "flowid_to_port init_olt = Map.empty"
  "flowid_to_gemport init_olt = Map.empty"
  "port_to_flows init_olt = Map.empty"
  "flow_map init_olt = []"
  "flow_id_counters init_olt = 0"
  by (simp_all add: init_olt_def)

section \<open>Calling BAL\<close>

definition bal_call :: "platform \<Rightarrow> bal_req \<Rightarrow> olt \<Rightarrow> bal_rsp \<times> olt" where
  "bal_call P req s = (bal_respond P (bal_trace s) req, s\<lparr>bal_trace := req # bal_trace s\<rparr>)"

abbreviation bal_rsp_of :: "platform \<Rightarrow> bal_req \<Rightarrow> olt \<Rightarrow> bal_rsp" where
  "bal_rsp_of P req s \<equiv> bal_respond P (bal_trace s) req"

definition bal_err :: "platform \<Rightarrow> bal_req \<Rightarrow> olt \<Rightarrow> bcmos_errno \<times> olt" where
  "bal_err P req s = (let (rsp, s) = bal_call P req s in (r_err rsp, s))"

definition push_ind :: "indication \<Rightarrow> olt \<Rightarrow> olt" where
  "push_ind i s = s\<lparr>oltIndQ := oltIndQ s @ [i]\<rparr>"

definition uninit_u :: "platform \<Rightarrow> olt \<Rightarrow> string \<Rightarrow> int" where
  "uninit_u P s v = uninit P (bal_trace s) v"

text \<open>The \<open>n\<close> bytes copied from a string, which may read past its terminating zero.\<close>

definition copied_bytes :: "platform \<Rightarrow> olt \<Rightarrow> nat \<Rightarrow> int list \<Rightarrow> int list" where
  "copied_bytes P s n m = take n (m @ 0 # replicate n (uninit_u P s ''memory''))"

definition uninit_device_flow :: "platform \<Rightarrow> olt \<Rightarrow> device_flow" where
  "uninit_device_flow P s = \<lparr>is_flow_replicated = uninit_u P s ''is_flow_replicated'' \<noteq> 0,
     df_flow_type = [],
     df_params = (\<lambda>i. \<lparr>dfp_pbit = word_of_int (uninit_u P s ''pbit''),
                       dfp_gemport_id = word_of_int (uninit_u P s ''gemport_id''),
                       dfp_flow_id = word_of_int (uninit_u P s ''flow_id'')\<rparr>),
     total_replicated_flows = word_of_int (uninit_u P s ''total_replicated_flows''),
     df_voltha_flow_id = word_of_int (uninit_u P s ''voltha_flow_id''),
     symmetric_voltha_flow_id = word_of_int (uninit_u P s ''symmetric_voltha_flow_id'')\<rparr>"

definition is_connected :: "olt \<Rightarrow> bool" where "is_connected s = connected_to_voltha s"
definition is_activated :: "olt \<Rightarrow> bool" where "is_activated s = activated s"
definition previously_connected :: "olt \<Rightarrow> bool" where "previously_connected s = connected_once s"

definition connect :: "olt \<Rightarrow> olt" where
  "connect s = s\<lparr>connected_to_voltha := True, connected_once := True\<rparr>"

definition disconnect :: "olt \<Rightarrow> olt" where
  "disconnect s = s\<lparr>connected_to_voltha := False\<rparr>"

definition activate :: "olt \<Rightarrow> olt" where "activate s = s\<lparr>activated := True\<rparr>"
definition deactivate :: "olt \<Rightarrow> olt" where "deactivate s = s\<lparr>activated := False\<rparr>"

end
