(* ===== verification/Id_Pool.thy ===== *)
theory Id_Pool
  imports Core_Data
begin

text \<open>
  The identifier pools of \<open>agent/src/core_utils.cc\<close>: scheduler ids, ACL ids and flow ids, each a
  bitset searched linearly from its first id, and the contract they share as a locale.  The flow
  id loops compare a \<open>uint16_t\<close> with 65535, so their bound never fails: the model lets the
  counter wrap and gives \<open>None\<close> for the search that does not end.
\<close>

section \<open>The contract of a pool\<close>

locale id_pool =
  fixes ids :: "nat set"
    and used :: "'s \<Rightarrow> nat set"
    and alloc :: "'s \<Rightarrow> nat option \<times> 's"
    and release :: "nat \<Rightarrow> 's \<Rightarrow> 's"
  assumes alloc_Some: "alloc s = (Some i, s') \<Longrightarrow> i \<in> ids \<and> i \<notin> used s \<and> used s' = insert i (used s)"
    and alloc_None: "alloc s = (None, s') \<Longrightarrow> ids \<subseteq> used s \<and> used s' = used s"
    and release_used: "i \<in> ids \<Longrightarrow> used (release i s) = used s - {i}"
begin

fun alloc_many :: "nat \<Rightarrow> 's \<Rightarrow> nat list \<times> 's" where
  "alloc_many 0 s = ([], s)"
| "alloc_many (Suc n) s =
     (case alloc s of (None, s) \<Rightarrow> ([], s)
      | (Some i, s) \<Rightarrow> (let (is, s) = alloc_many n s in (i # is, s)))"

lemma alloc_many_fresh:
  "alloc_many n s = (is, s') \<Longrightarrow>
     distinct is \<and> set is \<subseteq> ids - used s \<and> used s' = used s \<union> set is"
proof (induction n arbitrary: s "is" s')
  case 0
  then show ?case by auto
next
  case (Suc n)
  show ?case
  proof (cases "alloc s")
    case (Pair r t)
    show ?thesis
    proof (cases r)
      case None
      then show ?thesis using Suc.prems Pair alloc_None [of s t] by auto
    next
      case (Some i)
      obtain js u where m: "alloc_many n t = (js, u)" by fastforce
      have "i \<in> ids \<and> i \<notin> used s \<and> used t = insert i (used s)"
        using alloc_Some Pair Some by simp
      moreover have "distinct js \<and> set js \<subseteq> ids - used t \<and> used u = used t \<union> set js"
        by (rule Suc.IH [OF m])
      ultimately show ?thesis using Suc.prems Pair Some m by auto
    qed
  qed
qed

lemma alloc_exhausted_iff: "fst (alloc s) = None \<longleftrightarrow> ids \<subseteq> used s"
  by (metis alloc_None alloc_Some option.exhaust prod.collapse subset_eq)

lemma alloc_after_release:
  "i \<in> ids \<Longrightarrow> \<exists>j s'. alloc (release i s) = (Some j, s') \<and> j \<in> ids \<and> j \<notin> used s - {i}"
  using alloc_exhausted_iff [of "release i s"] release_used [of i s]
  by (metis alloc_Some Diff_iff insertI1 option.exhaust prod.collapse subsetD)

lemma release_alloc: "alloc s = (Some i, s') \<Longrightarrow> used (release i s') = used s"
  using alloc_Some release_used by fastforce

end

section \<open>Scheduler ids\<close>

definition get_default_tm_sched_id :: "platform \<Rightarrow> int \<Rightarrow> string \<Rightarrow> int" where
  "get_default_tm_sched_id P intf_id direction =
     (if direction = upstream then int (tm_upstream_sched_id_start P) + intf_id
      else if direction = downstream then int (tm_downstream_sched_id_start P) + intf_id
      else 0)"

definition sched_key :: "int \<Rightarrow> int \<Rightarrow> int \<Rightarrow> string \<Rightarrow> int \<Rightarrow> sched_map_key" where
  "sched_key pon onu uni dir tp =
     (u32_of_int pon, u32_of_int onu, u32_of_int uni, dir, u32_of_int tp)"

definition tm_sched_alloc :: "olt \<Rightarrow> nat option \<times> olt" where
  "tm_sched_alloc s =
     (case first_free (tm_sched_bitset s) 0 MAX_TM_SCHED_ID of
        None \<Rightarrow> (None, s)
      | Some i \<Rightarrow> (Some i, s\<lparr>tm_sched_bitset := insert i (tm_sched_bitset s)\<rparr>))"

definition get_tm_sched_id :: "int \<Rightarrow> int \<Rightarrow> int \<Rightarrow> string \<Rightarrow> int \<Rightarrow> olt \<Rightarrow> uint32 \<times> olt" where
  "get_tm_sched_id pon onu uni dir tp s =
     (let key = sched_key pon onu uni dir tp;
          cached = (case sched_map s key of Some i \<Rightarrow> i | None \<Rightarrow> -1)
      in if cached \<noteq> -1 then (u32_of_int cached, s)
         else case tm_sched_alloc s of
                (Some i, s) \<Rightarrow> (of_nat i, s\<lparr>sched_map := (sched_map s)(key \<mapsto> int i)\<rparr>)
              | (None, s) \<Rightarrow> (u32_of_int (-1), s))"

definition free_tm_sched_id :: "int \<Rightarrow> int \<Rightarrow> int \<Rightarrow> string \<Rightarrow> int \<Rightarrow> olt \<Rightarrow> olt" where
  "free_tm_sched_id pon onu uni dir tp s =
     (let key = sched_key pon onu uni dir tp
      in case sched_map s key of
           Some i \<Rightarrow> s\<lparr>tm_sched_bitset := tm_sched_bitset s - {nat i},
                       sched_map := (sched_map s)(key := None)\<rparr>
         | None \<Rightarrow> s)"

definition is_tm_sched_id_present :: "int \<Rightarrow> int \<Rightarrow> int \<Rightarrow> string \<Rightarrow> int \<Rightarrow> olt \<Rightarrow> bool" where
  "is_tm_sched_id_present pon onu uni dir tp s =
     (sched_map s (sched_key pon onu uni dir tp) \<noteq> None)"

text \<open>
  The map and the bitset agree: the keys have distinct ids below the limit and the bits that are
  set are exactly the ids in the map.
\<close>

definition sched_inv :: "olt \<Rightarrow> bool" where
  "sched_inv s \<longleftrightarrow>
     (\<forall>k i. sched_map s k = Some i \<longrightarrow> 0 \<le> i \<and> i < int MAX_TM_SCHED_ID) \<and>
     inj_on (sched_map s) (dom (sched_map s)) \<and>
     tm_sched_bitset s = nat ` ran (sched_map s)"

lemma sched_inv_init [simp]: "sched_inv init_olt"
  by (simp add: sched_inv_def init_olt_def)

lemma sched_inv_range: "sched_inv s \<Longrightarrow> sched_map s k = Some i \<Longrightarrow> 0 \<le> i \<and> i < int MAX_TM_SCHED_ID"
  unfolding sched_inv_def by blast

lemma sched_inv_inj: "sched_inv s \<Longrightarrow> sched_map s k = Some i \<Longrightarrow> sched_map s k' = Some i \<Longrightarrow> k' = k"
  unfolding sched_inv_def by (metis (no_types) domI inj_onD)

lemma tm_sched_alloc_Some:
  "tm_sched_alloc s = (Some i, s') \<Longrightarrow> i < MAX_TM_SCHED_ID \<and> i \<notin> tm_sched_bitset s \<and>
     {0..<i} \<subseteq> tm_sched_bitset s \<and> s' = s\<lparr>tm_sched_bitset := insert i (tm_sched_bitset s)\<rparr>"
  unfolding tm_sched_alloc_def by (auto split: option.splits dest: first_free_Some)

lemma tm_sched_alloc_None:
  "tm_sched_alloc s = (None, s') \<Longrightarrow> {0..<MAX_TM_SCHED_ID} \<subseteq> tm_sched_bitset s \<and> s' = s"
  unfolding tm_sched_alloc_def by (auto split: option.splits simp: first_free_None)

definition tm_sched_release :: "nat \<Rightarrow> olt \<Rightarrow> olt" where
  "tm_sched_release i s = s\<lparr>tm_sched_bitset := tm_sched_bitset s - {i}\<rparr>"

interpretation sched_pool: id_pool "{0..<MAX_TM_SCHED_ID}" tm_sched_bitset tm_sched_alloc
    tm_sched_release
  by unfold_locales (auto simp: tm_sched_release_def dest: tm_sched_alloc_Some tm_sched_alloc_None)


lemma get_tm_sched_id_cases:
  "get_tm_sched_id pon onu uni dir tp s =
     (case sched_map s (sched_key pon onu uni dir tp) of
        Some i \<Rightarrow> if i \<noteq> -1 then (u32_of_int i, s)
                  else get_tm_sched_id pon onu uni dir tp s
      | None \<Rightarrow>
          (case tm_sched_alloc s of
             (Some i, s') \<Rightarrow> (of_nat i, s'\<lparr>sched_map := (sched_map s)(sched_key pon onu uni dir tp \<mapsto> int i)\<rparr>)
           | (None, s') \<Rightarrow> (u32_of_int (-1), s')))"
  by (auto simp: get_tm_sched_id_def Let_def tm_sched_alloc_def split: option.splits)

lemma sched_inv_insert:
  assumes "sched_inv s" "sched_map s k = None" "i \<notin> tm_sched_bitset s" "i < MAX_TM_SCHED_ID"
  shows "sched_inv (s\<lparr>tm_sched_bitset := insert i (tm_sched_bitset s),
                      sched_map := (sched_map s)(k \<mapsto> int i)\<rparr>)"
proof -
  have fresh: "int i \<notin> ran (sched_map s)"
    using assms(1,3) by (force simp: sched_inv_def)
  have "inj_on ((sched_map s)(k \<mapsto> int i)) (insert k (dom (sched_map s)))"
    using assms(1,2) fresh
    by (auto simp: sched_inv_def inj_on_def ran_def split: if_splits)
  moreover have "nat ` ran ((sched_map s)(k \<mapsto> int i)) = insert i (tm_sched_bitset s)"
    using assms(1,2) by (simp add: sched_inv_def)
  ultimately show ?thesis using assms(1,4) by (simp add: sched_inv_def)
qed

lemma sched_inv_get:
  assumes "sched_inv s"
  shows "sched_inv (snd (get_tm_sched_id pon onu uni dir tp s))"
proof (cases "sched_map s (sched_key pon onu uni dir tp)")
  case None
  then show ?thesis
    using assms sched_inv_insert [OF assms None]
    by (auto simp: get_tm_sched_id_cases [of pon onu uni dir tp s]
        split: option.splits prod.splits dest!: tm_sched_alloc_Some tm_sched_alloc_None)
next
  case (Some i)
  then have "i \<noteq> -1" using sched_inv_range [OF assms Some] by force
  then show ?thesis using assms Some by (simp add: get_tm_sched_id_def)
qed

lemma ran_remove_inj:
  assumes "inj_on m (dom m)" "m k = Some i"
  shows "ran (m(k := None)) = ran m - {i}"
proof
  show "ran (m(k := None)) \<subseteq> ran m - {i}"
    using assms by (auto simp: ran_def inj_on_def dom_def split: if_splits)
  show "ran m - {i} \<subseteq> ran (m(k := None))"
    using assms(2) unfolding ran_def by (auto, metis option.inject)
qed

lemma sched_inv_free:
  assumes "sched_inv s"
  shows "sched_inv (free_tm_sched_id pon onu uni dir tp s)"
proof (cases "sched_map s (sched_key pon onu uni dir tp)")
  case None
  then show ?thesis using assms by (simp add: free_tm_sched_id_def)
next
  case (Some i)
  define k m where "k = sched_key pon onu uni dir tp" and "m = sched_map s"
  have pos: "0 \<le> j" if "j \<in> ran m" for j
    using assms that unfolding sched_inv_def ran_def m_def by blast
  have k: "m k = Some i" using Some by (simp add: k_def m_def)
  then have "ran (m(k := None)) = ran m - {i}"
    using assms by (intro ran_remove_inj) (simp_all add: sched_inv_def m_def)
  then have nr: "nat ` ran (m(k := None)) = nat ` ran m - {nat i}"
    using inj_on_image_set_diff [of nat "ran m" "ran m" "{i}"] pos k
    by (simp add: inj_on_def eq_nat_nat_iff ranI)
  have "inj_on (m(k := None)) (dom (m(k := None)))"
    using assms unfolding sched_inv_def m_def by (fastforce simp: inj_on_def)
  moreover have "0 \<le> j \<and> j < int MAX_TM_SCHED_ID" if "(m(k := None)) x = Some j" for x j
    using that sched_inv_range [OF assms, of x j] by (auto simp: m_def split: if_splits)
  moreover have "free_tm_sched_id pon onu uni dir tp s =
      s\<lparr>tm_sched_bitset := tm_sched_bitset s - {nat i}, sched_map := m(k := None)\<rparr>"
    using Some by (simp add: free_tm_sched_id_def k_def m_def)
  ultimately show ?thesis using assms nr unfolding sched_inv_def m_def by simp
qed

lemma get_tm_sched_id_cached:
  "sched_inv s \<Longrightarrow> sched_map s (sched_key pon onu uni dir tp) = Some i \<Longrightarrow>
     get_tm_sched_id pon onu uni dir tp s = (u32_of_int i, s)"
  using sched_inv_range [of s "sched_key pon onu uni dir tp" i] by (auto simp: get_tm_sched_id_def)

section \<open>ACL ids\<close>

definition get_acl_id :: "olt \<Rightarrow> int \<times> olt" where
  "get_acl_id s =
     (case first_free (acl_id_bitset s) 0 MAX_ACL_ID of
        Some i \<Rightarrow> (int i, s\<lparr>acl_id_bitset := insert i (acl_id_bitset s)\<rparr>)
      | None \<Rightarrow> (-1, s))"

definition free_acl_id :: "int \<Rightarrow> olt \<Rightarrow> olt" where
  "free_acl_id acl_id s =
     (if acl_id < int MAX_ACL_ID then s\<lparr>acl_id_bitset := acl_id_bitset s - {nat acl_id}\<rparr> else s)"

text \<open>The two operations as a pool: \<open>-1\<close> is no id.\<close>

definition acl_alloc :: "olt \<Rightarrow> nat option \<times> olt" where
  "acl_alloc s = (case get_acl_id s of (i, s') \<Rightarrow> (if i = -1 then None else Some (nat i), s'))"

lemma get_acl_id_cases:
  "get_acl_id s = (i, s') \<Longrightarrow>
     (i = -1 \<and> s' = s \<and> {0..<MAX_ACL_ID} \<subseteq> acl_id_bitset s) \<or>
     (0 \<le> i \<and> i < int MAX_ACL_ID \<and> nat i \<notin> acl_id_bitset s \<and> {0..<nat i} \<subseteq> acl_id_bitset s \<and>
      s' = s\<lparr>acl_id_bitset := insert (nat i) (acl_id_bitset s)\<rparr>)"
  unfolding get_acl_id_def
  by (cases "first_free (acl_id_bitset s) 0 MAX_ACL_ID")
    (auto simp: first_free_None dest!: first_free_Some)

interpretation acl_pool: id_pool "{0..<MAX_ACL_ID}" acl_id_bitset acl_alloc "\<lambda>i. free_acl_id (int i)"
  by unfold_locales
    (auto simp: acl_alloc_def free_acl_id_def split: prod.splits if_splits dest: get_acl_id_cases)


section \<open>Flow ids\<close>

text \<open>
  \<open>flow_id <= FLOW_ID_END\<close> with \<open>FLOW_ID_END = 65535\<close> holds of every \<open>uint16_t\<close>.
\<close>

partial_function (option) flow_id_search :: "nat set \<Rightarrow> uint16 \<Rightarrow> uint16 option" where
  "flow_id_search bs f =
     (if f \<le> 65535 then
        (if unat f \<notin> bs then Some f else flow_id_search bs (f + 1))
      else Some f)"

definition get_flow_id :: "olt \<Rightarrow> (uint16 \<times> olt) option" where
  "get_flow_id s =
     do {
       f \<leftarrow> flow_id_search (flow_id_bitset s) 1;
       let s = s\<lparr>flow_id_bitset := insert (unat f) (flow_id_bitset s)\<rparr>;
       Some (if f \<le> 65535 then f else INVALID_FLOW_ID, s)
     }"

definition free_flow_id :: "uint16 \<Rightarrow> olt \<Rightarrow> olt" where
  "free_flow_id f s =
     (if f \<le> 65535 then s\<lparr>flow_id_bitset := flow_id_bitset s - {unat f}\<rparr> else s)"

fun free_flow_ids :: "uint16 list \<Rightarrow> olt \<Rightarrow> olt" where
  "free_flow_ids [] s = s"
| "free_flow_ids (f # fs) s = free_flow_ids fs (free_flow_id f s)"

partial_function (option) flow_ids_search ::
    "int \<Rightarrow> uint16 \<Rightarrow> nat set \<Rightarrow> uint16 list \<Rightarrow> (nat set \<times> uint16 list) option" where
  "flow_ids_search num f bs fs =
     (if f \<le> 65535 \<and> int (length fs) < num then
        (if unat f \<notin> bs then flow_ids_search num (f + 1) (insert (unat f) bs) (fs @ [f])
         else flow_ids_search num (f + 1) bs fs)
      else Some (bs, fs))"

definition get_flow_ids :: "int \<Rightarrow> olt \<Rightarrow> ((bool \<times> uint16 list) \<times> olt) option" where
  "get_flow_ids num s =
     (if num > int NUMBER_OF_PBITS then Some ((False, []), s)
      else do {
        (bs, fs) \<leftarrow> flow_ids_search num 1 (flow_id_bitset s) [];
        let s = s\<lparr>flow_id_bitset := bs\<rparr>;
        if int (length fs) \<noteq> num then Some ((False, fs), free_flow_ids fs s)
        else Some ((True, fs), s)
      })"

lemma u16_le_max [simp]: "(f :: uint16) \<le> 65535"
  using unsigned_less [of f, where 'a = nat] by (simp add: word_le_nat_alt)

lemma flow_id_search_simp:
  "flow_id_search bs f = (if unat f \<notin> bs then Some f else flow_id_search bs (f + 1))"
  by (subst flow_id_search.simps) simp

lemma flow_ids_search_simp:
  "flow_ids_search num f bs fs =
     (if int (length fs) < num then
        (if unat f \<notin> bs then flow_ids_search num (f + 1) (insert (unat f) bs) (fs @ [f])
         else flow_ids_search num (f + 1) bs fs)
      else Some (bs, fs))"
  by (subst flow_ids_search.simps) simp

text \<open>What a search returns was free, so on a full pool it does not return.\<close>

lemma flow_id_search_free: "flow_id_search bs f = Some r \<Longrightarrow> unat r \<notin> bs"
  by (rule flow_id_search.raw_induct [where P = "\<lambda>bs f r. unat r \<notin> bs"])
    (auto split: if_splits)

lemma unat_plus_one16: "unat (f :: uint16) < 65535 \<Longrightarrow> unat (f + 1) = Suc (unat f)"
  by (simp add: unat_word_ariths)

lemma flow_id_search_least:
  assumes "unat f \<le> k" "k \<le> 65535" "k \<notin> bs" "{unat f..<k} \<subseteq> bs"
  shows "flow_id_search bs f = Some (of_nat k)"
  using assms
proof (induction "k - unat f" arbitrary: f)
  case 0
  then have "unat f = k" by simp
  then have "of_nat k = f" by auto
  then show ?case using 0 \<open>unat f = k\<close> by (subst flow_id_search_simp) simp
next
  case (Suc n)
  then have lt: "unat f < k" by simp
  then have s: "unat (f + 1) = Suc (unat f)" using Suc.prems by (intro unat_plus_one16) simp
  have "flow_id_search bs (f + 1) = Some (of_nat k)"
    by (rule Suc.hyps(1)) (use Suc s lt in \<open>auto\<close>)
  then show ?case using Suc.prems lt by (subst flow_id_search_simp) auto
qed

lemma unat16_le: "unat (f :: uint16) \<le> 65535"
  using unsigned_less [of f, where 'a = nat] by simp

lemma u16_eqI: "unat f = k \<Longrightarrow> (f :: uint16) = of_nat k"
  by auto

lemma flow_id_search_wrap:
  assumes "{unat f..65535} \<subseteq> bs"
  shows "flow_id_search bs f = flow_id_search bs 0"
  using assms
proof (induction "65535 - unat f" arbitrary: f)
  case 0
  then have u: "unat f = 65535" using unat16_le [of f] by simp
  then have "f = 65535" using u16_eqI [of f 65535] by simp
  then have "f + 1 = 0" by simp
  then show ?case using 0 u by (subst flow_id_search_simp) simp
next
  case (Suc n)
  then have lt: "unat f < 65535" by simp
  then have s: "unat (f + 1) = Suc (unat f)" by (rule unat_plus_one16)
  have "flow_id_search bs (f + 1) = flow_id_search bs 0"
    by (rule Suc.hyps(1)) (use Suc s in \<open>auto\<close>)
  moreover have "unat f \<in> bs" using Suc.prems lt by auto
  ultimately show ?case by (subst flow_id_search_simp) simp
qed

lemma flow_id_search_total:
  assumes "k \<le> 65535" "k \<notin> bs"
  shows "\<exists>r. flow_id_search bs f = Some r"
proof (cases "{unat f..65535} \<subseteq> bs")
  case True
  obtain j where "j \<notin> bs" "j \<le> k" "{0..<j} \<subseteq> bs"
    using exists_least_iff [of "\<lambda>j. j \<notin> bs"] assms(2)
    by (metis atLeastLessThan_iff not_le_imp_less subsetI)
  then show ?thesis
    using flow_id_search_least [of 0 j bs] flow_id_search_wrap [OF True] assms by auto
next
  case False
  define Q where "Q = (\<lambda>j. unat f \<le> j \<and> j \<notin> bs)"
  have "\<exists>m. Q m \<and> m \<le> 65535" using False by (auto simp: Q_def)
  then obtain m where "Q m" "m \<le> 65535" by blast
  then obtain j where "Q j" "j \<le> m" "\<forall>i<j. \<not> Q i"
    using exists_least_iff [of Q] by (metis not_le_imp_less)
  then have "{unat f..<j} \<subseteq> bs" by (auto simp: Q_def)
  moreover have "unat f \<le> j" "j \<notin> bs" "j \<le> 65535"
    using \<open>Q j\<close> \<open>j \<le> m\<close> \<open>m \<le> 65535\<close> by (simp_all add: Q_def)
  ultimately show ?thesis using flow_id_search_least [of f j bs] by blast
qed

lemma flow_id_search_None: "flow_id_search bs f = None \<longleftrightarrow> {0..65535} \<subseteq> bs"
proof
  show "{0..65535} \<subseteq> bs" if "flow_id_search bs f = None"
    using that flow_id_search_total [of _ bs f] by fastforce
  show "flow_id_search bs f = None" if "{0..65535} \<subseteq> bs"
  proof (cases "flow_id_search bs f")
    case (Some r)
    then show ?thesis using that flow_id_search_free [OF Some] unat16_le [of r] by auto
  qed simp
qed

lemma get_flow_id_eq:
  "get_flow_id s =
     map_option (\<lambda>f. (f, s\<lparr>flow_id_bitset := insert (unat f) (flow_id_bitset s)\<rparr>))
       (flow_id_search (flow_id_bitset s) 1)"
  by (cases "flow_id_search (flow_id_bitset s) 1") (simp_all add: get_flow_id_def)

definition flow_alloc :: "olt \<Rightarrow> nat option \<times> olt" where
  "flow_alloc s = (case get_flow_id s of None \<Rightarrow> (None, s) | Some (f, s') \<Rightarrow> (Some (unat f), s'))"

text \<open>
  With \<open>None\<close> for the call that does not return, the flow ids are a pool over all 65536 values,
  the invalid id 0 included.
\<close>

interpretation flow_pool: id_pool "{0..65535}" flow_id_bitset flow_alloc "\<lambda>i. free_flow_id (of_nat i)"
proof
  fix s s' i
  show "flow_alloc s = (Some i, s') \<Longrightarrow>
      i \<in> {0..65535} \<and> i \<notin> flow_id_bitset s \<and> flow_id_bitset s' = insert i (flow_id_bitset s)"
    using unat16_le
    by (auto simp: flow_alloc_def get_flow_id_eq split: option.splits dest: flow_id_search_free)
  show "flow_alloc s = (None, s') \<Longrightarrow> {0..65535} \<subseteq> flow_id_bitset s \<and> flow_id_bitset s' = flow_id_bitset s"
    by (auto simp: flow_alloc_def get_flow_id_eq flow_id_search_None split: option.splits)
  show "i \<in> {0..65535} \<Longrightarrow> flow_id_bitset (free_flow_id (of_nat i) s) = flow_id_bitset s - {i}"
    by (simp add: free_flow_id_def unat_of_nat)
qed


lemma flow_ids_search_enough:
  assumes "int (length fs) \<le> num" "nat (num - int (length fs)) \<le> card ({unat f..65535} - bs)"
  shows "\<exists>new. flow_ids_search num f bs fs = Some (bs \<union> unat ` set new, fs @ new) \<and>
           distinct new \<and> int (length (fs @ new)) = num \<and> unat ` set new \<subseteq> {unat f..65535} - bs"
  using assms
proof (induction "65536 - unat f" arbitrary: f bs fs)
  case 0
  then show ?case using unat16_le [of f] by simp
next
  case (Suc n)
  show ?case
  proof (cases "int (length fs) < num")
    case False
    then show ?thesis using Suc.prems
      by (intro exI [of _ "[]"]) (simp add: flow_ids_search_simp [of num f])
  next
    case lt: True
    show ?thesis
    proof (cases "unat f = 65535")
      case True
      then have "{unat f..65535} = {unat f}" using True by simp
      then have c: "card ({unat f..65535} - bs) \<le> (if unat f \<in> bs then 0 else 1)"
        by (simp add: insert_Diff_if)
      have "1 \<le> nat (num - int (length fs))" using lt by linarith
      then have "1 \<le> card ({unat f..65535} - bs)" using Suc.prems(2) by linarith
      then have free: "unat f \<notin> bs" and "card ({unat f..65535} - bs) \<le> 1"
        using c by presburger+
      then have len: "int (length fs) + 1 = num" using lt Suc.prems(2) by linarith
      have "flow_ids_search num f bs fs = flow_ids_search num (f + 1) (insert (unat f) bs) (fs @ [f])"
        using lt free by (simp only: flow_ids_search_simp [of num f] if_True not_False_eq_True)
      also have "\<dots> = Some (insert (unat f) bs, fs @ [f])"
        using len by (subst flow_ids_search_simp) simp
      finally show ?thesis using free len True by (intro exI [of _ "[f]"]) simp
    next
      case False
      then have l: "unat f < 65535" using unat16_le [of f] by simp
      then have s: "unat (f + 1) = Suc (unat f)" by (rule unat_plus_one16)
      define A where "A = {Suc (unat f)..65535}"
      have split: "{unat f..65535} = insert (unat f) A" using l by (auto simp: A_def)
      have m: "n = 65536 - unat (f + 1)" using Suc.hyps(2) s by simp
      have notin: "unat f \<notin> A" and fin: "finite A" by (simp_all add: A_def)
      show ?thesis
      proof (cases "unat f \<in> bs")
        case True
        then have "nat (num - int (length fs)) \<le> card ({unat (f + 1)..65535} - bs)"
          using Suc.prems split s by (simp add: A_def)
        from Suc.hyps(1) [OF m Suc.prems(1) this] obtain new where
          "flow_ids_search num (f + 1) bs fs = Some (bs \<union> unat ` set new, fs @ new)" "distinct new"
          "int (length (fs @ new)) = num" "unat ` set new \<subseteq> A - bs"
          unfolding s A_def by blast
        then show ?thesis using True lt split
          by (intro exI [of _ new]) (auto simp: flow_ids_search_simp [of num f])
      next
        case free: False
        have "{unat f..65535} - bs = insert (unat f) (A - bs)" using split free by auto
        then have "card ({unat f..65535} - bs) = Suc (card (A - bs))" using notin fin by simp
        moreover have "A - insert (unat f) bs = A - bs" using notin by auto
        ultimately have c: "nat (num - int (length (fs @ [f]))) \<le>
            card ({unat (f + 1)..65535} - insert (unat f) bs)"
          using Suc.prems s by (simp add: A_def)
        have "int (length (fs @ [f])) \<le> num" using lt by simp
        from Suc.hyps(1) [OF m this c] obtain new where new:
          "flow_ids_search num (f + 1) (insert (unat f) bs) (fs @ [f]) =
             Some (insert (unat f) bs \<union> unat ` set new, (fs @ [f]) @ new)" "distinct new"
          "int (length ((fs @ [f]) @ new)) = num" "unat ` set new \<subseteq> A - insert (unat f) bs"
          unfolding s A_def by blast
        have "f \<notin> set new" using new(4) by auto
        then show ?thesis using new free lt split
          by (intro exI [of _ "f # new"]) (auto simp: flow_ids_search_simp [of num f])
      qed
    qed
  qed
qed

lemma get_flow_ids_enough:
  assumes "0 \<le> num" "num \<le> 8" "nat num \<le> card ({1..65535} - flow_id_bitset s)"
  shows "\<exists>fs. get_flow_ids num s =
              Some ((True, fs), s\<lparr>flow_id_bitset := flow_id_bitset s \<union> unat ` set fs\<rparr>) \<and>
           distinct fs \<and> int (length fs) = num \<and> unat ` set fs \<subseteq> {1..65535} - flow_id_bitset s"
proof -
  have a: "int (length ([] :: uint16 list)) \<le> num" using assms(1) by simp
  have b: "nat (num - int (length ([] :: uint16 list))) \<le>
      card ({unat (1 :: uint16)..65535} - flow_id_bitset s)" using assms(3) by simp
  obtain fs where fs:
    "flow_ids_search num 1 (flow_id_bitset s) [] = Some (flow_id_bitset s \<union> unat ` set fs, fs)"
    "distinct fs" "int (length fs) = num" "unat ` set fs \<subseteq> {1..65535} - flow_id_bitset s"
    using flow_ids_search_enough [OF a b] unfolding append_Nil unsigned_1 by blast
  have "\<not> num > int NUMBER_OF_PBITS" using assms(2) by (simp add: NUMBER_OF_PBITS_def)
  then have "get_flow_ids num s =
      Some ((True, fs), s\<lparr>flow_id_bitset := flow_id_bitset s \<union> unat ` set fs\<rparr>)"
    unfolding get_flow_ids_def using fs by simp
  then show ?thesis using fs by blast
qed

section \<open>Properties\<close>


lemma flow_ids_search_result:
  assumes "flow_ids_search num f bs fs = Some r"
  shows "distinct fs \<longrightarrow> unat ` set fs \<subseteq> bs \<longrightarrow>
    num \<le> int (length (snd r)) \<and> distinct (snd r) \<and>
    set fs \<subseteq> set (snd r) \<and> (\<forall>x\<in>set (snd r) - set fs. unat x \<notin> bs)"
proof (rule flow_ids_search.raw_induct [OF _ assms], goal_cases)
  case (1 search num f bs fs r)
  note IH = 1(1) and eq = 1(2)
  consider "\<not> int (length fs) < num" "r = (bs, fs)"
    | "unat f \<in> bs" "search num (f + 1) bs fs = Some r"
    | "unat f \<notin> bs" "search num (f + 1) (insert (unat f) bs) (fs @ [f]) = Some r"
    using eq by (auto split: if_splits)
  then show ?case
  proof cases
    case 2
    from IH [OF this(2)] show ?thesis .
  next
    case 3
    from IH [OF this(2)] show ?thesis using 3(1) by auto
  qed simp
qed

lemma get_flow_ids_few:
  assumes "num \<le> 8" and few: "card ({0..65535} - flow_id_bitset s) < nat num"
  shows "get_flow_ids num s = None"
proof -
  have "flow_ids_search num 1 (flow_id_bitset s) [] = None"
  proof (rule ccontr)
    assume "flow_ids_search num 1 (flow_id_bitset s) [] \<noteq> None"
    then obtain bs fs where "flow_ids_search num 1 (flow_id_bitset s) [] = Some (bs, fs)" by auto
    from flow_ids_search_result [OF this] have fs: "num \<le> int (length fs)" "distinct fs"
      "\<forall>x\<in>set fs. unat x \<notin> flow_id_bitset s" by simp_all
    have "unat ` set fs \<subseteq> {0..65535} - flow_id_bitset s" using fs(3) unat16_le by auto
    from card_mono [OF _ this] have "card (unat ` set fs) \<le> card ({0..65535} - flow_id_bitset s)" by simp
    moreover have "card (unat ` set fs) = length fs"
      using fs(2) by (metis card_image distinct_card inj_onI unsigned_word_eqI)
    ultimately show False using fs(1) few by linarith
  qed
  moreover have "\<not> num > int NUMBER_OF_PBITS" using assms(1) by (simp add: NUMBER_OF_PBITS_def)
  ultimately show ?thesis by (simp add: get_flow_ids_def)
qed

text \<open>
  Asking for several flow ids.  As long as enough ids from 1 on are free, the request for up to
  eight ids succeeds with that many distinct ids, none of them 0 and all free before, and marks just
  them.  With fewer free ids than asked for, the id 0 counted, the call never returns: the branch that
  would give the ids back is not reachable.
\<close>

theorem get_flow_ids_outcome:
  assumes "0 \<le> num" "num \<le> 8"
  shows "(nat num \<le> card ({1..65535} - flow_id_bitset s) \<longrightarrow>
      (\<exists>fs. get_flow_ids num s =
             Some ((True, fs), s\<lparr>flow_id_bitset := flow_id_bitset s \<union> unat ` set fs\<rparr>) \<and>
           distinct fs \<and> int (length fs) = num \<and> unat ` set fs \<subseteq> {1..65535} - flow_id_bitset s)) \<and>
    (card ({0..65535} - flow_id_bitset s) < nat num \<longrightarrow> get_flow_ids num s = None)"
  using get_flow_ids_enough get_flow_ids_few assms by blast

theorem get_flow_ids_outcome_witness:
  "\<exists>fs s'. get_flow_ids 4 init_olt = Some ((True, fs), s') \<and> distinct fs \<and> length fs = 4"
  using get_flow_ids_outcome [of 4 init_olt] by (auto simp: init_olt_sel)

lemma get_tm_sched_id_maps:
  assumes "sched_inv s" "get_tm_sched_id pon onu uni dir tp s = (i, s')"
  shows "i \<noteq> u32_of_int (-1) \<Longrightarrow> \<exists>n. sched_map s' (sched_key pon onu uni dir tp) = Some n \<and> i = u32_of_int n"
    and "sched_map s k = Some n \<Longrightarrow> sched_map s' k = Some n"
proof -
  let ?k = "sched_key pon onu uni dir tp"
  have "(i \<noteq> u32_of_int (-1) \<longrightarrow> (\<exists>n. sched_map s' ?k = Some n \<and> i = u32_of_int n)) \<and>
      (sched_map s k = Some n \<longrightarrow> sched_map s' k = Some n)"
  proof (cases "sched_map s ?k")
    case None
    then show ?thesis using assms(2)
      by (auto simp: get_tm_sched_id_cases [of pon onu uni dir tp s] u32_of_int_def
          split: option.splits prod.splits dest!: tm_sched_alloc_Some tm_sched_alloc_None)
  next
    case (Some m)
    then show ?thesis using assms(2) get_tm_sched_id_cached [OF assms(1) Some] by auto
  qed
  then show "i \<noteq> u32_of_int (-1) \<Longrightarrow> \<exists>n. sched_map s' ?k = Some n \<and> i = u32_of_int n"
    and "sched_map s k = Some n \<Longrightarrow> sched_map s' k = Some n" by blast+
qed

text \<open>
  Scheduler ids identify schedulers.  Two requests of which both get an id get the same id
  exactly when they are for the same PON, ONU, UNI, direction and technology profile.
\<close>

theorem tm_sched_ids_identify:
  assumes "sched_inv s" "get_tm_sched_id pon onu uni dir tp s = (i, s1)"
    and "get_tm_sched_id pon' onu' uni' dir' tp' s1 = (j, s2)" "i \<noteq> u32_of_int (-1)" "j \<noteq> u32_of_int (-1)"
  shows "i = j \<longleftrightarrow> sched_key pon onu uni dir tp = sched_key pon' onu' uni' dir' tp'"
proof -
  have r1: "\<exists>n. sched_map s1 (sched_key pon onu uni dir tp) = Some n \<and> i = u32_of_int n"
    using get_tm_sched_id_maps(1) [OF assms(1,2,4)] .
  have inv1: "sched_inv s1" using sched_inv_get [OF assms(1), of pon onu uni dir tp] assms(2) by simp
  have r2: "\<exists>n. sched_map s2 (sched_key pon' onu' uni' dir' tp') = Some n \<and> j = u32_of_int n"
    using get_tm_sched_id_maps(1) [OF inv1 assms(3,5)] .
  have inv2: "sched_inv s2" using sched_inv_get [OF inv1, of pon' onu' uni' dir' tp'] assms(3) by simp
  have "sched_map s1 k = Some n \<Longrightarrow> sched_map s2 k = Some n" for k n
    using get_tm_sched_id_maps(2) [OF inv1 assms(3)] by blast
  with r1 obtain n where n: "sched_map s2 (sched_key pon onu uni dir tp) = Some n" "i = u32_of_int n" by blast
  from r2 obtain m where m: "sched_map s2 (sched_key pon' onu' uni' dir' tp') = Some m" "j = u32_of_int m" by blast
  have "0 \<le> n \<and> n < 1023" "0 \<le> m \<and> m < 1023"
    using sched_inv_range [OF inv2 n(1)] sched_inv_range [OF inv2 m(1)] by (simp_all add: MAX_TM_SCHED_ID_def)
  then have "i = j \<longleftrightarrow> n = m" 
  proof -
    have "i32_of_u32 i = n" "i32_of_u32 j = m"
      using \<open>0 \<le> n \<and> n < 1023\<close> \<open>0 \<le> m \<and> m < 1023\<close> n(2) m(2) by (simp_all add: int32_def)
    then show ?thesis using n(2) m(2) by blast
  qed
  also have "\<dots> \<longleftrightarrow> sched_key pon onu uni dir tp = sched_key pon' onu' uni' dir' tp'"
    using n(1) m(1) sched_inv_inj [OF inv2 n(1), of "sched_key pon' onu' uni' dir' tp'"] by (metis option.inject)
  finally show ?thesis .
qed

theorem tm_sched_ids_identify_witness:
  "let (i, s1) = get_tm_sched_id 0 1 0 upstream 64 init_olt; (j, s2) = get_tm_sched_id 0 1 0 downstream 64 s1
   in i \<noteq> j"
proof -
  obtain i s1 where i: "get_tm_sched_id 0 1 0 upstream 64 init_olt = (i, s1)" by fastforce
  obtain j s2 where j: "get_tm_sched_id 0 1 0 downstream 64 s1 = (j, s2)" by fastforce
  have "fst (get_tm_sched_id 0 1 0 upstream 64 init_olt) = 0" by code_simp
  moreover have "fst (get_tm_sched_id 0 1 0 downstream 64 (snd (get_tm_sched_id 0 1 0 upstream 64 init_olt))) = 1"
    by code_simp
  ultimately have "i = 0" "j = 1" using i j by simp_all
  then show ?thesis
    using tm_sched_ids_identify [OF sched_inv_init i j] i j
    by (simp add: sched_key_def u32_of_int_def upstream_def downstream_def)
qed

end
