(* ===== verification/Completion.thy ===== *)
theory Completion
  imports Core_Data
begin

text \<open>
  The queries of BAL objects, the retried query and the waits for a completion indication
  (\<open>agent/src/core_utils.cc\<close>).  A wait registers its queue under the key, waits for the
  indication thread to deliver a result (the answer to \<open>Pop_wait\<close>: a result, or none before the
  time limit), and removes the entry; the interleaving with the indication thread is the step
  relation of theory \<open>Completion_Protocol\<close>.
\<close>

section \<open>Object states\<close>

abbreviation onu_obj :: "int \<Rightarrow> int \<Rightarrow> obj_key" where
  "onu_obj pon onu \<equiv> Obj ''onu'' [pon, onu]"

abbreviation gem_obj :: "int \<Rightarrow> int \<Rightarrow> obj_key" where
  "gem_obj pon gem \<equiv> Obj ''itupon_gem'' [pon, gem]"

abbreviation alloc_obj :: "int \<Rightarrow> int \<Rightarrow> obj_key" where
  "alloc_obj pon alloc \<equiv> Obj ''itupon_alloc'' [pon, alloc]"

definition get_onu_state :: "platform \<Rightarrow> int \<Rightarrow> int \<Rightarrow> olt \<Rightarrow> (bcmos_errno \<times> bcmolt_onu_state) \<times> olt" where
  "get_onu_state P pon_ni onu_id s =
     (let (rsp, s) = bal_call P (Cfg_get (onu_obj pon_ni onu_id)) s
      in ((r_err rsp, r_onu_state rsp), s))"

definition get_gpon_onu_info ::
    "platform \<Rightarrow> int \<Rightarrow> int \<Rightarrow> olt \<Rightarrow>
     (bcmos_errno \<times> bcmolt_onu_state \<times> bcmolt_status \<times> bcmolt_status \<times> bcmolt_status) \<times> olt" where
  "get_gpon_onu_info P pon_ni onu_id s =
     (let (rsp, s) = bal_call P (Cfg_get (onu_obj pon_ni onu_id)) s
      in ((r_err rsp, r_onu_state rsp, r_status rsp ''losi'', r_status rsp ''lofi'',
           r_status rsp ''loami''), s))"

definition get_gem_obj_state ::
    "platform \<Rightarrow> int \<Rightarrow> int \<Rightarrow> olt \<Rightarrow> (bcmos_errno \<times> bcmolt_activation_state) \<times> olt" where
  "get_gem_obj_state P pon_ni gem s =
     (let (rsp, s) = bal_call P (Cfg_get (gem_obj pon_ni gem)) s
      in ((r_err rsp, r_act_state rsp), s))"

definition get_alloc_obj_state ::
    "platform \<Rightarrow> int \<Rightarrow> int \<Rightarrow> olt \<Rightarrow> (bcmos_errno \<times> bcmolt_activation_state) \<times> olt" where
  "get_alloc_obj_state P pon_ni alloc s =
     (let (rsp, s) = bal_call P (Cfg_get (alloc_obj pon_ni alloc)) s
      in ((r_err rsp, r_act_state rsp), s))"

definition get_pon_interface_status ::
    "platform \<Rightarrow> int \<Rightarrow> olt \<Rightarrow> (bcmos_errno \<times> bcmolt_interface_state \<times> bcmolt_status) \<times> olt" where
  "get_pon_interface_status P pon_ni s =
     (let (rsp, s) = bal_call P (Cfg_get (Obj ''pon_interface'' [pon_ni])) s
      in ((r_err rsp, r_if_state rsp, r_status rsp ''los_status''), s))"

definition get_nni_interface_status ::
    "platform \<Rightarrow> int \<Rightarrow> olt \<Rightarrow> (bcmos_errno \<times> bcmolt_interface_state) \<times> olt" where
  "get_nni_interface_status P nni s =
     (let (rsp, s) = bal_call P (Cfg_get (Obj ''nni_interface'' [nni])) s
      in ((r_err rsp, r_if_state rsp), s))"

definition get_nni_interface_speed :: "platform \<Rightarrow> int \<Rightarrow> olt \<Rightarrow> (bcmos_errno \<times> uint32) \<times> olt" where
  "get_nni_interface_speed P nni s =
     (let (rsp, s) = bal_call P (Cfg_get (Obj ''nni_interface'' [nni])) s
      in ((r_err rsp, word_of_int (r_num rsp ''speed'')), s))"

section \<open>The retried query\<close>

text \<open>\<open>cfg_get_tries n\<close> is the loop with \<open>n\<close> tries left; the caller enters it with at least one.\<close>

fun cfg_get_tries :: "platform \<Rightarrow> obj_key \<Rightarrow> nat \<Rightarrow> olt \<Rightarrow> bal_rsp \<times> olt" where
  "cfg_get_tries P k 0 s = bal_call P (Cfg_get k) s"
| "cfg_get_tries P k (Suc n) s =
     (let (rsp, s) = bal_call P (Cfg_get k) s
      in if r_err rsp = BCM_ERR_STATE \<or> r_err rsp = BCM_ERR_TIMEOUT
         then cfg_get_tries P k n s else (rsp, s))"

definition bcmolt_cfg_get_mult_retry :: "platform \<Rightarrow> obj_key \<Rightarrow> olt \<Rightarrow> bal_rsp \<times> olt" where
  "bcmolt_cfg_get_mult_retry P k s = cfg_get_tries P k (MAX_BAL_API_RETRY_COUNT - 1) s"

text \<open>How many messages a call sent.\<close>

definition sent :: "olt \<Rightarrow> olt \<Rightarrow> bal_req list" where
  "sent s s' = take (length (bal_trace s') - length (bal_trace s)) (bal_trace s')"

lemma cfg_get_tries_bound:
  "\<exists>n\<le>m. snd (cfg_get_tries P k m s) = s\<lparr>bal_trace := replicate (Suc n) (Cfg_get k) @ bal_trace s\<rparr>"
proof (induction m arbitrary: s)
  case 0
  then show ?case by (simp add: bal_call_def)
next
  case (Suc m)
  let ?t = "s\<lparr>bal_trace := Cfg_get k # bal_trace s\<rparr>"
  obtain n where n: "n \<le> m"
    "snd (cfg_get_tries P k m ?t) = ?t\<lparr>bal_trace := replicate (Suc n) (Cfg_get k) @ bal_trace ?t\<rparr>"
    using Suc.IH by blast
  have "replicate (Suc n) (Cfg_get k) @ Cfg_get k # bal_trace s
      = replicate (Suc (Suc n)) (Cfg_get k) @ bal_trace s"
    by (simp add: replicate_app_Cons_same)
  then show ?case using n
    by (cases "r_err (bal_respond P (bal_trace s) (Cfg_get k)) \<in> {BCM_ERR_STATE, BCM_ERR_TIMEOUT}")
      (auto simp: bal_call_def intro: exI [of _ "Suc n"] exI [of _ 0])
qed

lemma cfg_get_tries_err:
  "r_err (fst (cfg_get_tries P k m s)) \<in> {BCM_ERR_STATE, BCM_ERR_TIMEOUT} \<Longrightarrow>
     snd (cfg_get_tries P k m s) = s\<lparr>bal_trace := replicate (Suc m) (Cfg_get k) @ bal_trace s\<rparr>"
  by (induction m arbitrary: s) (auto simp: bal_call_def replicate_app_Cons_same Let_def split: if_splits)

section \<open>Waiting for a completion\<close>

text \<open>The verdict on a delivered result, for the three actions.\<close>

definition cfg_action_err :: "cfg_action \<Rightarrow> bcmos_errno \<Rightarrow> obj_state \<Rightarrow> bcmos_errno" where
  "cfg_action_err action err st =
     (if err \<noteq> BCM_ERR_OK then err
      else if action = OBJECT_CREATE \<or> action = OBJECT_ENCRYPT then
        (if st \<noteq> OBJECT_STATE_ACTIVE then BCM_ERR_INTERNAL else BCM_ERR_OK)
      else (if st \<noteq> OBJECT_STATE_NOT_CONFIGURED then BCM_ERR_INTERNAL else BCM_ERR_OK))"

definition action_reached :: "cfg_action \<Rightarrow> bcmolt_activation_state \<Rightarrow> bool" where
  "action_reached action st \<longleftrightarrow>
     (st = BCMOLT_ACTIVATION_STATE_NOT_CONFIGURED \<and> action = OBJECT_DELETE) \<or>
     (st = BCMOLT_ACTIVATION_STATE_ACTIVE \<and> action = OBJECT_CREATE)"

definition wait_for_alloc_action ::
    "platform \<Rightarrow> uint32 \<Rightarrow> uint32 \<Rightarrow> cfg_action \<Rightarrow> olt \<Rightarrow> bcmos_errno \<times> olt" where
  "wait_for_alloc_action P intf_id alloc_id action s =
     (let k = (intf_id, alloc_id);
          s = s\<lparr>alloc_cfg_compltd_map := (alloc_cfg_compltd_map s)(k \<mapsto> True)\<rparr>;
          (rsp, s) = bal_call P (Pop_wait (alloc_obj (uint intf_id) (uint alloc_id))) s;
          erase = (\<lambda>s. s\<lparr>alloc_cfg_compltd_map := (alloc_cfg_compltd_map s)(k := None)\<rparr>)
      in case r_cfg_result rsp of
           None \<Rightarrow>
             let s = s\<lparr>alloc_cfg_compltd_map := (alloc_cfg_compltd_map s)(k \<mapsto> False)\<rparr>;
                 ((err, st), s) = get_alloc_obj_state P (uint intf_id) (uint alloc_id) s
             in if err \<noteq> BCM_ERR_OK then (err, s)
                else if action_reached action st then (BCM_ERR_OK, s)
                else (cfg_action_err action err OBJECT_STATE_NOT_CONFIGURED, erase s)
         | Some res \<Rightarrow>
             let err = (if res_status res = CFG_STATUS_FAIL then BCM_ERR_INTERNAL else BCM_ERR_OK)
             in (cfg_action_err action err (res_state res), erase s))"

definition wait_for_gem_action ::
    "platform \<Rightarrow> uint32 \<Rightarrow> uint32 \<Rightarrow> cfg_action \<Rightarrow> olt \<Rightarrow> bcmos_errno \<times> olt" where
  "wait_for_gem_action P intf_id gem_port_id action s =
     (let k = (intf_id, gem_port_id);
          s = s\<lparr>gem_cfg_compltd_map := (gem_cfg_compltd_map s)(k \<mapsto> True)\<rparr>;
          (rsp, s) = bal_call P (Pop_wait (gem_obj (uint intf_id) (uint gem_port_id))) s;
          erase = (\<lambda>s. s\<lparr>gem_cfg_compltd_map := (gem_cfg_compltd_map s)(k := None)\<rparr>)
      in case r_cfg_result rsp of
           None \<Rightarrow>
             let s = s\<lparr>gem_cfg_compltd_map := (gem_cfg_compltd_map s)(k \<mapsto> False)\<rparr>;
                 ((err, st), s) = get_gem_obj_state P (uint intf_id) (uint gem_port_id) s
             in if err \<noteq> BCM_ERR_OK then (err, s)
                else if action_reached action st then (BCM_ERR_OK, s)
                else (cfg_action_err action err OBJECT_STATE_NOT_CONFIGURED, erase s)
         | Some res \<Rightarrow>
             let err = (if res_status res = CFG_STATUS_FAIL then BCM_ERR_INTERNAL else BCM_ERR_OK)
             in (cfg_action_err action err (res_state res), erase s))"

definition wait_for_onu_deactivate_complete ::
    "platform \<Rightarrow> uint32 \<Rightarrow> uint32 \<Rightarrow> olt \<Rightarrow> bcmos_errno \<times> olt" where
  "wait_for_onu_deactivate_complete P intf_id onu_id s =
     (let k = (intf_id, onu_id);
          s = s\<lparr>onu_deact_compltd_map := (onu_deact_compltd_map s)(k \<mapsto> True)\<rparr>;
          (rsp, s) = bal_call P (Pop_wait (onu_obj (uint intf_id) (uint onu_id))) s;
          (err, s) =
            (case r_deact_result rsp of
               None \<Rightarrow> (BCM_ERR_INTERNAL,
                        s\<lparr>onu_deact_compltd_map := (onu_deact_compltd_map s)(k \<mapsto> False)\<rparr>)
             | Some res \<Rightarrow> (if res = BCMOLT_RESULT_FAIL then BCM_ERR_INTERNAL else BCM_ERR_OK, s))
      in (err, s\<lparr>onu_deact_compltd_map := (onu_deact_compltd_map s)(k := None)\<rparr>))"

definition pushOltOperInd :: "uint32 \<Rightarrow> string \<Rightarrow> string \<Rightarrow> uint32 \<Rightarrow> olt \<Rightarrow> status \<times> olt" where
  "pushOltOperInd intf_id type st speed s =
     (Status_OK, push_ind (Intf_oper_ind type intf_id st speed) s)"

end
