(* ===== verification/Gem_Port.thy ===== *)
theory Gem_Port
  imports Completion
begin

text \<open>
  Installing, removing and encrypting the GEM ports (\<open>agent/src/core_utils.cc\<close>), with the cache
  \<open>gemport_status_map\<close> of the ports that are installed.
\<close>

definition gem_status_key :: "int \<Rightarrow> int \<Rightarrow> int \<Rightarrow> int \<Rightarrow> gemport_status_map_key" where
  "gem_status_key intf onu uni gem = (u32_of_int intf, u32_of_int onu, u32_of_int uni, u32_of_int gem)"

definition gem_cfg_fields :: "int \<Rightarrow> fields" where
  "gem_cfg_fields onu_id =
     [(''configuration'', Flds [(''direction'', Sym ''BCMOLT_GEM_PORT_DIRECTION_BIDIRECTIONAL''),
                                (''type'', Sym ''BCMOLT_GEM_PORT_TYPE_UNICAST'')]),
      (''onu_id'', Num onu_id),
      (''encryption_mode'', Sym ''BCMOLT_CONTROL_STATE_DISABLE''),
      (''upstream_destination_queue'', Sym ''BCMOLT_US_GEM_PORT_DESTINATION_DATA''),
      (''control'', Sym ''BCMOLT_CONTROL_STATE_ENABLE'')]"

text \<open>Only a GPON board asks for the ONU state, to know whether an indication will come.\<close>

definition gem_wait_needed ::
    "platform \<Rightarrow> int \<Rightarrow> int \<Rightarrow> string \<Rightarrow> olt \<Rightarrow> (bcmos_errno \<times> bool) \<times> olt" where
  "gem_wait_needed P intf_id onu_id board_tech s =
     (if board_tech = ''GPON'' then
        (let ((err, onu_state), s) = get_onu_state P intf_id onu_id s
         in ((err, onu_state = BCMOLT_ONU_STATE_ACTIVE), s))
      else ((BCM_ERR_OK, False), s))"

definition install_gem_port ::
    "platform \<Rightarrow> int \<Rightarrow> int \<Rightarrow> int \<Rightarrow> int \<Rightarrow> string \<Rightarrow> olt \<Rightarrow> status \<times> olt" where
  "install_gem_port P intf_id onu_id uni_id gemport_id board_tech s =
     (let key = gem_status_key intf_id onu_id uni_id gemport_id
      in if gemport_status_map s key = Some True then (Status_OK, s)
         else
           let ((err, wait), s) = gem_wait_needed P intf_id onu_id board_tech s
           in if err \<noteq> BCM_ERR_OK then (bcm_to_grpc_err P err ''failed to get onu status'', s)
              else
                let (err, s) = bal_err P (Cfg_set (gem_obj intf_id gemport_id) (gem_cfg_fields onu_id)) s
                in if err \<noteq> BCM_ERR_OK
                   then (bcm_to_grpc_err P err ''Access_Control set ITU PON Gem port failed'', s)
                   else
                     let (err, s) =
                       (if wait then wait_for_gem_action P (u32_of_int intf_id) (u32_of_int gemport_id)
                                       OBJECT_CREATE s
                        else (BCM_ERR_OK, s))
                     in if err \<noteq> BCM_ERR_OK
                        then (bcm_to_grpc_err P err ''Access_Control set ITU PON Gem port failed'', s)
                        else (Status_OK, s\<lparr>gemport_status_map := (gemport_status_map s)(key \<mapsto> True)\<rparr>))"

definition remove_gem_port ::
    "platform \<Rightarrow> int \<Rightarrow> int \<Rightarrow> int \<Rightarrow> int \<Rightarrow> string \<Rightarrow> olt \<Rightarrow> status \<times> olt" where
  "remove_gem_port P intf_id onu_id uni_id gemport_id board_tech s =
     (let key = gem_status_key intf_id onu_id uni_id gemport_id
      in if gemport_status_map s key = None then (Status_OK, s)
         else
           let ((err, wait), s) = gem_wait_needed P intf_id onu_id board_tech s
           in if err \<noteq> BCM_ERR_OK then (bcm_to_grpc_err P err ''failed to get onu status'', s)
              else
                let (err, s) = bal_err P (Cfg_clear (gem_obj intf_id gemport_id)) s
                in if err \<noteq> BCM_ERR_OK
                   then (bcm_to_grpc_err P err ''Access_Control clear ITU PON Gem port failed'', s)
                   else
                     let (err, s) =
                       (if wait then wait_for_gem_action P (u32_of_int intf_id) (u32_of_int gemport_id)
                                       OBJECT_DELETE s
                        else (BCM_ERR_OK, s))
                     in if err \<noteq> BCM_ERR_OK then (bcm_to_grpc_err P err ''failed to remove gem'', s)
                        else (Status_OK, s\<lparr>gemport_status_map := (gemport_status_map s)(key := None)\<rparr>))"

definition enable_encryption_for_gem_port ::
    "platform \<Rightarrow> int \<Rightarrow> int \<Rightarrow> string \<Rightarrow> olt \<Rightarrow> status \<times> olt" where
  "enable_encryption_for_gem_port P intf_id gemport_id board_tech s =
     (let (rsp, s) = bal_call P (Cfg_get (gem_obj intf_id gemport_id)) s
      in if r_err rsp \<noteq> BCM_ERR_OK
         then (bcm_to_grpc_err P (r_err rsp) ''GEM port get encryption_mode failed'', s)
         else if r_sym rsp ''encryption_mode'' = ''BCMOLT_CONTROL_STATE_ENABLE'' then (Status_OK, s)
         else
           let (err, s) = bal_err P (Cfg_set (gem_obj intf_id gemport_id)
                            [(''encryption_mode'', Sym ''BCMOLT_CONTROL_STATE_ENABLE'')]) s
           in if err \<noteq> BCM_ERR_OK
              then (bcm_to_grpc_err P err ''Failed to set encryption on GEM port'', s)
              else if board_tech = ''GPON'' then
                let (err, s) = wait_for_gem_action P (u32_of_int intf_id) (u32_of_int gemport_id)
                                 OBJECT_ENCRYPT s
                in if err \<noteq> BCM_ERR_OK
                   then (bcm_to_grpc_err P err ''Access_Control ITU PON Gem port encryption failed'', s)
                   else (Status_OK, s)
              else (Status_OK, s))"

section \<open>What the operations leave alone\<close>

text \<open>The part of the state the GEM and alloc handlers of the agent never touch.\<close>

definition agent_part :: "olt \<Rightarrow> olt" where
  "agent_part s = s\<lparr>bal_trace := [], gemport_status_map := Map.empty,
     alloc_cfg_compltd_map := Map.empty, gem_cfg_compltd_map := Map.empty,
     onu_deact_compltd_map := Map.empty, onu_rssi_compltd_map := Map.empty\<rparr>"

lemma agent_part_updates [simp]:
  "agent_part (s\<lparr>bal_trace := t\<rparr>) = agent_part s"
  "agent_part (s\<lparr>gemport_status_map := g\<rparr>) = agent_part s"
  "agent_part (s\<lparr>alloc_cfg_compltd_map := c\<rparr>) = agent_part s"
  "agent_part (s\<lparr>gem_cfg_compltd_map := c\<rparr>) = agent_part s"
  "agent_part (s\<lparr>onu_deact_compltd_map := c\<rparr>) = agent_part s"
  by (simp_all add: agent_part_def)

text \<open>A record field read through \<open>agent_part\<close>.\<close>

lemma agent_part_sel:
  "activated (agent_part s) = activated s"
  "connected_to_voltha (agent_part s) = connected_to_voltha s"
  "oltIndQ (agent_part s) = oltIndQ s"
  "sched_map (agent_part s) = sched_map s"
  "tm_sched_bitset (agent_part s) = tm_sched_bitset s"
  "qos_type_map (agent_part s) = qos_type_map s"
  "sched_qmp_id_map (agent_part s) = sched_qmp_id_map s"
  "qmp_id_to_qmp_map (agent_part s) = qmp_id_to_qmp_map s"
  "tm_qmp_bitset (agent_part s) = tm_qmp_bitset s"
  "pon_gem_to_onu_uni_map (agent_part s) = pon_gem_to_onu_uni_map s"
  "acl_id_bitset (agent_part s) = acl_id_bitset s"
  "flow_id_bitset (agent_part s) = flow_id_bitset s"
  "board_technology (agent_part s) = board_technology s"
  "intf_technologies (agent_part s) = intf_technologies s"
  "voltha_flow_to_device_flow (agent_part s) = voltha_flow_to_device_flow s"
  "symmetric_datapath_flow_id_map (agent_part s) = symmetric_datapath_flow_id_map s"
  "flow_map (agent_part s) = flow_map s"
  "flow_id_counters (agent_part s) = flow_id_counters s"
  "flow_to_acl_map (agent_part s) = flow_to_acl_map s"
  "acl_ref_cnt (agent_part s) = acl_ref_cnt s"
  "acl_classifier_to_acl_id_map (agent_part s) = acl_classifier_to_acl_id_map s"
  "num_of_pon_ports (agent_part s) = num_of_pon_ports s"
  "num_of_nni_ports (agent_part s) = num_of_nni_ports s"
  by (simp_all add: agent_part_def)

lemma agent_partD:
  assumes "agent_part s' = agent_part s"
  shows "activated s' = activated s"
    "connected_to_voltha s' = connected_to_voltha s"
    "oltIndQ s' = oltIndQ s"
    "sched_map s' = sched_map s"
    "tm_sched_bitset s' = tm_sched_bitset s"
    "qos_type_map s' = qos_type_map s"
    "sched_qmp_id_map s' = sched_qmp_id_map s"
    "qmp_id_to_qmp_map s' = qmp_id_to_qmp_map s"
    "tm_qmp_bitset s' = tm_qmp_bitset s"
    "pon_gem_to_onu_uni_map s' = pon_gem_to_onu_uni_map s"
    "acl_id_bitset s' = acl_id_bitset s"
    "flow_id_bitset s' = flow_id_bitset s"
    "board_technology s' = board_technology s"
    "intf_technologies s' = intf_technologies s"
    "voltha_flow_to_device_flow s' = voltha_flow_to_device_flow s"
    "symmetric_datapath_flow_id_map s' = symmetric_datapath_flow_id_map s"
    "flow_map s' = flow_map s"
    "flow_id_counters s' = flow_id_counters s"
    "flow_to_acl_map s' = flow_to_acl_map s"
    "acl_ref_cnt s' = acl_ref_cnt s"
    "acl_classifier_to_acl_id_map s' = acl_classifier_to_acl_id_map s"
    "num_of_pon_ports s' = num_of_pon_ports s"
    "num_of_nni_ports s' = num_of_nni_ports s"
  using assms by (metis agent_part_sel)+

lemma agent_part_bal_call [simp]: "agent_part (snd (bal_call P req s)) = agent_part s"
  by (simp add: bal_call_def)

lemma agent_part_bal_err [simp]: "agent_part (snd (bal_err P req s)) = agent_part s"
  by (simp add: bal_err_def bal_call_def)

lemma agent_part_get_onu_state [simp]: "agent_part (snd (get_onu_state P i n s)) = agent_part s"
  by (simp add: get_onu_state_def bal_call_def)

lemma agent_part_wait_gem [simp]: "agent_part (snd (wait_for_gem_action P i g a s)) = agent_part s"
  by (simp add: wait_for_gem_action_def get_gem_obj_state_def bal_call_def Let_def split: option.split)

lemma agent_part_wait_alloc [simp]: "agent_part (snd (wait_for_alloc_action P i g a s)) = agent_part s"
  by (simp add: wait_for_alloc_action_def get_alloc_obj_state_def bal_call_def Let_def split: option.split)

lemma gem_wait_needed_frame:
  "gem_wait_needed P i n b s = (r, s') \<Longrightarrow>
     agent_part s' = agent_part s \<and> gemport_status_map s' = gemport_status_map s"
  by (auto simp: gem_wait_needed_def get_onu_state_def bal_call_def split: if_splits)

lemma wait_gem_status_map [simp]:
  "gemport_status_map (snd (wait_for_gem_action P i g a s)) = gemport_status_map s"
  by (simp add: wait_for_gem_action_def get_gem_obj_state_def bal_call_def Let_def split: option.split)

lemma bal_err_frame:
  "bal_err P req s = (e, s') \<Longrightarrow> agent_part s' = agent_part s \<and> gemport_status_map s' = gemport_status_map s"
  by (auto simp: bal_err_def bal_call_def)

lemma wait_gem_frame:
  "wait_for_gem_action P i g a s = (e, s') \<Longrightarrow>
     agent_part s' = agent_part s \<and> gemport_status_map s' = gemport_status_map s"
  by (metis agent_part_wait_gem snd_conv wait_gem_status_map)

lemmas gem_frames = gem_wait_needed_frame bal_err_frame wait_gem_frame

text \<open>Installing marks the port, removing unmarks it, and a failure leaves the cache alone.\<close>

lemma install_gem_port_cases:
  assumes "install_gem_port P intf onu uni gem b s = (st, s')"
  defines "key \<equiv> gem_status_key intf onu uni gem"
  shows "agent_part s' = agent_part s \<and>
    (if ok st then gemport_status_map s' = (gemport_status_map s)(key \<mapsto> True)
     else gemport_status_map s' = gemport_status_map s)"
proof -
  have same: "(gemport_status_map s)(key \<mapsto> True) = gemport_status_map s"
    if "gemport_status_map s key = Some True" using that by (rule map_upd_triv)
  show ?thesis
    using assms(1) same
    by (auto simp: install_gem_port_def key_def [symmetric] Let_def split: prod.splits if_splits
        dest!: gem_frames)
qed

lemma remove_gem_port_cases:
  assumes "remove_gem_port P intf onu uni gem b s = (st, s')"
  defines "key \<equiv> gem_status_key intf onu uni gem"
  shows "agent_part s' = agent_part s \<and>
    (if ok st then gemport_status_map s' = (gemport_status_map s)(key := None)
     else gemport_status_map s' = gemport_status_map s)"
proof -
  have same: "(gemport_status_map s)(key := None) = gemport_status_map s"
    if "gemport_status_map s key = None" using that by (simp add: fun_upd_idem)
  show ?thesis
    using assms(1) same
    by (auto simp: remove_gem_port_def key_def [symmetric] Let_def split: prod.splits if_splits
        dest!: gem_frames)
qed

lemma enable_encryption_frame:
  "enable_encryption_for_gem_port P i g b s = (st, s') \<Longrightarrow>
     agent_part s' = agent_part s \<and> gemport_status_map s' = gemport_status_map s"
  by (auto simp: enable_encryption_for_gem_port_def bal_call_def Let_def split: prod.splits if_splits
      dest!: gem_frames)

end
