(* ===== verification/Scheduler.thy ===== *)
theory Scheduler
  imports Id_Pool Gem_Port
begin

text \<open>
  The schedulers (\<open>agent/src/core_api_handler.cc\<close>): the default scheduler of an interface, the
  subscriber scheduler of the downstream direction and the bandwidth allocation (alloc) object of
  the upstream direction, with their creation from a technology profile and their removal.

  \<open>int\<close> bandwidths are \<open>uint32_t\<close> products converted to a 32-bit signed integer; \<open>c_mod\<close> is the
  remainder of C++, which truncates towards zero.
\<close>

section \<open>The technology profile\<close>

datatype tp_direction = TP_UPSTREAM | TP_DOWNSTREAM | TP_DIRECTION_OTHER int

datatype additional_bw = AdditionalBW_None | AdditionalBW_NA | AdditionalBW_BestEffort | AdditionalBW_OTHER int

record traffic_shaping_info =
  cir :: uint32
  cbs :: uint32
  pir :: uint32
  pbs :: uint32
  gir :: uint32

record traffic_scheduler =
  ts_direction :: tp_direction
  ts_alloc_id :: uint32
  ts_additional_bw :: additional_bw
  ts_priority :: uint32
  ts_weight :: uint32
  ts_shaping :: traffic_shaping_info
  ts_tech_profile_id :: uint32

record traffic_schedulers =
  tss_intf_id :: uint32
  tss_onu_id :: uint32
  tss_uni_id :: uint32
  tss_port_no :: uint32
  tss_scheds :: "traffic_scheduler list"

fun GetDirection :: "tp_direction \<Rightarrow> string" where
  "GetDirection TP_UPSTREAM = upstream"
| "GetDirection TP_DOWNSTREAM = downstream"
| "GetDirection (TP_DIRECTION_OTHER _) = ''direction-not-supported''"

lemma direction_not_supported [simp]:
  "upstream \<noteq> ''direction-not-supported''" "downstream \<noteq> ''direction-not-supported''"
  by (simp_all add: upstream_def downstream_def)

section \<open>The default scheduler\<close>

abbreviation tm_sched_obj :: "int \<Rightarrow> obj_key" where
  "tm_sched_obj i \<equiv> Obj ''tm_sched'' [i]"

definition default_sched_fields :: "uint32 \<Rightarrow> string \<Rightarrow> fields" where
  "default_sched_fields intf_id direction =
     [(''attachment_point.type'', Sym ''BCMOLT_TM_SCHED_OUTPUT_TYPE_INTERFACE'')] @
     (if direction = upstream
      then [(''attachment_point.u.interface.interface_ref.intf_type'', Sym ''BCMOLT_INTERFACE_TYPE_NNI'')]
      else if direction = downstream
      then [(''attachment_point.u.interface.interface_ref.intf_type'', Sym ''BCMOLT_INTERFACE_TYPE_PON'')]
      else []) @
     [(''attachment_point.u.interface.interface_ref.intf_id'', Num (uint intf_id)),
      (''sched_type'', Sym ''BCMOLT_TM_SCHED_TYPE_SP''),
      (''num_priorities'', Num (int NUM_OF_PRIORITIES))]"

definition CreateDefaultSched :: "platform \<Rightarrow> uint32 \<Rightarrow> string \<Rightarrow> olt \<Rightarrow> bcmos_errno \<times> olt" where
  "CreateDefaultSched P intf_id direction s =
     (let key = tm_sched_obj (get_default_tm_sched_id P (sint intf_id) direction);
          (rsp, s) = bal_call P (Cfg_get key) s
      in if r_err rsp \<noteq> BCM_ERR_OK then (r_err rsp, s)
         else if r_config_state rsp = BCMOLT_CONFIG_STATE_CONFIGURED then (BCM_ERR_OK, s)
         else bal_err P (Cfg_set key (default_sched_fields intf_id direction)) s)"

section \<open>The upstream bandwidth allocation\<close>

definition c_mod :: "int \<Rightarrow> int \<Rightarrow> int" where
  "c_mod a b = (if a < 0 then - ((- a) mod b) else a mod b)"

definition kbps_to_bps :: "uint32 \<Rightarrow> int" where
  "kbps_to_bps rate = i32_of_u32 (rate * 125)"

definition bw_granularity :: "string \<Rightarrow> int" where
  "bw_granularity tech =
     uint (if tech = ''XGS-PON'' then XGS_BANDWIDTH_GRANULARITY else GPON_BANDWIDTH_GRANULARITY)"

definition round_bw :: "int \<Rightarrow> int \<Rightarrow> int" where
  "round_bw g bw = bw - c_mod bw g"

text \<open>The three bandwidths of the SLA: maximum, fixed and guaranteed.\<close>

definition sla_bandwidths :: "int \<Rightarrow> traffic_shaping_info \<Rightarrow> int \<times> int \<times> int" where
  "sla_bandwidths g info =
     (let pir_bw = kbps_to_bps (pir info);
          cir_bw = kbps_to_bps (cir info);
          gir_bw = kbps_to_bps (gir info);
          guaranteed_bw = i32_of_u32 (u32_of_int (cir_bw + gir_bw))
      in (round_bw g pir_bw, round_bw g gir_bw, round_bw g guaranteed_bw))"

text \<open>The eligibility for additional bandwidth, or the refusal of the bandwidths.\<close>

definition sla_eligibility :: "additional_bw \<Rightarrow> int \<Rightarrow> int \<Rightarrow> string option" where
  "sla_eligibility abw pir_bw guaranteed_bw =
     (if pir_bw = 0 then None
      else if pir_bw < guaranteed_bw then None
      else case abw of
             AdditionalBW_BestEffort \<Rightarrow>
               if pir_bw = guaranteed_bw then None
               else Some ''BCMOLT_ADDITIONAL_BW_ELIGIBILITY_BEST_EFFORT''
           | AdditionalBW_NA \<Rightarrow>
               if guaranteed_bw = 0 then None
               else if pir_bw = guaranteed_bw then None
               else Some ''BCMOLT_ADDITIONAL_BW_ELIGIBILITY_NON_ASSURED''
           | AdditionalBW_None \<Rightarrow>
               if guaranteed_bw \<noteq> pir_bw then None
               else Some ''BCMOLT_ADDITIONAL_BW_ELIGIBILITY_NONE''
           | AdditionalBW_OTHER _ \<Rightarrow> None)"

definition sla_fields :: "string \<Rightarrow> int \<Rightarrow> int \<Rightarrow> int \<Rightarrow> uint32 \<Rightarrow> fields" where
  "sla_fields elig pir_bw gir_bw guaranteed_bw onu_id =
     [(''sla.additional_bw_eligibility'', Sym elig), (''sla.cbr_rt_bw'', Num 0),
      (''sla.cbr_nrt_bw'', Num gir_bw), (''sla.guaranteed_bw'', Num guaranteed_bw),
      (''sla.maximum_bw'', Num pir_bw),
      (''sla.alloc_type'', Sym (if pir_bw = gir_bw then ''BCMOLT_ALLOC_TYPE_NONE'' else ''BCMOLT_ALLOC_TYPE_NSR'')),
      (''sla.cbr_rt_compensation'', Num 0), (''sla.cbr_nrt_ap_index'', Num 0),
      (''sla.cbr_rt_ap_index'', Num 0), (''sla.weight'', Num 0), (''sla.priority'', Num 0),
      (''onu_id'', Num (uint onu_id))]"

definition CreateSched_upstream ::
    "platform \<Rightarrow> uint32 \<Rightarrow> uint32 \<Rightarrow> uint32 \<Rightarrow> additional_bw \<Rightarrow> traffic_shaping_info \<Rightarrow> olt \<Rightarrow>
     bcmos_errno \<times> olt" where
  "CreateSched_upstream P intf_id onu_id alloc_id abw info s =
     (let (pir_bw, gir_bw, guaranteed_bw) =
            sla_bandwidths (bw_granularity (intf_technologies s (unat intf_id))) info
      in case sla_eligibility abw pir_bw guaranteed_bw of
           None \<Rightarrow> (BCM_ERR_PARM, s)
         | Some elig \<Rightarrow>
             let ((err, onu_state), s) = get_onu_state P (uint intf_id) (uint onu_id) s
             in if err \<noteq> BCM_ERR_OK then (err, s)
                else
                  let (err, s) = bal_err P (Cfg_set (alloc_obj (uint intf_id) (uint alloc_id))
                                   (sla_fields elig pir_bw gir_bw guaranteed_bw onu_id)) s
                  in if err \<noteq> BCM_ERR_OK then (err, s)
                     else if onu_state = BCMOLT_ONU_STATE_ACTIVE
                     then wait_for_alloc_action P intf_id alloc_id OBJECT_CREATE s
                     else (BCM_ERR_OK, s))"

section \<open>The downstream subscriber scheduler\<close>

definition shaping_fields :: "traffic_shaping_info \<Rightarrow> fields" where
  "shaping_fields info =
     (if cir info \<ge> 0 \<and> pir info > 0
      then [(''rate.pir'', Num (uint (pir info))), (''rate.burst'', Num (uint (pbs info)))]
      else [])"

definition CreateSched_downstream ::
    "platform \<Rightarrow> string \<Rightarrow> uint32 \<Rightarrow> uint32 \<Rightarrow> uint32 \<Rightarrow> uint32 \<Rightarrow> traffic_shaping_info \<Rightarrow> uint32 \<Rightarrow>
     olt \<Rightarrow> bcmos_errno \<times> olt" where
  "CreateSched_downstream P direction intf_id onu_id uni_id priority info tp s =
     (let (sched_id, s) = get_tm_sched_id (uint intf_id) (uint onu_id) (uint uni_id) direction (uint tp) s
      in bal_err P (Cfg_set (tm_sched_obj (uint sched_id))
           ([(''attachment_point.type'', Sym ''BCMOLT_TM_SCHED_OUTPUT_TYPE_TM_SCHED''),
             (''attachment_point.u.tm_sched.tm_sched_id'',
                Num (get_default_tm_sched_id P (sint intf_id) direction)),
             (''attachment_point.u.tm_sched.tm_sched_param.type'',
                Sym ''BCMOLT_TM_SCHED_PARAM_TYPE_PRIORITY''),
             (''attachment_point.u.tm_sched.tm_sched_param.u.priority.priority'', Num (uint priority)),
             (''sched_type'', Sym ''BCMOLT_TM_SCHED_TYPE_SP''),
             (''num_priorities'', Num 8)] @ shaping_fields info)) s)"

definition CreateSched ::
    "platform \<Rightarrow> string \<Rightarrow> uint32 \<Rightarrow> uint32 \<Rightarrow> uint32 \<Rightarrow> traffic_scheduler \<Rightarrow> olt \<Rightarrow> bcmos_errno \<times> olt" where
  "CreateSched P direction intf_id onu_id uni_id ts s =
     (if direction = downstream
      then CreateSched_downstream P direction intf_id onu_id uni_id (ts_priority ts) (ts_shaping ts)
             (ts_tech_profile_id ts) s
      else CreateSched_upstream P intf_id onu_id (ts_alloc_id ts) (ts_additional_bw ts)
             (ts_shaping ts) s)"

fun create_scheds ::
    "platform \<Rightarrow> uint32 \<Rightarrow> uint32 \<Rightarrow> uint32 \<Rightarrow> traffic_scheduler list \<Rightarrow> olt \<Rightarrow> status \<times> olt" where
  "create_scheds P intf onu uni [] s = (Status_OK, s)"
| "create_scheds P intf onu uni (ts # tss) s =
     (let direction = GetDirection (ts_direction ts)
      in if direction = ''direction-not-supported''
         then (bcm_to_grpc_err P BCM_ERR_PARM ''direction-not-supported'', s)
         else
           let (err, s) = CreateSched P direction intf onu uni ts s
           in if err \<noteq> BCM_ERR_OK then (bcm_to_grpc_err P err ''Failed to create scheduler'', s)
              else create_scheds P intf onu uni tss s)"

definition CreateTrafficSchedulers :: "platform \<Rightarrow> traffic_schedulers \<Rightarrow> olt \<Rightarrow> status \<times> olt" where
  "CreateTrafficSchedulers P req s =
     create_scheds P (tss_intf_id req) (tss_onu_id req) (tss_uni_id req) (tss_scheds req) s"

section \<open>Removing schedulers\<close>

definition RemoveSched ::
    "platform \<Rightarrow> int \<Rightarrow> int \<Rightarrow> int \<Rightarrow> int \<Rightarrow> string \<Rightarrow> int \<Rightarrow> olt \<Rightarrow> bcmos_errno \<times> olt" where
  "RemoveSched P intf_id onu_id uni_id alloc_id direction tp s =
     (if direction = upstream then
        let ((err, onu_state), s) = get_onu_state P intf_id onu_id s
        in if err \<noteq> BCM_ERR_OK then (err, s)
           else
             let (err, s) = bal_err P (Cfg_clear (alloc_obj intf_id alloc_id)) s
             in if err \<noteq> BCM_ERR_OK then (err, s)
                else
                  let (err, s) =
                    (if onu_state = BCMOLT_ONU_STATE_ACTIVE
                     then wait_for_alloc_action P (u32_of_int intf_id) (u32_of_int alloc_id) OBJECT_DELETE s
                     else (BCM_ERR_OK, s))
                  in if err \<noteq> BCM_ERR_OK then (err, s)
                     else (BCM_ERR_OK, free_tm_sched_id intf_id onu_id uni_id direction tp s)
      else if direction = downstream then
        if is_tm_sched_id_present intf_id onu_id uni_id direction tp s then
          let (sched_id, s) = get_tm_sched_id intf_id onu_id uni_id direction tp s;
              (err, s) = bal_err P (Cfg_clear (tm_sched_obj (uint sched_id))) s
          in if err \<noteq> BCM_ERR_OK then (err, s)
             else (BCM_ERR_OK, free_tm_sched_id intf_id onu_id uni_id direction tp s)
        else (BCM_ERR_OK, s)
      else (BCM_ERR_OK, free_tm_sched_id intf_id onu_id uni_id direction tp s))"

fun remove_scheds ::
    "platform \<Rightarrow> uint32 \<Rightarrow> uint32 \<Rightarrow> uint32 \<Rightarrow> traffic_scheduler list \<Rightarrow> olt \<Rightarrow> status \<times> olt" where
  "remove_scheds P intf onu uni [] s = (Status_OK, s)"
| "remove_scheds P intf onu uni (ts # tss) s =
     (let direction = GetDirection (ts_direction ts)
      in if direction = ''direction-not-supported''
         then (bcm_to_grpc_err P BCM_ERR_PARM ''direction-not-supported'', s)
         else
           let (err, s) = RemoveSched P (sint intf) (sint onu) (sint uni) (sint (ts_alloc_id ts))
                            direction (sint (ts_tech_profile_id ts)) s
           in if err \<noteq> BCM_ERR_OK
              then (bcm_to_grpc_err P err ''error-removing-traffic-scheduler'', s)
              else remove_scheds P intf onu uni tss s)"

definition RemoveTrafficSchedulers :: "platform \<Rightarrow> traffic_schedulers \<Rightarrow> olt \<Rightarrow> status \<times> olt" where
  "RemoveTrafficSchedulers P req s =
     remove_scheds P (tss_intf_id req) (tss_onu_id req) (tss_uni_id req) (tss_scheds req) s"

section \<open>The pool of scheduler ids is kept consistent\<close>

lemma sched_inv_ap [simp]: "sched_inv (agent_part s) = sched_inv s"
  by (simp add: sched_inv_def agent_part_sel)

lemma sched_inv_agent_part: "agent_part s' = agent_part s \<Longrightarrow> sched_inv s \<Longrightarrow> sched_inv s'"
  by (metis sched_inv_ap)

lemma get_onu_state_frame:
  "get_onu_state P i n s = (r, s') \<Longrightarrow>
     agent_part s' = agent_part s \<and> gemport_status_map s' = gemport_status_map s"
  by (auto simp: get_onu_state_def bal_call_def)

lemma wait_alloc_frame:
  "wait_for_alloc_action P i g a s = (e, s') \<Longrightarrow> agent_part s' = agent_part s"
  by (metis agent_part_wait_alloc snd_conv)

lemmas alloc_frames = get_onu_state_frame bal_err_frame wait_alloc_frame

lemma CreateSched_upstream_frame:
  "CreateSched_upstream P i n a abw info s = (e, s') \<Longrightarrow> agent_part s' = agent_part s"
  by (auto simp: CreateSched_upstream_def Let_def split: prod.splits if_splits option.splits
      dest!: alloc_frames)

lemma sched_inv_CreateSched:
  assumes "sched_inv s" "CreateSched P d i n u ts s = (e, s')"
  shows "sched_inv s'"
proof (cases "d = downstream")
  case True
  obtain id t where g: "get_tm_sched_id (uint i) (uint n) (uint u) d (uint (ts_tech_profile_id ts)) s
      = (id, t)" by fastforce
  then have "sched_inv t" by (metis assms(1) sched_inv_get snd_conv)
  moreover have "agent_part s' = agent_part t"
    using assms(2) True g by (auto simp: CreateSched_def CreateSched_downstream_def dest: bal_err_frame)
  ultimately show ?thesis by (metis sched_inv_agent_part)
next
  case False
  then show ?thesis using assms CreateSched_upstream_frame sched_inv_agent_part
    by (metis CreateSched_def)
qed

lemma sched_inv_create_scheds:
  "sched_inv s \<Longrightarrow> create_scheds P i n u tss s = (st, s') \<Longrightarrow> sched_inv s'"
proof (induction tss arbitrary: s)
  case Nil
  then show ?case by simp
next
  case (Cons ts tss)
  then show ?case
    by (auto simp: Let_def split: if_splits prod.splits dest: sched_inv_CreateSched)
qed

text \<open>A removal ends in a state that only differs from the start outside the pool, or frees the id.\<close>

lemma RemoveSched_upstream_cases:
  "RemoveSched P i n u a upstream tp s = (e, s') \<Longrightarrow>
     \<exists>t. agent_part t = agent_part s \<and> (s' = t \<or> s' = free_tm_sched_id i n u upstream tp t)"
  by (auto simp: RemoveSched_def Let_def split: prod.splits if_splits dest!: alloc_frames)

lemma RemoveSched_downstream_cases:
  assumes "RemoveSched P i n u a downstream tp s = (e, s')" "get_tm_sched_id i n u downstream tp s = (k, t)"
  shows "s' = s \<or> (\<exists>t'. agent_part t' = agent_part t \<and>
           (s' = t' \<or> s' = free_tm_sched_id i n u downstream tp t'))"
  using assms by (auto simp: RemoveSched_def Let_def split: prod.splits if_splits dest!: bal_err_frame)

lemma sched_inv_RemoveSched:
  assumes "sched_inv s" "RemoveSched P i n u a d tp s = (e, s')"
  shows "sched_inv s'"
proof -
  consider "d = downstream" | "d = upstream" | "d \<noteq> downstream" "d \<noteq> upstream" by blast
  then show ?thesis
  proof cases
    case 1
    obtain k t where g: "get_tm_sched_id i n u d tp s = (k, t)" by fastforce
    then have "sched_inv t" by (metis assms(1) sched_inv_get snd_conv)
    then show ?thesis using RemoveSched_downstream_cases [of P i n u a tp s e s' k t] assms 1 g
      by (metis sched_inv_agent_part sched_inv_free)
  next
    case 2
    then show ?thesis using RemoveSched_upstream_cases assms
      by (metis sched_inv_agent_part sched_inv_free)
  next
    case 3
    then show ?thesis using assms by (auto simp: RemoveSched_def sched_inv_free)
  qed
qed

lemma sched_inv_remove_scheds:
  "sched_inv s \<Longrightarrow> remove_scheds P i n u tss s = (st, s') \<Longrightarrow> sched_inv s'"
proof (induction tss arbitrary: s)
  case Nil
  then show ?case by simp
next
  case (Cons ts tss)
  then show ?case
    by (auto simp: Let_def split: if_splits prod.splits dest: sched_inv_RemoveSched)
qed

section \<open>The bandwidths sent to BAL\<close>

lemma c_mod_dvd: "b dvd a - c_mod a b"
  by (auto simp: c_mod_def minus_mod_eq_mult_div) (metis dvd_minus_iff dvd_triv_left
      minus_diff_eq minus_minus minus_mod_eq_mult_div uminus_add_conv_diff add.commute)

lemma sent_prefix: "bal_trace s' = xs @ bal_trace s \<Longrightarrow> sent s s' = xs"
  by (simp add: sent_def)

lemma bw_granularity_cases: "bw_granularity t = 16000 \<or> bw_granularity t = 32000"
  by (simp add: bw_granularity_def XGS_BANDWIDTH_GRANULARITY_def GPON_BANDWIDTH_GRANULARITY_def)

lemma sla_bandwidths_dvd:
  "sla_bandwidths g info = (p, f, b) \<Longrightarrow> g dvd p \<and> g dvd f \<and> g dvd b"
  by (auto simp: sla_bandwidths_def round_bw_def Let_def c_mod_dvd)

lemma sla_eligibility_sound:
  assumes "sla_eligibility abw p g = Some e"
  shows "p \<noteq> 0" "g \<le> p" "abw = AdditionalBW_BestEffort \<Longrightarrow> g < p"
    "abw = AdditionalBW_NA \<Longrightarrow> g < p \<and> g \<noteq> 0" "abw = AdditionalBW_None \<Longrightarrow> g = p"
  using assms by (cases abw; simp add: sla_eligibility_def split: if_splits)+

section \<open>The messages of the handlers\<close>

lemma wait_alloc_trace:
  assumes "wait_for_alloc_action P i a act s = (e, s')"
  shows "\<exists>xs. bal_trace s' = xs @ bal_trace s \<and> (\<forall>x\<in>set xs. \<forall>k fs. x \<noteq> Cfg_set k fs)"
proof -
  let ?w = "Pop_wait (alloc_obj (uint i) (uint a))" and ?q = "Cfg_get (alloc_obj (uint i) (uint a))"
  have "bal_trace s' = [?w] @ bal_trace s \<or> bal_trace s' = [?q, ?w] @ bal_trace s"
    using assms
    by (auto simp: wait_for_alloc_action_def get_alloc_obj_state_def bal_call_def Let_def
        split: option.splits if_splits)
  then show ?thesis
    by (elim disjE) (rule exI [of _ "[?w]"], simp, rule exI [of _ "[?q, ?w]"], simp)
qed

lemma CreateSched_upstream_trace:
  assumes "CreateSched_upstream P i n a abw info s = (e, s')"
  shows "\<exists>xs. bal_trace s' = xs @ bal_trace s \<and>
    (\<forall>k fs. Cfg_set k fs \<in> set xs \<longrightarrow>
       (\<exists>p f g elig. sla_bandwidths (bw_granularity (intf_technologies s (unat i))) info = (p, f, g) \<and>
          sla_eligibility abw p g = Some elig \<and> k = alloc_obj (uint i) (uint a) \<and>
          fs = sla_fields elig p f g n))"
proof -
  obtain p f g where b: "sla_bandwidths (bw_granularity (intf_technologies s (unat i))) info = (p, f, g)"
    by (cases "sla_bandwidths (bw_granularity (intf_technologies s (unat i))) info") auto
  show ?thesis
  proof (cases "sla_eligibility abw p g")
    case None
    then show ?thesis using assms b by (auto simp: CreateSched_upstream_def)
  next
    case (Some elig)
    let ?k = "alloc_obj (uint i) (uint a)" and ?fs = "sla_fields elig p f g n"
    let ?t1 = "Cfg_get (onu_obj (uint i) (uint n)) # bal_trace s"
    have "bal_trace s' = ?t1 \<or> bal_trace s' = Cfg_set ?k ?fs # ?t1 \<or>
        (\<exists>ys. bal_trace s' = ys @ Cfg_set ?k ?fs # ?t1 \<and> (\<forall>x\<in>set ys. \<forall>k fs. x \<noteq> Cfg_set k fs))"
      using assms b Some
      by (auto simp: CreateSched_upstream_def get_onu_state_def bal_err_def bal_call_def Let_def
          split: if_splits dest!: wait_alloc_trace)
    then obtain xs where xs: "bal_trace s' = xs @ bal_trace s"
        "\<forall>k fs. Cfg_set k fs \<in> set xs \<longrightarrow> k = ?k \<and> fs = ?fs"
    proof (elim disjE exE conjE)
      fix ys assume "bal_trace s' = ys @ Cfg_set ?k ?fs # ?t1" "\<forall>x\<in>set ys. \<forall>k fs. x \<noteq> Cfg_set k fs"
      then show thesis by (intro that [of "ys @ [Cfg_set ?k ?fs, Cfg_get (onu_obj (uint i) (uint n))]"]) auto
    next
      assume "bal_trace s' = ?t1"
      then show thesis by (intro that [of "[Cfg_get (onu_obj (uint i) (uint n))]"]) auto
    next
      assume "bal_trace s' = Cfg_set ?k ?fs # ?t1"
      then show thesis by (intro that [of "[Cfg_set ?k ?fs, Cfg_get (onu_obj (uint i) (uint n))]"]) auto
    qed
    then show ?thesis using b Some by blast
  qed
qed

section \<open>Properties\<close>



text \<open>
  Creating a downstream scheduler for a subscriber and removing it again gives back the pool
  as it was (the map of the schedulers and the bitset of the used ids), when BAL accepts both
  messages and the subscriber had no scheduler before.
\<close>

theorem downstream_sched_roundtrip:
  assumes "sched_inv s" "\<not> is_tm_sched_id_present (uint i) (uint n) (uint u) downstream (uint tp) s"
    and "CreateSched_downstream P downstream i n u prio info tp s = (BCM_ERR_OK, t)"
    and "RemoveSched P (uint i) (uint n) (uint u) a downstream (uint tp) t = (BCM_ERR_OK, s')"
    and "{0..<MAX_TM_SCHED_ID} - tm_sched_bitset s \<noteq> {}"
  shows "sched_map s' = sched_map s \<and> tm_sched_bitset s' = tm_sched_bitset s"
proof -
  let ?k = "sched_key (uint i) (uint n) (uint u) downstream (uint tp)"
  have k: "sched_map s ?k = None" using assms(2) by (simp add: is_tm_sched_id_present_def)
  obtain j where al: "tm_sched_alloc s = (Some j, s\<lparr>tm_sched_bitset := insert j (tm_sched_bitset s)\<rparr>)"
      and j: "j \<notin> tm_sched_bitset s"
    using assms(5) tm_sched_alloc_None [of s] tm_sched_alloc_Some [of s]
    by (metis Diff_eq_empty_iff not_None_eq prod.exhaust)
  let ?t = "s\<lparr>tm_sched_bitset := insert j (tm_sched_bitset s), sched_map := (sched_map s)(?k \<mapsto> int j)\<rparr>"
  have g: "get_tm_sched_id (uint i) (uint n) (uint u) downstream (uint tp) s = (of_nat j, ?t)"
    using k al by (simp add: get_tm_sched_id_def)
  have t: "sched_map t = sched_map ?t" "tm_sched_bitset t = tm_sched_bitset ?t"
    using assms(3) g by (auto simp: CreateSched_downstream_def bal_err_def bal_call_def)
  have g': "get_tm_sched_id (uint i) (uint n) (uint u) downstream (uint tp) t = (of_nat j, t)"
    using t by (simp add: get_tm_sched_id_def u32_of_int_def)
  show ?thesis
    using assms(4) g' t k j
    by (auto simp: RemoveSched_def is_tm_sched_id_present_def bal_err_def bal_call_def
        free_tm_sched_id_def Let_def fun_upd_idem split: if_splits)
qed

lemma downstream_sched_roundtrip_witness:
  "let P = const_platform ok_rsp;
       info = \<lparr>cir = 0, cbs = 0, pir = 1000, pbs = 10, gir = 0\<rparr>;
       t = snd (CreateSched_downstream P downstream 0 1 0 0 info 64 init_olt);
       s' = snd (RemoveSched P 0 1 0 1024 downstream 64 t)
   in tm_sched_bitset t = {0} \<and> tm_sched_bitset s' = {} \<and> sched_map s' = sched_map init_olt"
proof -
  let ?P = "const_platform ok_rsp" and ?info = "\<lparr>cir = 0, cbs = 0, pir = 1000, pbs = 10, gir = 0\<rparr>"
  let ?c = "CreateSched_downstream ?P downstream 0 1 0 0 ?info 64 init_olt"
  let ?r = "RemoveSched ?P 0 1 0 1024 downstream 64 (snd ?c)"
  have ff: "first_free {} 0 1023 = Some 0" by (simp add: first_free.simps)
  have c: "?c = (BCM_ERR_OK, snd ?c)" and b: "tm_sched_bitset (snd ?c) = {0}"
    by (simp_all add: CreateSched_downstream_def get_tm_sched_id_def tm_sched_alloc_def ff
        MAX_TM_SCHED_ID_def bal_err_def bal_call_def)
  have r: "?r = (BCM_ERR_OK, snd ?r)"
    by (simp add: RemoveSched_def Let_def bal_err_def bal_call_def split: prod.split)
  have "sched_map (snd ?r) = sched_map init_olt \<and> tm_sched_bitset (snd ?r) = tm_sched_bitset init_olt"
    by (rule downstream_sched_roundtrip [where s = init_olt and t = "snd ?c" and P = ?P and i = 0
          and n = 1 and u = 0 and tp = 64 and prio = 0 and info = ?info and a = 1024])
      (use c r in \<open>simp_all add: is_tm_sched_id_present_def MAX_TM_SCHED_ID_def\<close>)
  then show ?thesis using b by (simp add: Let_def)
qed

text \<open>
  When all 1023 scheduler ids are taken, the creation of another downstream scheduler is not
  refused: the \<open>-1\<close> of the exhausted pool becomes the scheduler id 4294967295 of the message sent.
\<close>

theorem CreateSched_exhausted_pool:
  assumes "{0..<MAX_TM_SCHED_ID} \<subseteq> tm_sched_bitset s"
    and "\<not> is_tm_sched_id_present (uint i) (uint n) (uint u) downstream (uint tp) s"
  shows "\<exists>fs. bal_trace (snd (CreateSched_downstream P downstream i n u prio info tp s)) =
                Cfg_set (tm_sched_obj 4294967295) fs # bal_trace s"
proof -
  have "first_free (tm_sched_bitset s) 0 MAX_TM_SCHED_ID = None"
    using assms(1) by (simp add: first_free_None)
  then show ?thesis using assms(2)
    by (simp add: CreateSched_downstream_def get_tm_sched_id_def tm_sched_alloc_def
        is_tm_sched_id_present_def bal_err_def bal_call_def u32_of_int_def)
qed

lemma CreateSched_exhausted_pool_witness:
  "\<exists>fs. bal_trace (snd (CreateSched_downstream (const_platform ok_rsp) downstream 0 1 0 0
           \<lparr>cir = 0, cbs = 0, pir = 0, pbs = 0, gir = 0\<rparr> 64
           (init_olt\<lparr>tm_sched_bitset := {0..<1023}\<rparr>))) = [Cfg_set (tm_sched_obj 4294967295) fs]"
  using CreateSched_exhausted_pool [of "init_olt\<lparr>tm_sched_bitset := {0..<1023}\<rparr>" 0 1 0 64]
  by (simp add: MAX_TM_SCHED_ID_def is_tm_sched_id_present_def)

text \<open>
  Removing an upstream scheduler reports success when BAL never confirmed the deletion of the
  alloc object and says it is still active: after the time limit, the successful state query
  overwrites the error, and the state of the empty result reads as "not configured".
\<close>

theorem RemoveSched_unconfirmed_delete:
  assumes "\<And>t q. r_err (bal_respond P t q) = BCM_ERR_OK"
    and "\<And>t q. r_onu_state (bal_respond P t q) = BCMOLT_ONU_STATE_ACTIVE"
    and "\<And>t q. r_cfg_result (bal_respond P t q) = None"
    and "\<And>t q. r_act_state (bal_respond P t q) = BCMOLT_ACTIVATION_STATE_ACTIVE"
  shows "fst (RemoveSched P i n u a upstream tp s) = BCM_ERR_OK"
  using assms
  by (simp add: RemoveSched_def get_onu_state_def bal_err_def bal_call_def wait_for_alloc_action_def
      get_alloc_obj_state_def Let_def action_reached_def cfg_action_err_def)

lemma RemoveSched_unconfirmed_delete_witness:
  "fst (RemoveSched (const_platform (ok_rsp\<lparr>r_onu_state := BCMOLT_ONU_STATE_ACTIVE\<rparr>)) 0 1 0 1024
          upstream 64 init_olt) = BCM_ERR_OK"
  by (rule RemoveSched_unconfirmed_delete) simp_all

end
