(* ===== verification/Traffic_Queues.thy ===== *)
theory Traffic_Queues
  imports Scheduler
begin

text \<open>
  The queues of a subscriber and the traffic mapping profiles (\<open>tm_qmp\<close>) that map its p-bits to
  queues (\<open>agent/src/core_utils.cc\<close>, \<open>agent/src/core_api_handler.cc\<close>).  A profile is shared by the
  schedulers that need the same mapping; it lives as long as one of them refers to it.

  \<open>std::vector::at\<close> outside the vector raises an exception nothing catches, and an index outside
  \<open>queue_id_list\<close> has no defined value: a handler that does either gives \<open>None\<close>.
\<close>

section \<open>The request\<close>

record traffic_queue =
  tq_direction :: tp_direction
  tq_priority :: uint32
  tq_gemport_id :: uint32
  tq_pbit_map :: string

record traffic_queues =
  tqs_intf_id :: uint32
  tqs_network_intf_id :: uint32
  tqs_onu_id :: uint32
  tqs_uni_id :: uint32
  tqs_tech_profile_id :: uint32
  tqs_queues :: "traffic_queue list"

section \<open>Mapping profiles\<close>

definition check_tm_qmp_equality :: "uint32 list \<Rightarrow> uint32 list \<Rightarrow> bool" where
  "check_tm_qmp_equality a b = list_all (\<lambda>i. a ! i = b ! i) [0..<TMQ_MAP_PROFILE_SIZE]"

definition get_valid_queues_pbit_map :: "string list \<Rightarrow> string list" where
  "get_valid_queues_pbit_map ms = map (\<lambda>m. rev (drop 2 m)) ms"

definition queue_of_priority :: "uint32 \<Rightarrow> uint32 option" where
  "queue_of_priority prio =
     (if unat prio < length queue_id_list then Some (queue_id_list ! unat prio) else None)"

fun fill_pbits :: "string \<Rightarrow> uint32 \<Rightarrow> nat \<Rightarrow> uint32 list \<Rightarrow> uint32 list option" where
  "fill_pbits [] prio j profile = Some profile"
| "fill_pbits (c # cs) prio j profile =
     (if c = CHR ''1'' then
        (case queue_of_priority prio of
           None \<Rightarrow> None
         | Some q \<Rightarrow> if j < length profile then fill_pbits cs prio (Suc j) (profile[j := q]) else None)
      else fill_pbits cs prio (Suc j) profile)"

fun fill_profile :: "(string \<times> uint32) list \<Rightarrow> uint32 list \<Rightarrow> uint32 list option" where
  "fill_profile [] profile = Some profile"
| "fill_profile ((m, prio) # qs) profile =
     (case fill_pbits m prio 0 profile of None \<Rightarrow> None | Some p \<Rightarrow> fill_profile qs p)"

definition get_tmq_map_profile :: "string list \<Rightarrow> uint32 list \<Rightarrow> uint32 list option" where
  "get_tmq_map_profile pbit_maps prios = fill_profile (zip pbit_maps prios) (replicate 8 0)"

text \<open>The three overloads of \<open>get_tm_qmp_id\<close>: by profile, by scheduler, and the allocating one.\<close>

fun find_qmp :: "uint32 list \<Rightarrow> (int, uint32 list) omap \<Rightarrow> int" where
  "find_qmp profile [] = -1"
| "find_qmp profile ((i, p) # m) = (if check_tm_qmp_equality profile p then i else find_qmp profile m)"

definition get_tm_qmp_id_by_profile :: "uint32 list \<Rightarrow> olt \<Rightarrow> int" where
  "get_tm_qmp_id_by_profile profile s = find_qmp profile (qmp_id_to_qmp_map s)"

definition get_tm_qmp_id :: "sched_qmp_id_map_key \<Rightarrow> olt \<Rightarrow> int" where
  "get_tm_qmp_id key s = (case om_find (<) key (sched_qmp_id_map s) of Some i \<Rightarrow> i | None \<Rightarrow> -1)"

definition update_sched_qmp_id_map :: "sched_qmp_id_map_key \<Rightarrow> int \<Rightarrow> olt \<Rightarrow> olt" where
  "update_sched_qmp_id_map key qmp s =
     s\<lparr>sched_qmp_id_map := om_insert (<) key qmp (sched_qmp_id_map s)\<rparr>"

definition alloc_tm_qmp_id :: "sched_qmp_id_map_key \<Rightarrow> uint32 list \<Rightarrow> olt \<Rightarrow> int \<times> olt" where
  "alloc_tm_qmp_id key profile s =
     (case first_free (tm_qmp_bitset s) 0 MAX_TM_QMP_ID of
        Some i \<Rightarrow>
          (int i, update_sched_qmp_id_map key (int i)
                    (s\<lparr>tm_qmp_bitset := insert i (tm_qmp_bitset s),
                       qmp_id_to_qmp_map := om_insert (<) (int i) profile (qmp_id_to_qmp_map s)\<rparr>))
      | None \<Rightarrow> (-1, s))"

definition qmp_ref_count :: "int \<Rightarrow> (sched_qmp_id_map_key, int) omap \<Rightarrow> nat" where
  "qmp_ref_count qmp m = length (filter (\<lambda>e. snd e = qmp) m)"

definition free_tm_qmp_id :: "platform \<Rightarrow> sched_qmp_id_map_key \<Rightarrow> int \<Rightarrow> olt \<Rightarrow> bool \<times> olt" where
  "free_tm_qmp_id P key qmp s =
     (let s = s\<lparr>sched_qmp_id_map := om_erase (<) key (sched_qmp_id_map s)\<rparr>
      in if qmp_ref_count qmp (sched_qmp_id_map s) = 0 then
           (case om_find (<) qmp (qmp_id_to_qmp_map s) of
              Some _ \<Rightarrow> (True, s\<lparr>tm_qmp_bitset := tm_qmp_bitset s - {nat qmp},
                                qmp_id_to_qmp_map := om_erase (<) qmp (qmp_id_to_qmp_map s)\<rparr>)
            | None \<Rightarrow> (uninit_u P s ''result'' \<noteq> 0, s))
         else (False, s))"

definition pbits_to_tmq_id :: "uint32 list \<Rightarrow> int list" where
  "pbits_to_tmq_id profile = map (\<lambda>q. uint q mod 256) profile"

definition CreateTrafficQueueMappingProfile ::
    "platform \<Rightarrow> sched_qmp_id_map_key \<Rightarrow> uint32 list \<Rightarrow> olt \<Rightarrow> bcmos_errno \<times> olt" where
  "CreateTrafficQueueMappingProfile P key profile s =
     (let (qmp, s) = alloc_tm_qmp_id key profile s
      in if qmp = -1 then (BCM_ERR_RANGE, s)
         else bal_err P (Cfg_set (Obj ''tm_qmp'' [qmp])
                [(''type'', Sym ''BCMOLT_TM_QMP_TYPE_PBITS''),
                 (''pbits_to_tmq_id'', Bytes (pbits_to_tmq_id profile))]) s)"

definition RemoveTrafficQueueMappingProfile :: "platform \<Rightarrow> int \<Rightarrow> olt \<Rightarrow> bcmos_errno \<times> olt" where
  "RemoveTrafficQueueMappingProfile P qmp s =
     bal_err P (Cfg_clear (Obj ''tm_qmp'' [uint (u32_of_int qmp)])) s"

section \<open>The QoS type of a subscriber\<close>

fun get_qos_type_as_string :: "egress_qos_type \<Rightarrow> string" where
  "get_qos_type_as_string QOS_FIXED_QUEUE = ''FIXED_QUEUE''"
| "get_qos_type_as_string QOS_TC_TO_QUEUE = ''TC_TO_QUEUE''"
| "get_qos_type_as_string QOS_PBIT_TO_TC = ''PBIT_TO_TC''"
| "get_qos_type_as_string QOS_NONE = ''NONE''"
| "get_qos_type_as_string QOS_PRIORITY_TO_QUEUE = ''PRIORITY_TO_QUEUE''"

definition get_qos_type :: "uint32 \<Rightarrow> uint32 \<Rightarrow> uint32 \<Rightarrow> nat \<Rightarrow> olt \<Rightarrow> egress_qos_type \<times> olt" where
  "get_qos_type intf onu uni queue_size s =
     (case qos_type_map s (intf, onu, uni) of
        Some q \<Rightarrow> (q, s)
      | None \<Rightarrow>
          let q = (if queue_size > 1 then QOS_PRIORITY_TO_QUEUE else QOS_FIXED_QUEUE)
          in (q, s\<lparr>qos_type_map := (qos_type_map s)((intf, onu, uni) \<mapsto> q)\<rparr>))"

definition clear_qos_type :: "uint32 \<Rightarrow> uint32 \<Rightarrow> uint32 \<Rightarrow> olt \<Rightarrow> olt" where
  "clear_qos_type intf onu uni s = s\<lparr>qos_type_map := (qos_type_map s)((intf, onu, uni) := None)\<rparr>"

section \<open>Queues\<close>

definition tm_queue_obj :: "int \<Rightarrow> int \<Rightarrow> int \<Rightarrow> obj_key" where
  "tm_queue_obj sched_id q_set_id i = Obj ''tm_queue'' [sched_id, q_set_id, i]"

text \<open>The two named values of the queue set id belong to BAL; the model writes them as negative numbers.\<close>

definition QSET_NOT_USE :: int where "QSET_NOT_USE = -32768"
definition Q_SET_ID_DEFAULT :: int where "Q_SET_ID_DEFAULT = -1000000"

fun create_default_queues :: "platform \<Rightarrow> int \<Rightarrow> nat list \<Rightarrow> olt \<Rightarrow> bcmos_errno \<times> olt" where
  "create_default_queues P sched_id [] s = (BCM_ERR_OK, s)"
| "create_default_queues P sched_id (q # qs) s =
     (let (err, s) = bal_err P (Cfg_set (tm_queue_obj sched_id QSET_NOT_USE (int q))
             [(''tm_sched_param.type'', Sym ''BCMOLT_TM_SCHED_PARAM_TYPE_PRIORITY''),
              (''tm_sched_param.u.priority.priority'', Num (int q))]) s
      in if err \<noteq> BCM_ERR_OK then (err, s) else create_default_queues P sched_id qs s)"

definition CreateDefaultQueue :: "platform \<Rightarrow> uint32 \<Rightarrow> string \<Rightarrow> olt \<Rightarrow> bcmos_errno \<times> olt" where
  "CreateDefaultQueue P intf_id direction s =
     create_default_queues P (get_default_tm_sched_id P (sint intf_id) direction)
       [0..<NUMBER_OF_DEFAULT_INTERFACE_QUEUES] s"

text \<open>The scheduler of a queue: the NNI's upstream, the subscriber's otherwise.\<close>

definition queue_sched_id ::
    "platform \<Rightarrow> string \<Rightarrow> uint32 \<Rightarrow> uint32 \<Rightarrow> uint32 \<Rightarrow> uint32 \<Rightarrow> uint32 \<Rightarrow> olt \<Rightarrow> uint32 \<times> olt" where
  "queue_sched_id P direction nni intf onu uni tp s =
     (if direction = upstream then (u32_of_int (get_default_tm_sched_id P (sint nni) direction), s)
      else get_tm_sched_id (uint intf) (uint onu) (uint uni) direction (uint tp) s)"

text \<open>The queue set and queue of a key, by QoS type.\<close>

definition queue_key_ids ::
    "egress_qos_type \<Rightarrow> uint32 \<Rightarrow> sched_qmp_id_map_key \<Rightarrow> olt \<Rightarrow> int \<times> int" where
  "queue_key_ids qos queue_id key s =
     (if qos = QOS_FIXED_QUEUE then (QSET_NOT_USE, 0)
      else if qos = QOS_PRIORITY_TO_QUEUE then (get_tm_qmp_id key s, uint queue_id)
      else (Q_SET_ID_DEFAULT, uint queue_id))"

definition CreateQueue ::
    "platform \<Rightarrow> string \<Rightarrow> uint32 \<Rightarrow> uint32 \<Rightarrow> uint32 \<Rightarrow> uint32 \<Rightarrow> egress_qos_type \<Rightarrow> uint32 \<Rightarrow> uint32 \<Rightarrow>
     uint32 \<Rightarrow> olt \<Rightarrow> bcmos_errno \<times> olt" where
  "CreateQueue P direction nni intf onu uni qos prio gem tp s =
     (let (sched_id, s) = queue_sched_id P direction nni intf onu uni tp s
      in if prio > 7 then (BCM_ERR_RANGE, s)
         else
           let (q_set, q_id) = queue_key_ids qos (queue_id_list ! unat prio) (sched_id, intf, onu, uni) s;
               (err, s) = bal_err P (Cfg_set (tm_queue_obj (uint sched_id) q_set q_id)
                   [(''tm_sched_param.u.priority.priority'', Num (uint prio)),
                    (''tm_sched_param.type'', Sym ''BCMOLT_TM_SCHED_PARAM_TYPE_PRIORITY'')]) s
           in if err \<noteq> BCM_ERR_OK then (err, s)
              else if direction = upstream \<or> direction = downstream then
                let (st, s) = install_gem_port P (sint intf) (sint onu) (sint uni) (sint gem)
                                (board_technology s) s
                in if code st \<noteq> ALREADY_EXISTS \<and> code st \<noteq> OK then (BCM_ERR_INTERNAL, s)
                   else if direction = upstream
                   then (BCM_ERR_OK,
                         s\<lparr>pon_gem_to_onu_uni_map := (pon_gem_to_onu_uni_map s)((intf, gem) \<mapsto> (onu, uni))\<rparr>)
                   else (BCM_ERR_OK, s)
              else (BCM_ERR_OK, s))"

fun directions_of :: "traffic_queue list \<Rightarrow> string \<Rightarrow> string option" where
  "directions_of [] direction = Some direction"
| "directions_of (q # qs) _ =
     (let direction = GetDirection (tq_direction q)
      in if direction = ''direction-not-supported'' then None else directions_of qs direction)"

text \<open>
  The mapping profile of a priority-to-queue subscriber: found by its contents, or created.  The
  outer option is the exception or undefined index, \<open>Inl\<close> the error returned to the caller.
\<close>

definition ensure_profile ::
    "platform \<Rightarrow> traffic_queues \<Rightarrow> olt \<Rightarrow> (status option \<times> olt) option" where
  "ensure_profile P req s =
     (case directions_of (tqs_queues req) [] of
        None \<Rightarrow> Some (Some (bcm_to_grpc_err P BCM_ERR_PARM ''direction-not-supported''), s)
      | Some direction \<Rightarrow>
          do {
            profile \<leftarrow> get_tmq_map_profile
                         (get_valid_queues_pbit_map (map tq_pbit_map (tqs_queues req)))
                         (map tq_priority (tqs_queues req));
            let (sched_id, s) = queue_sched_id P direction (tqs_network_intf_id req) (tqs_intf_id req)
                  (tqs_onu_id req) (tqs_uni_id req) (tqs_tech_profile_id req) s;
            let key = (sched_id, tqs_intf_id req, tqs_onu_id req, tqs_uni_id req);
            let qmp = get_tm_qmp_id_by_profile profile s;
            if qmp = -1 then
              let (err, s) = CreateTrafficQueueMappingProfile P key profile s
              in if err \<noteq> BCM_ERR_OK
                 then Some (Some (bcm_to_grpc_err P err ''Failed to create tm queue mapping profile''), s)
                 else Some (None, s)
            else if get_tm_qmp_id key s = -1 then Some (None, update_sched_qmp_id_map key qmp s)
            else Some (None, s)
          })"

fun create_queues ::
    "platform \<Rightarrow> traffic_queues \<Rightarrow> egress_qos_type \<Rightarrow> traffic_queue list \<Rightarrow> olt \<Rightarrow> status \<times> olt" where
  "create_queues P req qos [] s = (Status_OK, s)"
| "create_queues P req qos (q # qs) s =
     (let direction = GetDirection (tq_direction q)
      in if direction = ''direction-not-supported''
         then (bcm_to_grpc_err P BCM_ERR_PARM ''direction-not-supported'', s)
         else
           let (err, s) = CreateQueue P direction (tqs_network_intf_id req) (tqs_intf_id req)
                 (tqs_onu_id req) (tqs_uni_id req) qos (tq_priority q) (tq_gemport_id q)
                 (tqs_tech_profile_id req) s
           in if err \<noteq> BCM_ERR_OK \<and> err \<noteq> BCM_ERR_ALREADY
              then (bcm_to_grpc_err P err ''Failed to create queue'', s)
              else create_queues P req qos qs s)"

definition CreateTrafficQueues :: "platform \<Rightarrow> traffic_queues \<Rightarrow> olt \<Rightarrow> (status \<times> olt) option" where
  "CreateTrafficQueues P req s =
     (let (qos, s) = get_qos_type (tqs_intf_id req) (tqs_onu_id req) (tqs_uni_id req)
                       (length (tqs_queues req)) s
      in do {
           (failed, s) \<leftarrow> (if qos = QOS_PRIORITY_TO_QUEUE then ensure_profile P req s
                            else Some (None, s));
           case failed of
             Some st \<Rightarrow> Some (st, s)
           | None \<Rightarrow> Some (create_queues P req qos (tqs_queues req) s)
         })"

definition RemoveQueue ::
    "platform \<Rightarrow> string \<Rightarrow> uint32 \<Rightarrow> uint32 \<Rightarrow> uint32 \<Rightarrow> egress_qos_type \<Rightarrow> uint32 \<Rightarrow> uint32 \<Rightarrow> uint32 \<Rightarrow>
     olt \<Rightarrow> (bcmos_errno \<times> olt) option" where
  "RemoveQueue P direction intf onu uni qos prio gem tp s =
     (let s = (if direction = upstream \<or> direction = downstream
               then snd (remove_gem_port P (sint intf) (sint onu) (sint uni) (sint gem)
                           (board_technology s) s)
               else s);
          s = (if direction = upstream
               then s\<lparr>pon_gem_to_onu_uni_map := (pon_gem_to_onu_uni_map s)((intf, gem) := None)\<rparr>
               else s)
      in if direction = downstream then
           if is_tm_sched_id_present (uint intf) (uint onu) (uint uni) direction (uint tp) s then
             let (sched_id, s) = get_tm_sched_id (uint intf) (uint onu) (uint uni) direction (uint tp) s
             in do {
                  queue_id \<leftarrow> queue_of_priority prio;
                  let (q_set, q_id) = queue_key_ids qos queue_id (sched_id, intf, onu, uni) s;
                  Some (bal_err P (Cfg_clear (tm_queue_obj (uint sched_id) q_set q_id)) s)
                }
           else Some (BCM_ERR_OK, s)
         else Some (BCM_ERR_OK, s))"

text \<open>The loop goes on after a failure; its result is the last failure, and the last direction is kept.\<close>

fun remove_queues ::
    "platform \<Rightarrow> traffic_queues \<Rightarrow> egress_qos_type \<Rightarrow> traffic_queue list \<Rightarrow> status \<Rightarrow> string \<Rightarrow> olt \<Rightarrow>
     ((bool \<times> status \<times> string) \<times> olt) option" where
  "remove_queues P req qos [] st direction s = Some ((True, st, direction), s)"
| "remove_queues P req qos (q # qs) st _ s =
     (let direction = GetDirection (tq_direction q)
      in if direction = ''direction-not-supported''
         then Some ((False, bcm_to_grpc_err P BCM_ERR_PARM ''direction-not-supported'', direction), s)
         else do {
           (err, s) \<leftarrow> RemoveQueue P direction (tqs_intf_id req) (tqs_onu_id req) (tqs_uni_id req) qos
                         (tq_priority q) (tq_gemport_id q) (tqs_tech_profile_id req) s;
           remove_queues P req qos qs
             (if err \<noteq> BCM_ERR_OK then bcm_to_grpc_err P err ''Failed to remove one or more queues'' else st)
             direction s
         })"

definition release_profile ::
    "platform \<Rightarrow> traffic_queues \<Rightarrow> egress_qos_type \<Rightarrow> string \<Rightarrow> olt \<Rightarrow> bcmos_errno \<times> olt" where
  "release_profile P req qos direction s =
     (if qos = QOS_PRIORITY_TO_QUEUE \<and>
         (direction = upstream \<or>
          direction = downstream \<and>
            is_tm_sched_id_present (uint (tqs_intf_id req)) (uint (tqs_onu_id req))
              (uint (tqs_uni_id req)) direction (uint (tqs_tech_profile_id req)) s)
      then
        let (sched_id, s) = queue_sched_id P direction (tqs_network_intf_id req) (tqs_intf_id req)
              (tqs_onu_id req) (tqs_uni_id req) (tqs_tech_profile_id req) s;
            key = (sched_id, tqs_intf_id req, tqs_onu_id req, tqs_uni_id req);
            qmp = get_tm_qmp_id key s;
            (last, s) = free_tm_qmp_id P key qmp s
        in if last then RemoveTrafficQueueMappingProfile P qmp s else (BCM_ERR_OK, s)
      else (BCM_ERR_OK, s))"

definition RemoveTrafficQueues :: "platform \<Rightarrow> traffic_queues \<Rightarrow> olt \<Rightarrow> (status \<times> olt) option" where
  "RemoveTrafficQueues P req s =
     (let (qos, s) = get_qos_type (tqs_intf_id req) (tqs_onu_id req) (tqs_uni_id req)
                       (length (tqs_queues req)) s
      in do {
           ((finished, st, direction), s) \<leftarrow> remove_queues P req qos (tqs_queues req) Status_OK [] s;
           if \<not> finished then Some (st, s)
           else
             let (err, s) = release_profile P req qos direction s
             in if err \<noteq> BCM_ERR_OK
                then Some (bcm_to_grpc_err P err ''Failed to remove tm queue mapping profile'', s)
                else Some (st, clear_qos_type (tqs_intf_id req) (tqs_onu_id req) (tqs_uni_id req) s)
         })"

section \<open>The profile table\<close>

text \<open>
  The invariant of the profiles: both tables are ordered maps, the bits are the ids of the profile
  table, which are below the limit, and every scheduler refers to a profile that exists.
\<close>

definition qmp_inv :: "olt \<Rightarrow> bool" where
  "qmp_inv s \<longleftrightarrow>
     om_sorted (<) (qmp_id_to_qmp_map s) \<and> om_sorted (<) (sched_qmp_id_map s) \<and>
     tm_qmp_bitset s = (nat \<circ> fst) ` set (qmp_id_to_qmp_map s) \<and>
     fst ` set (qmp_id_to_qmp_map s) \<subseteq> {0..<int MAX_TM_QMP_ID} \<and>
     snd ` set (sched_qmp_id_map s) \<subseteq> fst ` set (qmp_id_to_qmp_map s)"

lemma qmp_inv_init [simp]: "qmp_inv init_olt"
  by (simp add: qmp_inv_def om_sorted_def)

lemma qmp_inv_ap [simp]: "qmp_inv (agent_part s) = qmp_inv s"
  by (simp add: qmp_inv_def agent_part_sel)

lemma qmp_inv_agent_part: "agent_part s' = agent_part s \<Longrightarrow> qmp_inv s \<Longrightarrow> qmp_inv s'"
  by (metis qmp_inv_ap)

lemma find_qmp_mem: "find_qmp profile m \<noteq> -1 \<Longrightarrow> find_qmp profile m \<in> fst ` set m"
  by (induction m) auto

lemma qmp_inv_update:
  "qmp_inv s \<Longrightarrow> qmp \<in> fst ` set (qmp_id_to_qmp_map s) \<Longrightarrow> qmp_inv (update_sched_qmp_id_map key qmp s)"
  by (auto simp: qmp_inv_def update_sched_qmp_id_map_def om_lin_simps)

lemma qmp_inv_alloc:
  assumes "qmp_inv s" "alloc_tm_qmp_id key profile s = (i, s')"
  shows "qmp_inv s'"
proof (cases "first_free (tm_qmp_bitset s) 0 MAX_TM_QMP_ID")
  case None
  then show ?thesis using assms by (simp add: alloc_tm_qmp_id_def)
next
  case (Some j)
  let ?t = "s\<lparr>tm_qmp_bitset := insert j (tm_qmp_bitset s),
              qmp_id_to_qmp_map := om_insert (<) (int j) profile (qmp_id_to_qmp_map s)\<rparr>"
  have j: "j < MAX_TM_QMP_ID" "j \<notin> tm_qmp_bitset s" using first_free_Some [OF Some] by auto
  then have new: "int j \<notin> fst ` set (qmp_id_to_qmp_map s)"
    using assms(1) by (force simp: qmp_inv_def)
  have "qmp_inv ?t" using assms(1) j new by (auto simp: qmp_inv_def om_lin_simps)
  moreover have "int j \<in> fst ` set (qmp_id_to_qmp_map ?t)"
    using assms(1) new by (simp add: qmp_inv_def om_lin_simps)
  ultimately have "qmp_inv (update_sched_qmp_id_map key (int j) ?t)" by (rule qmp_inv_update)
  moreover have "s' = update_sched_qmp_id_map key (int j) ?t"
    using assms(2) Some by (auto simp: alloc_tm_qmp_id_def)
  ultimately show ?thesis by simp
qed

lemma qmp_inv_free:
  assumes "qmp_inv s" "free_tm_qmp_id P key qmp s = (r, s')"
  shows "qmp_inv s'"
proof -
  let ?t = "s\<lparr>sched_qmp_id_map := om_erase (<) key (sched_qmp_id_map s)\<rparr>"
  have t: "qmp_inv ?t" using assms(1) by (auto simp: qmp_inv_def om_lin_simps)
  show ?thesis
  proof (cases "qmp_ref_count qmp (sched_qmp_id_map ?t) = 0 \<and> om_find (<) qmp (qmp_id_to_qmp_map ?t) \<noteq> None")
    case False
    then show ?thesis using assms(2) t
      by (auto simp: free_tm_qmp_id_def Let_def split: if_splits option.splits)
  next
    case True
    then have norefs: "qmp \<notin> snd ` set (sched_qmp_id_map ?t)"
      by (auto simp: qmp_ref_count_def filter_empty_conv)
    have pos: "0 \<le> i" if "i \<in> fst ` set (qmp_id_to_qmp_map s)" for i
      using assms(1) that by (auto simp: qmp_inv_def)
    have "om_sorted (<) (qmp_id_to_qmp_map s)" using assms(1) by (simp add: qmp_inv_def)
    then have mem: "qmp \<in> fst ` set (qmp_id_to_qmp_map s)"
      using True om_find_None_iff [of "qmp_id_to_qmp_map s" qmp] by simp
    have bits: "tm_qmp_bitset s - {nat qmp} =
        (nat \<circ> fst) ` {e \<in> set (qmp_id_to_qmp_map s). fst e \<noteq> qmp}"
    proof -
      let ?A = "fst ` set (qmp_id_to_qmp_map s)"
      have "fst ` {e \<in> set (qmp_id_to_qmp_map s). fst e \<noteq> qmp} = ?A - {qmp}" by auto
      moreover have "nat ` (?A - {qmp}) = nat ` ?A - nat ` {qmp}"
        by (rule inj_on_image_set_diff [of nat ?A]) (use pos mem in \<open>auto simp: inj_on_def eq_nat_nat_iff\<close>)
      moreover have "tm_qmp_bitset s = nat ` ?A" using assms(1) by (simp add: qmp_inv_def image_comp)
      ultimately show ?thesis unfolding image_comp [symmetric] by simp
    qed
    have "s' = ?t\<lparr>tm_qmp_bitset := tm_qmp_bitset s - {nat qmp},
                  qmp_id_to_qmp_map := om_erase (<) qmp (qmp_id_to_qmp_map s)\<rparr>"
      using assms(2) True by (auto simp: free_tm_qmp_id_def Let_def split: option.splits)
    moreover have "snd ` set (sched_qmp_id_map ?t) \<subseteq> fst ` {e \<in> set (qmp_id_to_qmp_map s). fst e \<noteq> qmp}"
    proof
      fix x assume x: "x \<in> snd ` set (sched_qmp_id_map ?t)"
      then have "x \<in> fst ` set (qmp_id_to_qmp_map s)" using t by (auto simp: qmp_inv_def)
      moreover have "x \<noteq> qmp" using x norefs by blast
      ultimately show "x \<in> fst ` {e \<in> set (qmp_id_to_qmp_map s). fst e \<noteq> qmp}" by blast
    qed
    moreover have "fst ` {e \<in> set (qmp_id_to_qmp_map s). fst e \<noteq> qmp} \<subseteq> {0..<int MAX_TM_QMP_ID}"
      using assms(1) by (auto simp: qmp_inv_def)
    moreover have "om_sorted (<) (qmp_id_to_qmp_map s)" "om_sorted (<) (sched_qmp_id_map ?t)"
      using assms(1) t by (simp_all add: qmp_inv_def)
    ultimately show ?thesis using bits unfolding qmp_inv_def
      by (simp add: om_erase_set lin.om_sorted_erase)
  qed
qed


section \<open>The invariants through the handlers\<close>

lemma get_tm_sched_id_frame:
  "get_tm_sched_id i n u d tp s = (k, s') \<Longrightarrow>
     \<exists>b m. s' = s\<lparr>tm_sched_bitset := b, sched_map := m\<rparr>"
  by (cases s) (auto simp: get_tm_sched_id_def tm_sched_alloc_def Let_def split: if_splits option.splits)

lemma qmp_inv_sched [simp]: "qmp_inv (s\<lparr>tm_sched_bitset := b, sched_map := m\<rparr>) = qmp_inv s"
  by (simp add: qmp_inv_def)

lemma queue_sched_id_invs:
  assumes "queue_sched_id P d nni i n u tp s = (k, s')"
  shows "qmp_inv s' = qmp_inv s" "sched_inv s \<Longrightarrow> sched_inv s'"
proof -
  have "s' = s \<or> s' = snd (get_tm_sched_id (uint i) (uint n) (uint u) d (uint tp) s)"
    using assms by (auto simp: queue_sched_id_def split: if_splits)
  moreover obtain b m where
    "snd (get_tm_sched_id (uint i) (uint n) (uint u) d (uint tp) s) = s\<lparr>tm_sched_bitset := b, sched_map := m\<rparr>"
    using get_tm_sched_id_frame [OF prod.collapse [symmetric]] by blast
  ultimately show "qmp_inv s' = qmp_inv s" "sched_inv s \<Longrightarrow> sched_inv s'"
    using sched_inv_get by (metis qmp_inv_sched, metis)
qed

definition tm_inv :: "olt \<Rightarrow> bool" where
  "tm_inv s \<longleftrightarrow> sched_inv s \<and> qmp_inv s"

lemma tm_inv_ap [simp]: "tm_inv (agent_part s) = tm_inv s"
  by (simp add: tm_inv_def)

lemma tm_inv_agent_part: "agent_part s' = agent_part s \<Longrightarrow> tm_inv s \<Longrightarrow> tm_inv s'"
  by (metis tm_inv_ap)

lemma tm_inv_queue_sched_id: "queue_sched_id P d nni i n u tp s = (k, s') \<Longrightarrow> tm_inv s \<Longrightarrow> tm_inv s'"
  using queue_sched_id_invs by (simp add: tm_inv_def)

lemma tm_inv_other [simp]:
  "tm_inv (s\<lparr>qos_type_map := q\<rparr>) = tm_inv s" "tm_inv (s\<lparr>pon_gem_to_onu_uni_map := g\<rparr>) = tm_inv s"
  "tm_inv (s\<lparr>bal_trace := t\<rparr>) = tm_inv s"
  by (simp_all add: tm_inv_def sched_inv_def qmp_inv_def)

lemma sched_inv_qmp [simp]:
  "sched_inv (s\<lparr>sched_qmp_id_map := a\<rparr>) = sched_inv s"
  "sched_inv (s\<lparr>tm_qmp_bitset := b\<rparr>) = sched_inv s"
  "sched_inv (s\<lparr>qmp_id_to_qmp_map := c\<rparr>) = sched_inv s"
  by (simp_all add: sched_inv_def)

lemma tm_inv_update:
  "tm_inv s \<Longrightarrow> qmp \<in> fst ` set (qmp_id_to_qmp_map s) \<Longrightarrow> tm_inv (update_sched_qmp_id_map key qmp s)"
  by (simp add: tm_inv_def qmp_inv_update) (simp add: update_sched_qmp_id_map_def)

lemma tm_inv_alloc: "tm_inv s \<Longrightarrow> alloc_tm_qmp_id key profile s = (i, s') \<Longrightarrow> tm_inv s'"
  using qmp_inv_alloc [of s key profile i s']
  by (auto simp: tm_inv_def alloc_tm_qmp_id_def update_sched_qmp_id_map_def split: option.splits)

lemma tm_inv_free: "tm_inv s \<Longrightarrow> free_tm_qmp_id P key qmp s = (r, s') \<Longrightarrow> tm_inv s'"
  using qmp_inv_free [of s P key qmp r s']
  by (auto simp: tm_inv_def free_tm_qmp_id_def Let_def split: option.splits if_splits)

lemma tm_inv_CreateProfile:
  "tm_inv s \<Longrightarrow> CreateTrafficQueueMappingProfile P key profile s = (e, s') \<Longrightarrow> tm_inv s'"
  by (auto simp: CreateTrafficQueueMappingProfile_def Let_def bal_err_def bal_call_def
      split: prod.splits if_splits dest: tm_inv_alloc)

lemma tm_inv_CreateQueue:
  "tm_inv s \<Longrightarrow> CreateQueue P d nni i n u qos prio gem tp s = (e, s') \<Longrightarrow> tm_inv s'"
  by (auto simp: CreateQueue_def Let_def bal_err_def bal_call_def
      split: prod.splits if_splits dest!: install_gem_port_cases tm_inv_queue_sched_id
      dest: tm_inv_agent_part)

lemma tm_inv_ensure_profile:
  assumes "tm_inv s" "ensure_profile P req s = Some (r, s')"
  shows "tm_inv s'"
proof (cases "directions_of (tqs_queues req) []")
  case None
  then show ?thesis using assms by (simp add: ensure_profile_def)
next
  case (Some d)
  obtain profile where p: "get_tmq_map_profile (get_valid_queues_pbit_map (map tq_pbit_map (tqs_queues req)))
      (map tq_priority (tqs_queues req)) = Some profile"
    using assms(2) Some by (auto simp: ensure_profile_def split: Option.bind_splits)
  obtain k t where q: "queue_sched_id P d (tqs_network_intf_id req) (tqs_intf_id req)
      (tqs_onu_id req) (tqs_uni_id req) (tqs_tech_profile_id req) s = (k, t)" by fastforce
  have t: "tm_inv t" using tm_inv_queue_sched_id [OF q assms(1)] .
  have "tm_inv (update_sched_qmp_id_map key (get_tm_qmp_id_by_profile profile t) t)"
    if "get_tm_qmp_id_by_profile profile t \<noteq> -1" for key
    using t that find_qmp_mem by (simp add: tm_inv_update get_tm_qmp_id_by_profile_def)
  then show ?thesis using assms(2) Some p q t
    by (auto simp: ensure_profile_def Let_def split: prod.splits if_splits dest: tm_inv_CreateProfile)
qed

lemma tm_inv_create_queues:
  "tm_inv s \<Longrightarrow> create_queues P req qos qs s = (st, s') \<Longrightarrow> tm_inv s'"
proof (induction qs arbitrary: s)
  case Nil
  then show ?case by simp
next
  case (Cons q qs)
  then show ?case
    by (auto simp: Let_def split: prod.splits if_splits dest: tm_inv_CreateQueue)
qed

lemma get_qos_type_frame: "get_qos_type i n u l s = (q, s') \<Longrightarrow> tm_inv s' = tm_inv s"
  by (auto simp: get_qos_type_def Let_def split: option.splits)

lemma tm_inv_CreateTrafficQueues:
  assumes "tm_inv s" "CreateTrafficQueues P req s = Some (st, s')"
  shows "tm_inv s'"
proof -
  obtain q t where t: "get_qos_type (tqs_intf_id req) (tqs_onu_id req) (tqs_uni_id req)
      (length (tqs_queues req)) s = (q, t)" by fastforce
  then have "tm_inv t" using get_qos_type_frame assms(1) by blast
  then show ?thesis using assms(2) t
    by (auto simp: CreateTrafficQueues_def split: Option.bind_splits if_splits option.splits prod.splits
        dest: tm_inv_ensure_profile tm_inv_create_queues)
qed

lemma tm_inv_get_sched:
  "tm_inv s \<Longrightarrow> get_tm_sched_id i n u d tp s = (k, s') \<Longrightarrow> tm_inv s'"
  using get_tm_sched_id_frame [of i n u d tp s k s'] sched_inv_get [of s i n u d tp]
  by (auto simp: tm_inv_def)

lemma tm_inv_RemoveQueue:
  assumes "tm_inv s" "RemoveQueue P d i n u qos prio gem tp s = Some (e, s')"
  shows "tm_inv s'"
proof -
  define t where "t = (if d = upstream \<or> d = downstream
    then snd (remove_gem_port P (sint i) (sint n) (sint u) (sint gem) (board_technology s) s) else s)"
  have "tm_inv t"
  proof (cases "d = upstream \<or> d = downstream")
    case True
    then show ?thesis unfolding t_def
      using remove_gem_port_cases [OF prod.collapse [symmetric]] tm_inv_agent_part assms(1) by simp
  qed (simp add: t_def assms(1))
  moreover define v where "v = (if d = upstream
    then t\<lparr>pon_gem_to_onu_uni_map := (pon_gem_to_onu_uni_map t)((i, gem) := None)\<rparr> else t)"
  ultimately have v: "tm_inv v" by simp
  have "RemoveQueue P d i n u qos prio gem tp s =
     (if d = downstream then
        if is_tm_sched_id_present (uint i) (uint n) (uint u) d (uint tp) v then
          let (sched_id, s) = get_tm_sched_id (uint i) (uint n) (uint u) d (uint tp) v
          in do {
               queue_id \<leftarrow> queue_of_priority prio;
               let (q_set, q_id) = queue_key_ids qos queue_id (sched_id, i, n, u) s;
               Some (bal_err P (Cfg_clear (tm_queue_obj (uint sched_id) q_set q_id)) s)
             }
        else Some (BCM_ERR_OK, v)
      else Some (BCM_ERR_OK, v))"
    by (simp only: RemoveQueue_def Let_def t_def v_def)
  then show ?thesis using assms(2) v
    by (auto simp: Let_def bal_err_def bal_call_def
        split: if_splits prod.splits Option.bind_splits dest: tm_inv_get_sched)
qed

lemma tm_inv_remove_queues:
  "tm_inv s \<Longrightarrow> remove_queues P req qos qs st d s = Some (r, s') \<Longrightarrow> tm_inv s'"
proof (induction qs arbitrary: s st d)
  case Nil
  then show ?case by simp
next
  case (Cons q qs)
  then show ?case
    by (auto simp: Let_def split: prod.splits if_splits Option.bind_splits dest: tm_inv_RemoveQueue)
qed

lemma tm_inv_release_profile:
  "tm_inv s \<Longrightarrow> release_profile P req qos d s = (e, s') \<Longrightarrow> tm_inv s'"
  by (auto simp: release_profile_def RemoveTrafficQueueMappingProfile_def Let_def bal_err_def bal_call_def
      split: prod.splits if_splits dest!: tm_inv_queue_sched_id dest: tm_inv_free)

lemma tm_inv_RemoveTrafficQueues:
  assumes "tm_inv s" "RemoveTrafficQueues P req s = Some (st, s')"
  shows "tm_inv s'"
proof -
  obtain q t where t: "get_qos_type (tqs_intf_id req) (tqs_onu_id req) (tqs_uni_id req)
      (length (tqs_queues req)) s = (q, t)" by fastforce
  then have i: "tm_inv t" using get_qos_type_frame assms(1) by blast
  obtain fin st' d u where r: "remove_queues P req q (tqs_queues req) Status_OK [] t = Some ((fin, st', d), u)"
    using assms(2) t by (auto simp: RemoveTrafficQueues_def split: Option.bind_splits)
  have "tm_inv u" using tm_inv_remove_queues [OF i r] .
  then show ?thesis using assms(2) t r
    by (auto simp: RemoveTrafficQueues_def Let_def clear_qos_type_def split: if_splits prod.splits
        dest: tm_inv_release_profile)
qed

section \<open>What a mapping profile says\<close>

lemma queue_id_list_nth: "k < 8 \<Longrightarrow> queue_id_list ! k = of_nat k"
  by (auto simp: queue_id_list_def less_Suc_eq numeral_eq_Suc)

lemma queue_of_priority_small: "unat p < 8 \<Longrightarrow> queue_of_priority p = Some p"
  using queue_id_list_nth [of "unat p"] by (simp add: queue_of_priority_def) (simp add: queue_id_list_def)

lemma fill_pbits_nth:
  assumes "unat p < 8" "j + length m \<le> length profile"
  shows "\<exists>r. fill_pbits m p j profile = Some r \<and> length r = length profile \<and>
    (\<forall>i<length profile. r ! i =
       (if j \<le> i \<and> i < j + length m \<and> m ! (i - j) = CHR ''1'' then p else profile ! i))"
  using assms
proof (induction m arbitrary: j profile)
  case Nil
  then show ?case by auto
next
  case (Cons c m)
  let ?pr = "if c = CHR ''1'' then profile[j := p] else profile"
  have l: "length ?pr = length profile" by simp
  have "Suc j + length m \<le> length ?pr" using Cons.prems l by simp
  from Cons.IH [OF Cons.prems(1) this]
  obtain r where r: "fill_pbits m p (Suc j) ?pr = Some r" "length r = length profile"
    "\<forall>i<length profile. r ! i =
       (if Suc j \<le> i \<and> i < Suc j + length m \<and> m ! (i - Suc j) = CHR ''1'' then p else ?pr ! i)"
    unfolding l by blast
  have "fill_pbits (c # m) p j profile = Some r"
    using r(1) Cons.prems by (cases "c = CHR ''1''") (simp_all add: queue_of_priority_small)
  moreover have "r ! i = (if j \<le> i \<and> i < j + length (c # m) \<and> (c # m) ! (i - j) = CHR ''1''
      then p else profile ! i)" if "i < length profile" for i
  proof (cases "i = j")
    case True
    then show ?thesis using r(2,3) that by auto
  next
    case False
    then show ?thesis using r(2,3) that by (cases "i < j") (auto simp: nth_Cons' Suc_diff_Suc)
  qed
  ultimately show ?case using r(2) by auto
qed

text \<open>The queue of p-bit \<open>j\<close>: that of the last entry whose map has the bit.\<close>

definition last_queue :: "(string \<times> uint32) list \<Rightarrow> nat \<Rightarrow> uint32 \<Rightarrow> uint32" where
  "last_queue qs j d = last (d # map snd (filter (\<lambda>e. fst e ! j = CHR ''1'') qs))"

lemma last_queue_Cons:
  "last_queue (e # qs) j d = last_queue qs j (if fst e ! j = CHR ''1'' then snd e else d)"
  by (simp add: last_queue_def)

lemma fill_profile_nth:
  assumes "\<forall>e\<in>set qs. length (fst e) = 8 \<and> unat (snd e) < 8" "length profile = 8"
  shows "\<exists>r. fill_profile qs profile = Some r \<and> length r = 8 \<and>
           (\<forall>j<8. r ! j = last_queue qs j (profile ! j))"
  using assms
proof (induction qs arbitrary: profile)
  case Nil
  then show ?case by (simp add: last_queue_def)
next
  case (Cons e qs)
  obtain m p where e: "e = (m, p)" by fastforce
  obtain r where r: "fill_pbits m p 0 profile = Some r" "length r = 8"
    "\<forall>i<8. r ! i = (if m ! i = CHR ''1'' then p else profile ! i)"
    using fill_pbits_nth [of p 0 m profile] Cons.prems by (auto simp: e)
  obtain q where "fill_profile qs r = Some q" "length q = 8" "\<forall>j<8. q ! j = last_queue qs j (r ! j)"
    using Cons.IH [of r] Cons.prems r(2) by auto
  then show ?case using r by (auto simp: e last_queue_Cons)
qed

text \<open>
  C35: for p-bit maps of the documented form, \<open>0b\<close> and eight bits with the lowest p-bit last, and
  priorities below eight, the mapping profile has eight entries; the entry of p-bit \<open>j\<close> is the
  priority of the last queue whose map has that bit, and 0 when none has.
\<close>

theorem tmq_map_profile_correct:
  assumes "\<And>m. m \<in> set maps \<Longrightarrow> \<exists>bits. m = ''0b'' @ bits \<and> length bits = 8"
    and "\<And>p. p \<in> set prios \<Longrightarrow> unat p < 8"
  shows "\<exists>profile. get_tmq_map_profile (get_valid_queues_pbit_map maps) prios = Some profile \<and>
     length profile = 8 \<and>
     (\<forall>j<8. profile ! j =
        last (0 # [p. (m, p) \<leftarrow> zip maps prios, m ! (9 - j) = CHR ''1'']))"
proof -
  let ?v = "get_valid_queues_pbit_map maps"
  have len: "length (rev (drop 2 m)) = 8" and nth: "j < 8 \<Longrightarrow> rev (drop 2 m) ! j = m ! (9 - j)"
    if m: "m \<in> set maps" for m j
  proof -
    obtain bits where b: "m = ''0b'' @ bits" "length bits = 8" using assms(1) m by blast
    then show "length (rev (drop 2 m)) = 8" by simp
    show "rev (drop 2 m) ! j = m ! (9 - j)" if "j < 8"
      using b that by (simp add: rev_nth nth_append)
  qed
  have z: "zip ?v prios = map (\<lambda>(m, p). (rev (drop 2 m), p)) (zip maps prios)"
    by (simp add: get_valid_queues_pbit_map_def zip_map1)
  have "\<forall>e\<in>set (zip ?v prios). length (fst e) = 8 \<and> unat (snd e) < 8"
  proof -
    have "length (rev (drop 2 a)) = 8 \<and> unat b < 8" if "(a, b) \<in> set (zip maps prios)" for a b
      using len [OF set_zip_leftD [OF that]] assms(2) [OF set_zip_rightD [OF that]] by simp
    then show ?thesis by (auto simp: z)
  qed
  from fill_profile_nth [OF this, of "replicate 8 0"]
  obtain r where r: "fill_profile (zip ?v prios) (replicate 8 0) = Some r" "length r = 8"
    "\<forall>j<8. r ! j = last_queue (zip ?v prios) j (replicate 8 0 ! j)"
    by auto
  have "last_queue (zip ?v prios) j 0 = last (0 # [p. (m, p) \<leftarrow> zip maps prios, m ! (9 - j) = CHR ''1''])"
    if "j < 8" for j
  proof -
    have "map snd (filter (\<lambda>e. fst e ! j = CHR ''1'') (map (\<lambda>(m, p). (rev (drop 2 m), p)) es)) =
        [p. (m, p) \<leftarrow> es, m ! (9 - j) = CHR ''1'']" if "set es \<subseteq> set (zip maps prios)" for es
      using that
    proof (induction es)
      case (Cons e es)
      obtain m p where e: "e = (m, p)" by fastforce
      then have "rev (drop 2 m) ! j = m ! (9 - j)"
        using Cons.prems \<open>j < 8\<close> nth by (auto dest: set_zip_leftD)
      then show ?case using Cons e by simp
    qed simp
    then show ?thesis by (simp add: last_queue_def z)
  qed
  then show ?thesis using r by (auto simp: get_tmq_map_profile_def)
qed

lemma tmq_map_profile_correct_witness:
  "get_tmq_map_profile (get_valid_queues_pbit_map [''0b00000101'', ''0b10000001'']) [3, 5]
     = Some [5, 0, 3, 0, 0, 0, 0, 5]"
proof -
  have m: "\<exists>bits. m = ''0b'' @ bits \<and> length bits = 8" if "m \<in> set [''0b00000101'', ''0b10000001'']" for m
    using that by (intro exI [of _ "drop 2 m"]) auto
  have p: "unat p < 8" if "p \<in> set [3, 5]" for p :: uint32
    using that by auto
  have "\<exists>profile. get_tmq_map_profile (get_valid_queues_pbit_map [''0b00000101'', ''0b10000001'']) [3, 5]
      = Some profile"
    using tmq_map_profile_correct [OF m p] by blast
  moreover have "replicate 8 (0 :: uint32) = [0, 0, 0, 0, 0, 0, 0, 0]" by (simp add: numeral_eq_Suc)
  ultimately show ?thesis
    by (simp add: get_tmq_map_profile_def get_valid_queues_pbit_map_def queue_of_priority_def
        queue_id_list_def)
qed

section \<open>Sharing and releasing profiles\<close>

lemma qmp_ref_count_0:
  "om_sorted (<) m \<Longrightarrow> qmp_ref_count q m = 0 \<longleftrightarrow> (\<forall>k. om_find (<) k m \<noteq> Some q)"
  by (auto simp: qmp_ref_count_def filter_empty_conv om_find_iff)

text \<open>
  A mapping profile is released with its last reference: freeing the profile of one scheduler
  answers "no more reference", and takes the profile out of the table, exactly when no other
  scheduler of any subscriber refers to it; otherwise the profile stays as it was.
\<close>

theorem profile_released_with_last_reference:
  assumes "qmp_inv s" "om_find (<) key (sched_qmp_id_map s) = Some q"
    and "free_tm_qmp_id P key q s = (released, s')"
  shows "(released \<longleftrightarrow> (\<forall>k. k \<noteq> key \<longrightarrow> om_find (<) k (sched_qmp_id_map s) \<noteq> Some q)) \<and>
    om_find (<) q (qmp_id_to_qmp_map s') =
      (if released then None else om_find (<) q (qmp_id_to_qmp_map s)) \<and>
    om_find (<) key (sched_qmp_id_map s') = None"
proof -
  have sorted: "om_sorted (<) (qmp_id_to_qmp_map s)" "om_sorted (<) (sched_qmp_id_map s)"
    using assms(1) by (simp_all add: qmp_inv_def)
  have "(key, q) \<in> set (sched_qmp_id_map s)" using assms(2) sorted by (simp add: om_find_iff)
  then have "q \<in> fst ` set (qmp_id_to_qmp_map s)" using assms(1) by (force simp: qmp_inv_def)
  then have ex: "om_find (<) q (qmp_id_to_qmp_map s) \<noteq> None" using sorted by (simp add: om_find_None_iff)
  let ?m = "om_erase (<) key (sched_qmp_id_map s)"
  have m: "om_sorted (<) ?m" using sorted(2) by (rule lin.om_sorted_erase)
  have find_m: "om_find (<) k ?m = (if key = k then None else om_find (<) k (sched_qmp_id_map s))" for k
    using lin.om.find_erase [OF sorted(2), of k key] by simp
  have cnt: "qmp_ref_count q ?m = 0 \<longleftrightarrow>
      (\<forall>k. k \<noteq> key \<longrightarrow> om_find (<) k (sched_qmp_id_map s) \<noteq> Some q)"
    unfolding qmp_ref_count_0 [OF m] find_m by auto
  obtain p where p: "om_find (<) q (qmp_id_to_qmp_map s) = Some p" using ex by blast
  have er: "om_find (<) q (om_erase (<) q (qmp_id_to_qmp_map s)) = None"
    using lin.om.find_erase_same [OF sorted(1)] .
  have r: "free_tm_qmp_id P key q s =
      (if qmp_ref_count q ?m = 0
       then (True, s\<lparr>sched_qmp_id_map := ?m, tm_qmp_bitset := tm_qmp_bitset s - {nat q},
                     qmp_id_to_qmp_map := om_erase (<) q (qmp_id_to_qmp_map s)\<rparr>)
       else (False, s\<lparr>sched_qmp_id_map := ?m\<rparr>))"
    using p by (simp add: free_tm_qmp_id_def)
  have "released \<longleftrightarrow> (\<forall>k. k \<noteq> key \<longrightarrow> om_find (<) k (sched_qmp_id_map s) \<noteq> Some q)"
    using assms(3) r cnt by (simp split: if_splits)
  moreover have "om_find (<) q (qmp_id_to_qmp_map s') =
      (if released then None else om_find (<) q (qmp_id_to_qmp_map s))"
    using assms(3) r er by (auto split: if_splits)
  moreover have "om_find (<) key (sched_qmp_id_map s') = None"
    using assms(3) r find_m [of key] by (auto split: if_splits)
  ultimately show ?thesis by blast
qed

lemma profile_released_with_last_reference_witness:
  "let s = init_olt\<lparr>sched_qmp_id_map := [((1, 0, 1, 0), 0), ((2, 0, 2, 0), 0)],
                    qmp_id_to_qmp_map := [(0, [1, 1, 1, 1, 1, 1, 1, 1])], tm_qmp_bitset := {0}\<rparr>;
       (r1, s1) = free_tm_qmp_id (const_platform ok_rsp) (1, 0, 1, 0) 0 s;
       (r2, s2) = free_tm_qmp_id (const_platform ok_rsp) (2, 0, 2, 0) 0 s1
   in \<not> r1 \<and> r2 \<and> qmp_id_to_qmp_map s1 = qmp_id_to_qmp_map s \<and>
      om_find (<) 0 (qmp_id_to_qmp_map s2) = None"
proof -
  let ?P = "const_platform ok_rsp"
  let ?s = "init_olt\<lparr>sched_qmp_id_map := [((1, 0, 1, 0), 0), ((2, 0, 2, 0), 0)],
       qmp_id_to_qmp_map := [(0, [1, 1, 1, 1, 1, 1, 1, 1])], tm_qmp_bitset := {0}\<rparr>"
  let ?s1 = "?s\<lparr>sched_qmp_id_map := [((2, 0, 2, 0), 0)]\<rparr>"
  have 1: "free_tm_qmp_id ?P (1, 0, 1, 0) 0 ?s = (False, ?s1)"
    by (simp add: free_tm_qmp_id_def qmp_ref_count_def)
  obtain s2 where 2: "free_tm_qmp_id ?P (2, 0, 2, 0) 0 ?s1 = (True, s2)"
    by (simp add: free_tm_qmp_id_def qmp_ref_count_def)
  have "qmp_inv ?s1" by (simp add: qmp_inv_def om_sorted_def MAX_TM_QMP_ID_def)
  then have "om_find (<) 0 (qmp_id_to_qmp_map s2) = None"
    using profile_released_with_last_reference [of ?s1 "(2, 0, 2, 0)" 0 ?P True s2] 2 by simp
  then show ?thesis using 1 2 by simp
qed

lemma find_qmp_hit:
  "(i, profile) \<in> set m \<Longrightarrow> \<forall>e\<in>set m. 0 \<le> fst e \<Longrightarrow> find_qmp profile m \<noteq> -1"
  by (induction m) (auto simp: check_tm_qmp_equality_def list_all_iff split: if_splits)

text \<open>
  A mapping profile BAL refused stays registered: after \<open>CreateTrafficQueueMappingProfile\<close> has
  failed at BAL, the profile is found by its contents and the scheduler refers to it, so that a
  repeated request takes it for a profile that is present and never sends it again.
\<close>

theorem refused_profile_stays_registered:
  assumes "qmp_inv s" "{0..<MAX_TM_QMP_ID} - tm_qmp_bitset s \<noteq> {}"
    and "CreateTrafficQueueMappingProfile P key profile s = (e, s')"
    and "om_find (<) key (sched_qmp_id_map s) = None"
  shows "get_tm_qmp_id_by_profile profile s' \<noteq> -1 \<and> get_tm_qmp_id key s' \<noteq> -1"
proof -
  obtain i where i: "first_free (tm_qmp_bitset s) 0 MAX_TM_QMP_ID = Some i"
    using assms(2) first_free_None [of "tm_qmp_bitset s" 0 MAX_TM_QMP_ID] by auto
  then have "i \<notin> tm_qmp_bitset s" using first_free_Some by blast
  then have new: "int i \<notin> fst ` set (qmp_id_to_qmp_map s)" using assms(1) by (force simp: qmp_inv_def)
  have sorted: "om_sorted (<) (qmp_id_to_qmp_map s)" "om_sorted (<) (sched_qmp_id_map s)"
    using assms(1) by (simp_all add: qmp_inv_def)
  have s': "qmp_id_to_qmp_map s' = om_insert (<) (int i) profile (qmp_id_to_qmp_map s)"
    "sched_qmp_id_map s' = om_insert (<) key (int i) (sched_qmp_id_map s)"
    using assms(3) i by (auto simp: CreateTrafficQueueMappingProfile_def alloc_tm_qmp_id_def
        update_sched_qmp_id_map_def bal_err_def bal_call_def)
  have "set (qmp_id_to_qmp_map s') = insert (int i, profile) (set (qmp_id_to_qmp_map s))"
    using new sorted s' by (simp add: om_insert_set)
  moreover have "\<forall>e\<in>set (qmp_id_to_qmp_map s). 0 \<le> fst e" using assms(1) by (auto simp: qmp_inv_def)
  ultimately have "get_tm_qmp_id_by_profile profile s' \<noteq> -1"
    unfolding get_tm_qmp_id_by_profile_def by (intro find_qmp_hit) auto
  moreover have "om_find (<) key (sched_qmp_id_map s') = Some (int i)"
    using lin.om.find_insert_same [OF sorted(2), of key "int i"] assms(4) s' by simp
  ultimately show ?thesis by (simp add: get_tm_qmp_id_def)
qed

lemma refused_profile_stays_registered_witness:
  "let P = const_platform (ok_rsp\<lparr>r_err := BCM_ERR_INTERNAL\<rparr>);
       (e, s') = CreateTrafficQueueMappingProfile P (0, 0, 1, 0) [3, 3, 3, 3, 3, 3, 3, 3] init_olt
   in e = BCM_ERR_INTERNAL \<and> get_tm_qmp_id_by_profile [3, 3, 3, 3, 3, 3, 3, 3] s' \<noteq> -1"
proof -
  let ?P = "const_platform (ok_rsp\<lparr>r_err := BCM_ERR_INTERNAL\<rparr>)"
  let ?r = "CreateTrafficQueueMappingProfile ?P (0, 0, 1, 0) [3, 3, 3, 3, 3, 3, 3, 3] init_olt"
  have "first_free {} 0 16 = Some 0" by (simp add: first_free.simps)
  then have e: "fst ?r = BCM_ERR_INTERNAL"
    by (simp add: CreateTrafficQueueMappingProfile_def alloc_tm_qmp_id_def MAX_TM_QMP_ID_def
        bal_err_def bal_call_def)
  have "get_tm_qmp_id_by_profile [3, 3, 3, 3, 3, 3, 3, 3] (snd ?r) \<noteq> -1"
    using refused_profile_stays_registered [OF qmp_inv_init _ prod.collapse [symmetric],
        where P = ?P and key = "(0, 0, 1, 0)" and profile = "[3, 3, 3, 3, 3, 3, 3, 3]"] by (simp add: MAX_TM_QMP_ID_def)
  with e show ?thesis by (simp add: split_beta Let_def)
qed

end
