(* ===== verification/Ref_Count.thy ===== *)
theory Ref_Count
  imports Olt_Prelude
begin

text \<open>
  Reference counts kept in a \<open>std::map\<close> of \<open>uint16_t\<close>: the increment and decrement of the code, and
  the invariant that the counts are those of the entries of another map.
\<close>

text \<open>\<open>m[k]--\<close> creates the entry 0 first when there is none; the caller erases a count that reaches 0.\<close>

definition dec_count :: "('k \<rightharpoonup> uint16) \<Rightarrow> 'k \<Rightarrow> uint16 \<times> ('k \<rightharpoonup> uint16)" where
  "dec_count m k = (let n = (case m k of Some n \<Rightarrow> n | None \<Rightarrow> 0) - 1 in (n, m(k \<mapsto> n)))"

definition inc_count :: "('k \<rightharpoonup> uint16) \<Rightarrow> 'k \<Rightarrow> ('k \<rightharpoonup> uint16)" where
  "inc_count m k = m(k \<mapsto> (case m k of Some n \<Rightarrow> n + 1 | None \<Rightarrow> 1))"

definition users :: "('f \<rightharpoonup> 'v) \<Rightarrow> ('f \<Rightarrow> 'v \<Rightarrow> 'k) \<Rightarrow> 'k \<Rightarrow> 'f set" where
  "users g key k = {f. \<exists>v. g f = Some v \<and> key f v = k}"

definition counts :: "('k \<rightharpoonup> uint16) \<Rightarrow> ('f \<rightharpoonup> 'v) \<Rightarrow> ('f \<Rightarrow> 'v \<Rightarrow> 'k) \<Rightarrow> bool" where
  "counts m g key \<longleftrightarrow>
     finite (dom g) \<and> card (dom g) < 2 ^ 16 \<and>
     (\<forall>k. m k = (if users g key k = {} then None else Some (of_nat (card (users g key k)))))"

lemma users_subset: "users g key k \<subseteq> dom g"
  by (auto simp: users_def)

lemma counts_finite: "counts m g key \<Longrightarrow> finite (users g key k)"
  unfolding counts_def using finite_subset [OF users_subset, of g key k] by blast

lemma counts_small: "counts m g key \<Longrightarrow> card (users g key k) < 2 ^ 16"
  unfolding counts_def using card_mono [OF _ users_subset, of g key k] by (meson le_less_trans)

lemma users_add:
  "g f = None \<Longrightarrow> users (g(f \<mapsto> v)) key k = (if key f v = k then insert f (users g key k) else users g key k)"
  by (auto simp: users_def)

lemma users_remove: "users (g(f := None)) key k = users g key k - {f}"
  by (auto simp: users_def)

lemma users_mem: "g f = Some v \<Longrightarrow> f \<in> users g key k \<longleftrightarrow> key f v = k"
  by (auto simp: users_def)

lemma counts_empty [simp]: "counts Map.empty Map.empty key"
  by (simp add: counts_def users_def)

lemma counts_dom: "counts m g key \<Longrightarrow> m k = None \<longleftrightarrow> users g key k = {}"
  by (simp add: counts_def)

lemma counts_add:
  assumes "counts m g key" "g f = None" "card (dom g) < 65535"
  shows "counts (inc_count m (key f v)) (g(f \<mapsto> v)) key"
proof -
  have fin: "finite (dom g)" using assms(1) by (simp add: counts_def)
  note add = users_add [where g = g and f = f, OF assms(2)]
  have nf: "f \<notin> users g key k" for k using assms(2) by (simp add: users_def)
  have "card (dom (g(f \<mapsto> v))) < 2 ^ 16"
    using assms(2,3) fin by (simp add: domIff)
  moreover have "inc_count m (key f v) k =
      (if users (g(f \<mapsto> v)) key k = {} then None else Some (of_nat (card (users (g(f \<mapsto> v)) key k))))" for k
  proof (cases "key f v = k")
    case True
    have "m k = (if users g key k = {} then None else Some (of_nat (card (users g key k))))"
      using assms(1) unfolding counts_def by blast
    then show ?thesis
      using True nf [of k] counts_finite [OF assms(1), of k]
      by (auto simp: inc_count_def add)
  next
    case False
    then show ?thesis using assms(1) by (simp add: inc_count_def add counts_def)
  qed
  ultimately show ?thesis using fin by (simp add: counts_def)
qed

lemma counts_remove:
  assumes "counts m g key" "g f = Some v" "dec_count m (key f v) = (n, m')"
  shows "counts (if n = 0 then m'(key f v := None) else m') (g(f := None)) key"
    and "n = 0 \<longleftrightarrow> users g key (key f v) = {f}"
proof -
  let ?k = "key f v" and ?U = "users g key (key f v)"
  have f: "f \<in> ?U" using assms(2) by (simp add: users_mem)
  have fin: "finite ?U" and small: "card ?U < 2 ^ 16"
    using counts_finite [OF assms(1)] counts_small [OF assms(1)] by blast+
  have mk: "m ?k = Some (of_nat (card ?U))" using assms(1) f by (auto simp: counts_def)
  have pos: "0 < card ?U" using f fin by (auto simp: card_gt_0_iff)
  have n: "n = of_nat (card ?U - 1)" and m': "m' = m(?k \<mapsto> n)"
    using assms(3) mk pos by (auto simp: dec_count_def of_nat_diff Let_def)
  have card: "card (?U - {f}) = card ?U - 1" using f fin by simp
  have lt: "card ?U - 1 < 2 ^ 16" using small by simp
  have "n = 0 \<longleftrightarrow> 2 ^ 16 dvd card ?U - 1"
    unfolding n by (simp only: word_of_nat_eq_0_iff) simp
  also have "\<dots> \<longleftrightarrow> card ?U - 1 = 0" using lt nat_dvd_not_less by fastforce
  also have "\<dots> \<longleftrightarrow> ?U - {f} = {}" using card fin by (metis card_0_eq finite_Diff)
  finally have n0: "n = 0 \<longleftrightarrow> ?U - {f} = {}" .
  then show "n = 0 \<longleftrightarrow> ?U = {f}" using f by auto
  have "finite (dom (g(f := None)))" "card (dom (g(f := None))) < 2 ^ 16"
    using assms(1) by (auto simp: counts_def intro: le_less_trans [OF card_Diff1_le])
  moreover have "(if n = 0 then m'(?k := None) else m') k = (if users (g(f := None)) key k = {} then None
      else Some (of_nat (card (users (g(f := None)) key k))))" for k
  proof (cases "?k = k")
    case True
    then show ?thesis using n0 card n m' by (auto simp: users_remove)
  next
    case False
    then have "users g key k - {f} = users g key k" using assms(2) by (simp add: users_mem)
    then show ?thesis using assms(1) False m' by (simp add: users_remove counts_def)
  qed
  ultimately show "counts (if n = 0 then m'(?k := None) else m') (g(f := None)) key"
    unfolding counts_def by blast
qed

end
