(* ===== verification/Acl.thy ===== *)
theory Acl
  imports Id_Pool Gem_Port Ref_Count
begin

text \<open>
  Trapping packets to the host: the access control lists (ACLs) installed for the classifiers of
  trap-to-host flows, shared and counted by the flows and interfaces that use them
  (\<open>agent/src/core_utils.cc\<close>, the order of the keys from \<open>agent/src/core_data.cc\<close>), the trap branch
  of \<open>FlowRemove_\<close> (\<open>agent/src/core_api_handler.cc\<close>) and the filter on trapped packets.

  The sum by which \<open>operator<\<close> compares two classifiers is an \<open>int\<close> of C++; for the field values a
  classifier can have it does not overflow.
\<close>

section \<open>Classifiers and their order\<close>

record classifier =
  o_vid :: uint32
  i_vid :: uint32
  o_pbits :: uint32
  eth_type :: uint32
  ip_proto :: uint32
  src_port :: uint32
  dst_port :: uint32
  dst_ip :: uint32
  dst_mac :: "int list"
  src_mac :: "int list"
  pkt_tag_type :: string

definition EAP_ETH_TYPE :: uint32 where "EAP_ETH_TYPE = 0x888e"
definition LLDP_ETH_TYPE :: uint32 where "LLDP_ETH_TYPE = 0x88cc"
definition IPV4_ETH_TYPE :: uint32 where "IPV4_ETH_TYPE = 0x0800"
definition VLAN_ETH_TYPE :: uint32 where "VLAN_ETH_TYPE = 0x8100"
definition PPPoED_ETH_TYPE :: uint32 where "PPPoED_ETH_TYPE = 0x8863"

lemmas eth_type_defs = EAP_ETH_TYPE_def LLDP_ETH_TYPE_def IPV4_ETH_TYPE_def VLAN_ETH_TYPE_def
  PPPoED_ETH_TYPE_def

definition acl_key_weight :: "acl_classifier_key \<Rightarrow> int" where
  "acl_key_weight a =
     k_ether_type a + 2 * k_ip_proto a + 3 * k_src_port a + 4 * k_dst_port a + 5 * k_o_vid a"

definition acl_key_lt :: "acl_classifier_key \<Rightarrow> acl_classifier_key \<Rightarrow> bool" where
  "acl_key_lt a b \<longleftrightarrow> acl_key_weight a < acl_key_weight b"

interpretation acl_order: strict_weak acl_key_lt
  by unfold_locales (auto simp: acl_key_lt_def)

lemma acl_equiv_key: "acl_order.equiv_key a b \<longleftrightarrow> acl_key_weight a = acl_key_weight b"
  by (auto simp: acl_order.equiv_key_def acl_key_lt_def)

definition get_trap_to_host_packet_type :: "classifier \<Rightarrow> trap_to_host_packet_type" where
  "get_trap_to_host_packet_type c =
     (if eth_type c = EAP_ETH_TYPE then eap
      else if src_port c = 67 \<or> src_port c = 68 then dhcpv4
      else if eth_type c = LLDP_ETH_TYPE then lldp
      else if ip_proto c = 2 then igmpv4
      else if eth_type c = PPPoED_ETH_TYPE then pppoed
      else unsupported_trap_to_host_pkt_type)"

definition formulate_acl_classifier_key :: "classifier \<Rightarrow> olt \<Rightarrow> acl_classifier_key" where
  "formulate_acl_classifier_key c s =
     \<lparr>k_ether_type = (if eth_type c \<noteq> 0 then i32_of_u32 (eth_type c) else -1),
      k_ip_proto = (if ip_proto c \<noteq> 0 then i16_of_u32 (ip_proto c) else -1),
      k_src_port = (if src_port c \<noteq> 0 then i32_of_u32 (src_port c) else -1),
      k_dst_port = (if dst_port c \<noteq> 0 then i32_of_u32 (dst_port c) else -1),
      k_o_vid = (if o_vid c \<noteq> 0 \<and> \<not> max_acls_with_vlan_classifiers_hit s
                 then i16_of_u32 (o_vid c) else ANY_VLAN)\<rparr>"

section \<open>Installing and removing an ACL\<close>

abbreviation acl_obj :: "int \<Rightarrow> obj_key" where
  "acl_obj i \<equiv> Obj ''access_control'' [i]"

definition intf_type_name :: "bcmolt_interface_type \<Rightarrow> string" where
  "intf_type_name t = (if t = BCMOLT_INTERFACE_TYPE_PON then ''PON'' else ''NNI'')"

datatype members_update_command = MEMBERS_ADD | MEMBERS_REMOVE | MEMBERS_SET

definition update_acl_interface ::
    "platform \<Rightarrow> int \<Rightarrow> bcmolt_interface_type \<Rightarrow> uint32 \<Rightarrow> members_update_command \<Rightarrow> olt \<Rightarrow>
     status \<times> olt" where
  "update_acl_interface P intf_id intf_type acl cmd s =
     (if cmd \<noteq> MEMBERS_ADD \<and> cmd \<noteq> MEMBERS_REMOVE
      then (bcm_to_grpc_err P BCM_ERR_PARM ''unsupported acl cmd'', s)
      else
        let (err, s) = bal_err P (Oper_submit (acl_obj (uint acl)) ''interfaces_update''
              [(''command'', Sym (if cmd = MEMBERS_ADD then ''ADD'' else ''REMOVE'')),
               (''interface_ref_list'', Flds [(''intf_type'', Sym (intf_type_name intf_type)),
                                              (''intf_id'', Num intf_id)])]) s
        in if err \<noteq> BCM_ERR_OK
           then (bcm_to_grpc_err P err ''Access_Control submit interface failed'', s)
           else (Status_OK, s))"

definition acl_classifier_fields :: "acl_classifier_key \<Rightarrow> bool \<Rightarrow> fields" where
  "acl_classifier_fields k max_hit =
     (if k_ether_type k > 0 then [(''ether_type'', Num (k_ether_type k))] else []) @
     (if k_ip_proto k > 0 then [(''ip_proto'', Num (k_ip_proto k))] else []) @
     (if k_dst_port k > 0 then [(''dst_port'', Num (k_dst_port k))] else []) @
     (if k_src_port k > 0 then [(''src_port'', Num (k_src_port k))] else []) @
     (if k_o_vid k > 0 \<and> k_o_vid k \<noteq> ANY_VLAN \<and> \<not> max_hit then [(''o_vid'', Num (k_o_vid k))] else [])"

definition install_acl :: "platform \<Rightarrow> acl_classifier_key \<Rightarrow> olt \<Rightarrow> status \<times> olt" where
  "install_acl P key s =
     (let (acl_id, s) = get_acl_id s
      in if acl_id < 0 then (bcm_to_grpc_err P BCM_ERR_INTERNAL ''exhausted acl id'', s)
         else
           let (err, s) = bal_err P (Cfg_set (acl_obj acl_id)
                 [(''classifier'', Flds (acl_classifier_fields key (max_acls_with_vlan_classifiers_hit s))),
                  (''priority'', Num 10000),
                  (''statistics_control'', Sym ''BCMOLT_CONTROL_STATE_ENABLE''),
                  (''forwarding_action.action'', Sym ''BCMOLT_ACCESS_CONTROL_FWD_ACTION_TYPE_TRAP_TO_HOST'')]) s
           in if err \<noteq> BCM_ERR_OK
              then (bcm_to_grpc_err P err ''Access_Control set configuration failed'', free_acl_id acl_id s)
              else
                let s = s\<lparr>acl_classifier_to_acl_id_map :=
                            om_put acl_key_lt key (word_of_int acl_id) (acl_classifier_to_acl_id_map s)\<rparr>;
                    s = (if k_o_vid key > 0 \<and> k_o_vid key \<noteq> ANY_VLAN \<and>
                            acl_id \<ge> int MAX_ACL_WITH_VLAN_CLASSIFIER
                         then s\<lparr>max_acls_with_vlan_classifiers_hit := True\<rparr> else s)
                in (Status_OK, s))"

definition remove_acl :: "platform \<Rightarrow> int \<Rightarrow> olt \<Rightarrow> status \<times> olt" where
  "remove_acl P acl_id s =
     (let (rsp, s) = bal_call P (Cfg_get (acl_obj acl_id)) s
      in if r_err rsp \<noteq> BCM_ERR_OK
         then (bcm_to_grpc_err P (r_err rsp) ''Access_Control get state failed'', s)
         else if r_config_state rsp = BCMOLT_CONFIG_STATE_CONFIGURED then
           let (err, s) = bal_err P (Cfg_clear (acl_obj acl_id)) s
           in if err \<noteq> BCM_ERR_OK then (Status_of INTERNAL ''Failed to remove Access_Control'', s)
              else (Status_OK, free_acl_id acl_id s)
         else (Status_OK, free_acl_id acl_id s))"

section \<open>The ACL of a trap flow\<close>

definition trap_intf_type :: "string \<Rightarrow> bcmolt_interface_type" where
  "trap_intf_type flow_type =
     (if flow_type = upstream then BCMOLT_INTERFACE_TYPE_PON else BCMOLT_INTERFACE_TYPE_NNI)"

definition trap_intf_name :: "string \<Rightarrow> string" where
  "trap_intf_name flow_type = (if flow_type = upstream then ''pon'' else ''nni'')"

definition intf_ref_key :: "uint16 \<Rightarrow> uint32 \<Rightarrow> string \<Rightarrow> uint16 \<times> uint8 \<times> string" where
  "intf_ref_key acl intf flow_type = (acl, ucast intf, trap_intf_name flow_type)"

text \<open>The ACL of the classifier: the installed one with one more reference, or a new one.\<close>

definition acl_for_classifier ::
    "platform \<Rightarrow> acl_classifier_key \<Rightarrow> olt \<Rightarrow> (status + uint16) \<times> olt" where
  "acl_for_classifier P key s =
     (case om_find acl_key_lt key (acl_classifier_to_acl_id_map s) of
        Some acl \<Rightarrow>
          (Inr acl, s\<lparr>acl_ref_cnt := inc_count (acl_ref_cnt s) acl\<rparr>)
      | None \<Rightarrow>
          let (resp, s) = install_acl P key s
          in if \<not> ok resp then (Inl resp, s)
             else
               let acl = (case om_find acl_key_lt key (acl_classifier_to_acl_id_map s) of
                            Some a \<Rightarrow> a | None \<Rightarrow> 0)
               in (Inr acl, s\<lparr>acl_ref_cnt := (acl_ref_cnt s)(acl \<mapsto> 1)\<rparr>))"

definition register_acl_interface ::
    "platform \<Rightarrow> uint16 \<Rightarrow> uint32 \<Rightarrow> string \<Rightarrow> olt \<Rightarrow> olt" where
  "register_acl_interface P acl intf flow_type s =
     (let k = intf_ref_key acl intf flow_type
      in case intf_acl_registration_ref_cnt s k of
           Some n \<Rightarrow> s\<lparr>intf_acl_registration_ref_cnt := (intf_acl_registration_ref_cnt s)(k \<mapsto> n + 1)\<rparr>
         | None \<Rightarrow>
             let (resp, s) = update_acl_interface P (sint intf) (trap_intf_type flow_type) (ucast acl)
                               MEMBERS_ADD s
             in s\<lparr>intf_acl_registration_ref_cnt := (intf_acl_registration_ref_cnt s)(k \<mapsto> 1)\<rparr>)"

definition record_trap_vlan ::
    "uint64 \<Rightarrow> trap_to_host_pkt_info \<Rightarrow> uint16 \<Rightarrow> int \<Rightarrow> olt \<Rightarrow> olt" where
  "record_trap_vlan flow_id info classifier_vid key_vid s =
     (let s = s\<lparr>trap_pkt_info_with_vlan_for_flow_id :=
                 (trap_pkt_info_with_vlan_for_flow_id s)(flow_id \<mapsto> (info, classifier_vid))\<rparr>;
          vlans = (case trap_vlan_ids_for_pkt_info s info of Some vs \<Rightarrow> vs | None \<Rightarrow> []);
          duplicate = (\<exists>v\<in>set vlans. uint v = key_vid)
      in if duplicate then s
         else s\<lparr>trap_vlan_ids_for_pkt_info :=
                  (trap_vlan_ids_for_pkt_info s)(info \<mapsto> vlans @ [word_of_int key_vid])\<rparr>)"

definition trap_intf_id :: "string \<Rightarrow> int \<Rightarrow> int \<Rightarrow> uint32" where
  "trap_intf_id flow_type access_intf_id network_intf_id =
     u32_of_int (if flow_type = upstream then access_intf_id else network_intf_id)"

definition handle_acl_rule_install ::
    "platform \<Rightarrow> uint64 \<Rightarrow> int \<Rightarrow> string \<Rightarrow> int \<Rightarrow> int \<Rightarrow> classifier \<Rightarrow> olt \<Rightarrow> status \<times> olt" where
  "handle_acl_rule_install P flow_id gemport_id flow_type access_intf_id network_intf_id c s =
     (let intf_id = trap_intf_id flow_type access_intf_id network_intf_id;
          pkt_type = get_trap_to_host_packet_type c
      in if pkt_type = unsupported_trap_to_host_pkt_type
         then (Status_of UNIMPLEMENTED ''unsupported pkt trap type'', s)
         else
           let key = formulate_acl_classifier_key c s
           in if om_find acl_key_lt key (acl_classifier_to_acl_id_map s) \<noteq> None \<and>
                 flow_to_acl_map s (flow_id, flow_type) \<noteq> None
              then (Status_OK, s)
              else
                case acl_for_classifier P key s of
                  (Inl resp, s) \<Rightarrow> (resp, s)
                | (Inr acl, s) \<Rightarrow>
                    let s = register_acl_interface P acl intf_id flow_type s;
                        s = s\<lparr>flow_to_acl_map := (flow_to_acl_map s)((flow_id, flow_type) \<mapsto>
                                                    (sint acl, sint intf_id))\<rparr>;
                        info = (trap_intf_type flow_type, intf_id, pkt_type, gemport_id)
                    in (Status_OK, record_trap_vlan flow_id info (ucast (o_vid c)) (k_o_vid key) s))"

fun erase_acl_value :: "uint16 \<Rightarrow> (acl_classifier_key, uint16) omap \<Rightarrow> (acl_classifier_key, uint16) omap" where
  "erase_acl_value acl [] = []"
| "erase_acl_value acl ((k, a) # m) = (if a = acl then m else (k, a) # erase_acl_value acl m)"

definition unregister_acl_interface :: "platform \<Rightarrow> int \<Rightarrow> int \<Rightarrow> string \<Rightarrow> olt \<Rightarrow> olt" where
  "unregister_acl_interface P acl_id intf_id flow_type s =
     (let k = intf_ref_key (word_of_int acl_id) (u32_of_int intf_id) flow_type;
          (n, m) = dec_count (intf_acl_registration_ref_cnt s) k;
          s = s\<lparr>intf_acl_registration_ref_cnt := m\<rparr>
      in if n = 0 then
           let (resp, s) = update_acl_interface P intf_id (trap_intf_type flow_type)
                             (u32_of_int acl_id) MEMBERS_REMOVE s
           in s\<lparr>intf_acl_registration_ref_cnt := (intf_acl_registration_ref_cnt s)(k := None)\<rparr>
         else s)"

definition release_acl :: "platform \<Rightarrow> int \<Rightarrow> olt \<Rightarrow> olt" where
  "release_acl P acl_id s =
     (let acl = word_of_int acl_id :: uint16;
          (n, m) = dec_count (acl_ref_cnt s) acl;
          s = s\<lparr>acl_ref_cnt := m\<rparr>
      in if n = 0 then
           let (resp, s) = remove_acl P acl_id s
           in s\<lparr>acl_ref_cnt := (acl_ref_cnt s)(acl := None),
                acl_classifier_to_acl_id_map := erase_acl_value acl (acl_classifier_to_acl_id_map s)\<rparr>
         else s)"

definition handle_acl_rule_cleanup :: "platform \<Rightarrow> int \<Rightarrow> int \<Rightarrow> string \<Rightarrow> olt \<Rightarrow> status \<times> olt" where
  "handle_acl_rule_cleanup P acl_id intf_id flow_type s =
     (let s = unregister_acl_interface P acl_id intf_id flow_type s;
          s = release_acl P acl_id s
      in (Status_OK, s))"

text \<open>
  The trap branch of \<open>FlowRemove_\<close>: the result, if the flow has a valid ACL.  The VLAN that is taken
  out of the list is the one of the classifier.
\<close>

definition remove_trap_vlan :: "uint64 \<Rightarrow> olt \<Rightarrow> olt" where
  "remove_trap_vlan flow_id s =
     (case trap_pkt_info_with_vlan_for_flow_id s flow_id of
        None \<Rightarrow> s
      | Some (info, vid) \<Rightarrow>
          (case trap_vlan_ids_for_pkt_info s info of
             None \<Rightarrow> s
           | Some vs \<Rightarrow>
               s\<lparr>trap_vlan_ids_for_pkt_info :=
                   (trap_vlan_ids_for_pkt_info s)(info \<mapsto> removeAll vid vs)\<rparr>))"

definition FlowRemove_trap :: "platform \<Rightarrow> uint64 \<Rightarrow> string \<Rightarrow> olt \<Rightarrow> status option \<times> olt" where
  "FlowRemove_trap P flow_id flow_type s =
     (case flow_to_acl_map s (flow_id, flow_type) of
        None \<Rightarrow> (None, s)
      | Some (acl_id, intf_id) \<Rightarrow>
          if acl_id \<ge> 0 then
            let (resp, s) = handle_acl_rule_cleanup P acl_id intf_id flow_type s
            in if ok resp then
                 (Some resp, remove_trap_vlan flow_id
                    (s\<lparr>flow_to_acl_map := (flow_to_acl_map s)((flow_id, flow_type) := None)\<rparr>))
               else (Some resp, s)
          else (None, s))"

section \<open>Which trapped packets reach the host\<close>

text \<open>
  A packet as the decoder library presents it: the type of its Ethernet layer if it has one, and
  the layers from the first VLAN tag on.  A layer the code reads without checking that it is there
  and of that kind gives \<open>None\<close>.
\<close>

datatype pkt_layer =
    Vlan_layer uint16 uint16 "pkt_layer option"
  | IPv4_layer uint8 "pkt_layer option"
  | Udp_layer uint16
  | Payload_layer

record parsed_packet =
  eth_layer :: "uint16 option"
  vlan_layer :: "pkt_layer option"

definition ipv4_packet_type :: "pkt_layer option \<Rightarrow> trap_to_host_packet_type option option" where
  "ipv4_packet_type l =
     (case l of
        Some (IPv4_layer proto nxt) \<Rightarrow>
          if proto = 17 then
            (case nxt of
               Some (Udp_layer port) \<Rightarrow> Some (if port = 67 \<or> port = 68 then Some dhcpv4 else None)
             | _ \<Rightarrow> None)
          else if proto = 2 then Some (Some igmpv4)
          else Some None
      | _ \<Rightarrow> None)"

text \<open>The verdict of the parse: undefined, decided at once, or a packet type and a VLAN to look up.\<close>

definition classify_tagged ::
    "bcmolt_interface_type \<Rightarrow> uint16 \<Rightarrow> uint16 \<Rightarrow> pkt_layer option \<Rightarrow>
     (bool + trap_to_host_packet_type \<times> uint16) option" where
  "classify_tagged intf_type vid ty nxt =
     (if ty = ucast EAP_ETH_TYPE then Some (Inr (eap, vid))
      else if ty = ucast PPPoED_ETH_TYPE then Some (Inr (pppoed, vid))
      else if ty = ucast IPV4_ETH_TYPE then
        (case ipv4_packet_type nxt of
           None \<Rightarrow> None | Some None \<Rightarrow> Some (Inl False) | Some (Some t) \<Rightarrow> Some (Inr (t, vid)))
      else if ty = ucast VLAN_ETH_TYPE then
        if intf_type = BCMOLT_INTERFACE_TYPE_NNI then Some (Inl True)
        else
          let outer = (if intf_type = BCMOLT_INTERFACE_TYPE_PON then vid else 0)
          in case nxt of
               Some (Vlan_layer _ ty' nxt') \<Rightarrow>
                 if ty' = ucast IPV4_ETH_TYPE then
                   (case ipv4_packet_type nxt' of
                      None \<Rightarrow> None | Some None \<Rightarrow> Some (Inl False) | Some (Some t) \<Rightarrow> Some (Inr (t, outer)))
                 else Some (Inr (unsupported_trap_to_host_pkt_type, outer))
             | _ \<Rightarrow> None
      else Some (Inl False))"

definition is_packet_allowed ::
    "bcmolt_interface_type \<Rightarrow> uint32 \<Rightarrow> int \<Rightarrow> parsed_packet \<Rightarrow> olt \<Rightarrow> bool option" where
  "is_packet_allowed intf_type intf_id gemport_id pkt s =
     (case eth_layer pkt of
        None \<Rightarrow> Some False
      | Some ty \<Rightarrow>
          (case vlan_layer pkt of
             None \<Rightarrow> Some (ty = ucast LLDP_ETH_TYPE \<and> intf_type = BCMOLT_INTERFACE_TYPE_NNI)
           | Some (Vlan_layer vid vty nxt) \<Rightarrow>
               (case classify_tagged intf_type vid vty nxt of
                  None \<Rightarrow> None
                | Some (Inl b) \<Rightarrow> Some b
                | Some (Inr (pkt_type, vlan_id)) \<Rightarrow>
                    (case trap_vlan_ids_for_pkt_info s (intf_type, intf_id, pkt_type, gemport_id) of
                       None \<Rightarrow> Some False
                     | Some vlans \<Rightarrow>
                         Some (\<exists>v\<in>set vlans. v = vlan_id \<or> v = word_of_int ANY_VLAN)))
           | Some _ \<Rightarrow> None))"

text \<open>The packet-in indication of a trapped packet; \<open>None\<close> as service port is BAL's invalid one.\<close>

definition PacketIndication ::
    "bcmolt_interface_type \<Rightarrow> uint32 \<Rightarrow> uint32 option \<Rightarrow> parsed_packet \<Rightarrow> int list \<Rightarrow> olt \<Rightarrow> olt option" where
  "PacketIndication intf_type intf_id svc_port pkt bytes s =
     do {
       allowed \<leftarrow> is_packet_allowed intf_type intf_id
                    (case svc_port of None \<Rightarrow> -1 | Some g \<Rightarrow> uint g) pkt s;
       if \<not> allowed then Some s
       else
         case svc_port of
           None \<Rightarrow> Some (push_ind (Pkt_ind (bcmolt_to_grpc_interface_rf__intf_type intf_type) intf_id None 0 0 bytes) s)
         | Some g \<Rightarrow>
             (case pon_gem_to_onu_uni_map s (intf_id, g) of
                None \<Rightarrow> Some s
              | Some (onu, uni) \<Rightarrow>
                  Some (push_ind (Pkt_ind (bcmolt_to_grpc_interface_rf__intf_type intf_type) intf_id (Some g) onu uni bytes) s))
     }"

section \<open>The invariant of the ACLs\<close>

text \<open>
  The classifiers are an ordered map, no two of them share an ACL, an installed ACL has its bit set,
  and the two reference counts are the numbers of flows that use an ACL and that use it on an
  interface.
\<close>

abbreviation acl_of_flow :: "(uint64 \<times> string) \<Rightarrow> (int \<times> int) \<Rightarrow> uint16" where
  "acl_of_flow f v \<equiv> word_of_int (fst v)"

abbreviation intf_of_flow :: "(uint64 \<times> string) \<Rightarrow> (int \<times> int) \<Rightarrow> uint16 \<times> uint8 \<times> string" where
  "intf_of_flow f v \<equiv> intf_ref_key (word_of_int (fst v)) (u32_of_int (snd v)) (snd f)"

definition acl_inv :: "olt \<Rightarrow> bool" where
  "acl_inv s \<longleftrightarrow>
     om_sorted acl_key_lt (acl_classifier_to_acl_id_map s) \<and>
     distinct (map snd (acl_classifier_to_acl_id_map s)) \<and>
     (\<forall>a\<in>snd ` set (acl_classifier_to_acl_id_map s). unat a < MAX_ACL_ID \<and> unat a \<in> acl_id_bitset s) \<and>
     dom (acl_ref_cnt s) = snd ` set (acl_classifier_to_acl_id_map s) \<and>
     (\<forall>v\<in>ran (flow_to_acl_map s). 0 \<le> fst v \<and> fst v < int MAX_ACL_ID) \<and>
     counts (acl_ref_cnt s) (flow_to_acl_map s) acl_of_flow \<and>
     counts (intf_acl_registration_ref_cnt s) (flow_to_acl_map s) intf_of_flow"

lemma acl_inv_init [simp]: "acl_inv init_olt"
  by (simp add: acl_inv_def om_sorted_def)

lemma acl_inv_ap [simp]: "acl_inv (agent_part s) = acl_inv s"
  unfolding acl_inv_def agent_part_def by simp

lemma acl_inv_agent_part: "agent_part s' = agent_part s \<Longrightarrow> acl_inv s \<Longrightarrow> acl_inv s'"
  by (metis acl_inv_ap)

lemma acl_inv_trap_maps [simp]:
  "acl_inv (s\<lparr>trap_pkt_info_with_vlan_for_flow_id := a\<rparr>) = acl_inv s"
  "acl_inv (s\<lparr>trap_vlan_ids_for_pkt_info := b\<rparr>) = acl_inv s"
  "acl_inv (s\<lparr>bal_trace := t\<rparr>) = acl_inv s"
  by (simp_all add: acl_inv_def)

lemma update_acl_interface_state:
  "update_acl_interface P i t a c s = (r, s') \<Longrightarrow> \<exists>tr. s' = s\<lparr>bal_trace := tr\<rparr>"
  by (auto simp: update_acl_interface_def bal_err_def bal_call_def Let_def split: if_splits)
    (metis olt.surjective olt.update_convs(1))

lemma if_same_form: "x = f y \<Longrightarrow> \<exists>m. (if c then f z else x) = f m"
  by (cases c) auto

lemma install_acl_ok:
  assumes "install_acl P key s = (resp, s')" "ok resp"
  shows "\<exists>i t m. i < MAX_ACL_ID \<and> i \<notin> acl_id_bitset s \<and>
     s' = s\<lparr>acl_id_bitset := insert i (acl_id_bitset s), bal_trace := t,
            acl_classifier_to_acl_id_map :=
              om_put acl_key_lt key (of_nat i) (acl_classifier_to_acl_id_map s),
            max_acls_with_vlan_classifiers_hit := m\<rparr>"
proof -
  obtain a u where g: "get_acl_id s = (a, u)" by fastforce
  then have a: "0 \<le> a \<and> a < int MAX_ACL_ID \<and> nat a \<notin> acl_id_bitset s \<and>
      u = s\<lparr>acl_id_bitset := insert (nat a) (acl_id_bitset s)\<rparr>"
    using get_acl_id_cases [OF g] assms by (auto simp: install_acl_def)
  let ?q = "Cfg_set (acl_obj a)
     [(''classifier'', Flds (acl_classifier_fields key (max_acls_with_vlan_classifiers_hit u))),
      (''priority'', Num 10000), (''statistics_control'', Sym ''BCMOLT_CONTROL_STATE_ENABLE''),
      (''forwarding_action.action'', Sym ''BCMOLT_ACCESS_CONTROL_FWD_ACTION_TYPE_TRAP_TO_HOST'')]"
  let ?X = "s\<lparr>acl_id_bitset := insert (nat a) (acl_id_bitset s), bal_trace := ?q # bal_trace s,
      acl_classifier_to_acl_id_map :=
        om_put acl_key_lt key (word_of_int a) (acl_classifier_to_acl_id_map s)\<rparr>"
  let ?c = "k_o_vid key > 0 \<and> k_o_vid key \<noteq> ANY_VLAN \<and> a \<ge> int MAX_ACL_WITH_VLAN_CLASSIFIER"
  have err: "r_err (bal_respond P (bal_trace s) ?q) = BCM_ERR_OK"
    using assms g a by (auto simp: install_acl_def Let_def bal_err_def bal_call_def split: if_splits)
  have eq: "s' = (if ?c then ?X\<lparr>max_acls_with_vlan_classifiers_hit := True\<rparr> else ?X)"
    using assms(1) g a err
    by (cases ?c) (auto simp: install_acl_def Let_def bal_err_def bal_call_def)
  have "?X = ?X\<lparr>max_acls_with_vlan_classifiers_hit := max_acls_with_vlan_classifiers_hit s\<rparr>"
    by (cases s) simp
  then have "\<exists>m. s' = ?X\<lparr>max_acls_with_vlan_classifiers_hit := m\<rparr>"
    unfolding eq by (rule if_same_form [where f = "\<lambda>m. ?X\<lparr>max_acls_with_vlan_classifiers_hit := m\<rparr>"])
  moreover have "nat a < MAX_ACL_ID" "of_nat (nat a) = (word_of_int a :: uint16)"
    using a by (simp_all add: nat_less_iff)
  ultimately show ?thesis using a by metis
qed

lemma install_acl_fail:
  assumes "install_acl P key s = (resp, s')" "\<not> ok resp"
  shows "\<exists>t. s' = s\<lparr>bal_trace := t\<rparr>"
proof -
  obtain a u where g: "get_acl_id s = (a, u)" by fastforce
  show ?thesis
  proof (cases "a < 0")
    case True
    then have "s' = s" using get_acl_id_cases [OF g] assms g by (auto simp: install_acl_def)
    then show ?thesis by (intro exI [of _ "bal_trace s"]) simp
  next
    case False
    then have a: "0 \<le> a \<and> a < int MAX_ACL_ID \<and> nat a \<notin> acl_id_bitset s \<and>
        u = s\<lparr>acl_id_bitset := insert (nat a) (acl_id_bitset s)\<rparr>"
      using get_acl_id_cases [OF g] by auto
    then show ?thesis using assms g False
      by (auto simp: install_acl_def Let_def bal_err_def bal_call_def free_acl_id_def
          split: if_splits intro!: exI olt.equality)
  qed
qed

text \<open>The part of the invariant about the classifiers.\<close>

definition acl_table :: "(acl_classifier_key, uint16) omap \<Rightarrow> nat set \<Rightarrow> (uint16 \<rightharpoonup> uint16) \<Rightarrow> bool" where
  "acl_table m bits refs \<longleftrightarrow>
     om_sorted acl_key_lt m \<and> distinct (map snd m) \<and>
     (\<forall>a\<in>snd ` set m. unat a < MAX_ACL_ID \<and> unat a \<in> bits) \<and> dom refs = snd ` set m"

lemma acl_inv_alt:
  "acl_inv s \<longleftrightarrow>
     acl_table (acl_classifier_to_acl_id_map s) (acl_id_bitset s) (acl_ref_cnt s) \<and>
     (\<forall>v\<in>ran (flow_to_acl_map s). 0 \<le> fst v \<and> fst v < int MAX_ACL_ID) \<and>
     counts (acl_ref_cnt s) (flow_to_acl_map s) acl_of_flow \<and>
     counts (intf_acl_registration_ref_cnt s) (flow_to_acl_map s) intf_of_flow"
  by (auto simp: acl_inv_def acl_table_def)

lemma acl_table_find: "om_find lt key m = Some a \<Longrightarrow> a \<in> snd ` set m"
  by (induction m) (auto split: if_splits)

lemma acl_for_classifier_ok:
  assumes "acl_inv s" "acl_for_classifier P key s = (Inr acl, t)"
  shows "acl_table (acl_classifier_to_acl_id_map t) (acl_id_bitset t) (acl_ref_cnt t)"
    and "acl_ref_cnt t = inc_count (acl_ref_cnt s) acl" and "unat acl < MAX_ACL_ID"
    and "flow_to_acl_map t = flow_to_acl_map s"
    and "intf_acl_registration_ref_cnt t = intf_acl_registration_ref_cnt s"
proof -
  have tab: "acl_table (acl_classifier_to_acl_id_map s) (acl_id_bitset s) (acl_ref_cnt s)"
    using assms(1) by (simp add: acl_inv_alt)
  have "acl_table (acl_classifier_to_acl_id_map t) (acl_id_bitset t) (acl_ref_cnt t) \<and>
      acl_ref_cnt t = inc_count (acl_ref_cnt s) acl \<and> unat acl < MAX_ACL_ID \<and>
      flow_to_acl_map t = flow_to_acl_map s \<and>
      intf_acl_registration_ref_cnt t = intf_acl_registration_ref_cnt s"
  proof (cases "om_find acl_key_lt key (acl_classifier_to_acl_id_map s)")
    case (Some a)
    then have "acl = a" and t: "t = s\<lparr>acl_ref_cnt := inc_count (acl_ref_cnt s) acl\<rparr>"
      using assms(2) by (auto simp: acl_for_classifier_def)
    then have "acl \<in> snd ` set (acl_classifier_to_acl_id_map s)" using acl_table_find [OF Some] by simp
    then show ?thesis using tab t by (auto simp: acl_table_def inc_count_def)
  next
    case None
    obtain resp u where i: "install_acl P key s = (resp, u)" by fastforce
    then have ok: "ok resp" using assms(2) None by (auto simp: acl_for_classifier_def split: if_splits)
    from install_acl_ok [OF i this] obtain j tr m where j: "j < MAX_ACL_ID" "j \<notin> acl_id_bitset s"
      and u: "u = s\<lparr>acl_id_bitset := insert j (acl_id_bitset s), bal_trace := tr,
            acl_classifier_to_acl_id_map :=
              om_put acl_key_lt key (of_nat j) (acl_classifier_to_acl_id_map s),
            max_acls_with_vlan_classifiers_hit := m\<rparr>" by blast
    have uj: "unat (of_nat j :: uint16) = j" using j(1) by (simp add: MAX_ACL_ID_def unat_of_nat)
    have found: "om_find acl_key_lt key (acl_classifier_to_acl_id_map u) = Some (of_nat j)"
      using acl_order.om.find_put_same [of "acl_classifier_to_acl_id_map s"] tab u
      by (simp add: acl_table_def)
    then have acl: "acl = of_nat j" and t: "t = u\<lparr>acl_ref_cnt := (acl_ref_cnt u)(acl \<mapsto> 1)\<rparr>"
      using assms(2) None i ok by (auto simp: acl_for_classifier_def Let_def)
    have fresh: "of_nat j \<notin> snd ` set (acl_classifier_to_acl_id_map s)"
      using tab j(2) uj by (fastforce simp: acl_table_def)
    then have "acl_ref_cnt s acl = None" using tab acl by (auto simp: acl_table_def)
    then have inc: "(acl_ref_cnt s)(acl \<mapsto> 1) = inc_count (acl_ref_cnt s) acl"
      by (simp add: inc_count_def)
    note put = om_put_new_values [OF None fresh]
    have "acl_table (acl_classifier_to_acl_id_map t) (acl_id_bitset t) (acl_ref_cnt t)"
      using tab put u t acl uj j(1) acl_order.om_sorted_put by (auto simp: acl_table_def)
    then show ?thesis using u t inc acl uj j(1) by simp
  qed
  then show "acl_table (acl_classifier_to_acl_id_map t) (acl_id_bitset t) (acl_ref_cnt t)"
    and "acl_ref_cnt t = inc_count (acl_ref_cnt s) acl" and "unat acl < MAX_ACL_ID"
    and "flow_to_acl_map t = flow_to_acl_map s"
    and "intf_acl_registration_ref_cnt t = intf_acl_registration_ref_cnt s" by blast+
qed

lemma register_acl_interface_ok:
  assumes "register_acl_interface P acl intf d s = t"
  shows "\<exists>tr. t = s\<lparr>bal_trace := tr, intf_acl_registration_ref_cnt :=
       inc_count (intf_acl_registration_ref_cnt s) (intf_ref_key acl intf d)\<rparr>"
proof (cases "intf_acl_registration_ref_cnt s (intf_ref_key acl intf d)")
  case None
  obtain r u where "update_acl_interface P (sint intf) (trap_intf_type d) (ucast acl) MEMBERS_ADD s = (r, u)"
    by fastforce
  moreover from update_acl_interface_state [OF this] obtain tr where "u = s\<lparr>bal_trace := tr\<rparr>" by blast
  ultimately show ?thesis using None assms
    by (auto simp: register_acl_interface_def inc_count_def)
next
  case (Some n)
  then have "t = s\<lparr>bal_trace := bal_trace s, intf_acl_registration_ref_cnt :=
      inc_count (intf_acl_registration_ref_cnt s) (intf_ref_key acl intf d)\<rparr>"
    using assms by (simp add: register_acl_interface_def inc_count_def)
  then show ?thesis by blast
qed

lemma acl_inv_record_trap_vlan [simp]: "acl_inv (record_trap_vlan f i v k s) = acl_inv s"
  by (simp add: record_trap_vlan_def Let_def)

lemma acl_for_classifier_fail:
  "acl_for_classifier P key s = (Inl resp, t) \<Longrightarrow> \<exists>tr. t = s\<lparr>bal_trace := tr\<rparr>"
  by (auto simp: acl_for_classifier_def Let_def split: option.splits prod.splits if_splits
      dest: install_acl_fail)

lemma ran_upd_subset: "ran (m(k \<mapsto> v)) \<subseteq> insert v (ran m)"
  by (auto simp: ran_def split: if_splits)

lemma acl_inv_install:
  assumes inv: "acl_inv s" and new: "flow_to_acl_map s (fl, d) = None"
    and room: "card (dom (flow_to_acl_map s)) < 65535"
    and run: "handle_acl_rule_install P fl gem d ai ni c s = (st, s')"
  shows "acl_inv s'"
proof (cases "get_trap_to_host_packet_type c = unsupported_trap_to_host_pkt_type")
  case True
  then show ?thesis using run inv by (simp add: handle_acl_rule_install_def)
next
  case False
  let ?key = "formulate_acl_classifier_key c s" and ?i = "trap_intf_id d ai ni"
  obtain r t where a: "acl_for_classifier P ?key s = (r, t)" by fastforce
  show ?thesis
  proof (cases r)
    case (Inl resp)
    then show ?thesis using a acl_for_classifier_fail [of P ?key s resp t] run inv False new
      by (auto simp: handle_acl_rule_install_def Let_def)
  next
    case (Inr acl)
    note t = acl_for_classifier_ok [OF inv a [unfolded Inr]]
    obtain tr where reg: "register_acl_interface P acl ?i d t = t\<lparr>bal_trace := tr,
        intf_acl_registration_ref_cnt :=
          inc_count (intf_acl_registration_ref_cnt t) (intf_ref_key acl ?i d)\<rparr>"
      using register_acl_interface_ok by blast
    let ?v = "(sint acl, sint ?i)"
    let ?g = "(flow_to_acl_map s)((fl, d) \<mapsto> ?v)"
    have small: "0 \<le> sint acl \<and> sint acl < int MAX_ACL_ID"
    proof -
      have "unat acl < 33" using t(3) by (simp add: MAX_ACL_ID_def)
      moreover from this have "sint acl = int (unat acl)" by (intro sint16_small) linarith
      moreover have "int MAX_ACL_ID = 33" by (simp add: MAX_ACL_ID_def)
      ultimately show ?thesis by linarith
    qed
    have key: "acl_of_flow (fl, d) ?v = acl" "intf_of_flow (fl, d) ?v = intf_ref_key acl ?i d"
      by (simp_all add: u32_of_int_def)
    have inv': "counts (acl_ref_cnt s) (flow_to_acl_map s) acl_of_flow"
        "counts (intf_acl_registration_ref_cnt s) (flow_to_acl_map s) intf_of_flow"
      using inv by (simp_all add: acl_inv_alt)
    have "counts (inc_count (acl_ref_cnt s) acl) ?g acl_of_flow"
      using counts_add [OF inv'(1) new room, of ?v] key(1) by simp
    moreover have "counts (inc_count (intf_acl_registration_ref_cnt s) (intf_ref_key acl ?i d)) ?g intf_of_flow"
      using counts_add [OF inv'(2) new room, of ?v] key(2) by simp
    moreover have "\<forall>v\<in>ran ?g. 0 \<le> fst v \<and> fst v < int MAX_ACL_ID"
      using inv small ran_upd_subset [of "flow_to_acl_map s" "(fl, d)" ?v]
      by (fastforce simp: acl_inv_alt)
    ultimately have "acl_inv (t\<lparr>bal_trace := tr, intf_acl_registration_ref_cnt :=
          inc_count (intf_acl_registration_ref_cnt t) (intf_ref_key acl ?i d), flow_to_acl_map := ?g\<rparr>)"
      using t by (simp add: acl_inv_alt)
    then show ?thesis using run False new a Inr reg t(4)
      by (auto simp: handle_acl_rule_install_def Let_def)
  qed
qed

lemma erase_acl_value_set:
  "distinct (map snd m) \<Longrightarrow> set (erase_acl_value a m) = {e \<in> set m. snd e \<noteq> a}"
  by (induction m) force+

lemma erase_acl_value_distinct: "distinct (map snd m) \<Longrightarrow> distinct (map snd (erase_acl_value a m))"
proof (induction m)
  case (Cons e m)
  then have "snd ` set (erase_acl_value a m) \<subseteq> snd ` set m" by (auto simp: erase_acl_value_set)
  then show ?case using Cons by (cases e) auto
qed simp

lemma erase_acl_value_sorted: "om_sorted acl_key_lt m \<Longrightarrow> om_sorted acl_key_lt (erase_acl_value a m)"
proof (induction m)
  case (Cons e m)
  have "set (erase_acl_value a m) \<subseteq> set m" by (induction m) (auto split: if_splits)
  then show ?case using Cons by (cases e) (auto simp: om_sorted_def)
qed simp

lemma remove_acl_state:
  assumes "remove_acl P a s = (r, s')"
  shows "acl_classifier_to_acl_id_map s' = acl_classifier_to_acl_id_map s"
    "acl_ref_cnt s' = acl_ref_cnt s" "flow_to_acl_map s' = flow_to_acl_map s"
    "intf_acl_registration_ref_cnt s' = intf_acl_registration_ref_cnt s"
    "acl_id_bitset s - {nat a} \<subseteq> acl_id_bitset s'"
  using assms
  by (auto simp: remove_acl_def bal_err_def bal_call_def free_acl_id_def Let_def split: if_splits)

text \<open>Releasing an ACL whose last flow goes away keeps the table consistent.\<close>

lemma acl_table_release:
  assumes "acl_table m bits refs" "bits - {unat a} \<subseteq> bits'"
  shows "acl_table (erase_acl_value a m) bits' (refs(a := None))"
proof -
  have d: "distinct (map snd m)" using assms(1) by (simp add: acl_table_def)
  have "unat b \<in> bits'" if "b \<in> snd ` set m" "b \<noteq> a" for b
    using assms that unfolding acl_table_def by (metis Diff_iff in_mono singletonD unsigned_word_eqI)
  then show ?thesis
    using assms d
    by (auto simp: acl_table_def erase_acl_value_sorted erase_acl_value_distinct erase_acl_value_set)
qed

lemma unregister_acl_interface_ok:
  assumes "unregister_acl_interface P a i d s = t"
    "dec_count (intf_acl_registration_ref_cnt s) (intf_ref_key (word_of_int a) (u32_of_int i) d) = (n, m)"
  shows "\<exists>tr. t = s\<lparr>bal_trace := tr, intf_acl_registration_ref_cnt :=
       (if n = 0 then m(intf_ref_key (word_of_int a) (u32_of_int i) d := None) else m)\<rparr>"
proof (cases "n = 0")
  case True
  obtain r u where u: "update_acl_interface P i (trap_intf_type d) (u32_of_int a) MEMBERS_REMOVE
      (s\<lparr>intf_acl_registration_ref_cnt := m\<rparr>) = (r, u)" by fastforce
  from update_acl_interface_state [OF this] obtain tr
    where "u = s\<lparr>intf_acl_registration_ref_cnt := m, bal_trace := tr\<rparr>" by auto
  then show ?thesis using True assms u
    by (intro exI [of _ tr]) (cases s; simp add: unregister_acl_interface_def)
next
  case False
  then show ?thesis using assms
    by (intro exI [of _ "bal_trace s"]) (cases s; simp add: unregister_acl_interface_def)
qed

lemma unat_acl:
  assumes "0 \<le> a" "a < int MAX_ACL_ID"
  shows "unat (word_of_int a :: uint16) = nat a"
proof -
  obtain n where n: "a = int n" using nonneg_int_cases [OF assms(1)] by blast
  then have "n < 65536" using assms(2) by (simp add: MAX_ACL_ID_def)
  then show ?thesis using n by (simp add: unat_of_nat)
qed

lemma release_acl_ok:
  assumes run: "release_acl P a s = t" and a: "0 \<le> a" "a < int MAX_ACL_ID"
    and d: "dec_count (acl_ref_cnt s) (word_of_int a) = (n, m)"
    and tab: "acl_table (acl_classifier_to_acl_id_map s) (acl_id_bitset s) (acl_ref_cnt s)"
    and mem: "word_of_int a \<in> dom (acl_ref_cnt s)"
  shows "acl_table (acl_classifier_to_acl_id_map t) (acl_id_bitset t) (acl_ref_cnt t)"
    and "acl_ref_cnt t = (if n = 0 then m(word_of_int a := None) else m)"
    and "flow_to_acl_map t = flow_to_acl_map s"
    and "intf_acl_registration_ref_cnt t = intf_acl_registration_ref_cnt s"
proof -
  let ?acl = "word_of_int a :: uint16"
  have m: "m = (acl_ref_cnt s)(?acl \<mapsto> n)" using d by (auto simp: dec_count_def Let_def)
  obtain r u where u: "remove_acl P a (s\<lparr>acl_ref_cnt := m\<rparr>) = (r, u)" by fastforce
  note st = remove_acl_state [OF u]
  have t: "t = (if n = 0 then u\<lparr>acl_ref_cnt := (acl_ref_cnt u)(?acl := None),
      acl_classifier_to_acl_id_map := erase_acl_value ?acl (acl_classifier_to_acl_id_map u)\<rparr>
    else s\<lparr>acl_ref_cnt := m\<rparr>)"
    unfolding run [symmetric] using d u by (simp add: release_acl_def Let_def)
  show "acl_ref_cnt t = (if n = 0 then m(?acl := None) else m)"
    "flow_to_acl_map t = flow_to_acl_map s"
    "intf_acl_registration_ref_cnt t = intf_acl_registration_ref_cnt s" using t st by simp_all
  show "acl_table (acl_classifier_to_acl_id_map t) (acl_id_bitset t) (acl_ref_cnt t)"
  proof (cases "n = 0")
    case True
    have "acl_table (erase_acl_value ?acl (acl_classifier_to_acl_id_map s)) (acl_id_bitset u)
        ((acl_ref_cnt s)(?acl := None))"
      by (rule acl_table_release [OF tab]) (use st(5) unat_acl [OF a] in simp)
    then show ?thesis using True t st m by simp
  next
    case False
    then show ?thesis using tab mem t m by (auto simp: acl_table_def)
  qed
qed

lemma acl_inv_cleanup:
  assumes inv: "acl_inv s" and fl: "flow_to_acl_map s (f, d) = Some (a, i)"
    and run: "handle_acl_rule_cleanup P a i d s = (r, s')"
  shows "acl_inv (s'\<lparr>flow_to_acl_map := (flow_to_acl_map s)((f, d) := None)\<rparr>)"
    and "flow_to_acl_map s' = flow_to_acl_map s" and "r = Status_OK"
proof -
  let ?acl = "word_of_int a :: uint16" and ?k = "intf_ref_key (word_of_int a) (u32_of_int i) d"
  let ?g' = "(flow_to_acl_map s)((f, d) := None)"
  have a: "0 \<le> a" "a < int MAX_ACL_ID" using inv fl by (auto simp: acl_inv_alt ran_def)
  have cnt: "counts (acl_ref_cnt s) (flow_to_acl_map s) acl_of_flow"
      "counts (intf_acl_registration_ref_cnt s) (flow_to_acl_map s) intf_of_flow"
    and tab: "acl_table (acl_classifier_to_acl_id_map s) (acl_id_bitset s) (acl_ref_cnt s)"
    using inv by (simp_all add: acl_inv_alt)
  obtain n1 m1 where d1: "dec_count (intf_acl_registration_ref_cnt s) ?k = (n1, m1)" by fastforce
  obtain n2 m2 where d2: "dec_count (acl_ref_cnt s) ?acl = (n2, m2)" by fastforce
  have c1: "counts (if n1 = 0 then m1(?k := None) else m1) ?g' intf_of_flow"
    using counts_remove(1) [OF cnt(2) fl] d1 by (simp split: if_split_asm)
  have c2: "counts (if n2 = 0 then m2(?acl := None) else m2) ?g' acl_of_flow"
    using counts_remove(1) [OF cnt(1) fl] d2 by (simp split: if_split_asm)
  obtain tr where t: "unregister_acl_interface P a i d s = s\<lparr>bal_trace := tr,
      intf_acl_registration_ref_cnt := (if n1 = 0 then m1(?k := None) else m1)\<rparr>" (is "_ = ?t")
    using unregister_acl_interface_ok [OF refl d1] by blast
  have mem: "?acl \<in> dom (acl_ref_cnt s)"
    using counts_dom [OF cnt(1), of ?acl] users_mem [of "flow_to_acl_map s" "(f, d)" "(a, i)" acl_of_flow ?acl]
      fl by auto
  have run': "r = Status_OK" "s' = release_acl P a ?t"
    using run t by (simp_all add: handle_acl_rule_cleanup_def)
  then show "r = Status_OK" by blast
  note rel = release_acl_ok [where s = ?t and n = n2 and m = m2, OF run'(2) [symmetric] a]
  have ran: "\<forall>v\<in>ran ?g'. 0 \<le> fst v \<and> fst v < int MAX_ACL_ID"
    using inv unfolding acl_inv_alt ran_def by (auto split: if_splits)
  show "flow_to_acl_map s' = flow_to_acl_map s" using rel(3) d2 tab mem by simp
  show "acl_inv (s'\<lparr>flow_to_acl_map := ?g'\<rparr>)"
    using rel(1,2,4) d2 tab mem c1 c2 ran by (simp add: acl_inv_alt)
qed

lemma acl_classifiers_inv:
  "acl_inv s \<Longrightarrow> om_sorted acl_key_lt (acl_classifier_to_acl_id_map s)"
  by (simp add: acl_inv_def)

lemma word_of_int_of_uint: "uint v = k \<Longrightarrow> word_of_int k = v"
  by auto

lemma update_acl_interface_trap_maps:
  "update_acl_interface P i t a c s = (r, s') \<Longrightarrow>
   trap_pkt_info_with_vlan_for_flow_id s' = trap_pkt_info_with_vlan_for_flow_id s \<and>
   trap_vlan_ids_for_pkt_info s' = trap_vlan_ids_for_pkt_info s"
  by (drule update_acl_interface_state) auto

lemma remove_acl_trap_maps:
  "remove_acl P a s = (r, s') \<Longrightarrow>
   trap_pkt_info_with_vlan_for_flow_id s' = trap_pkt_info_with_vlan_for_flow_id s \<and>
   trap_vlan_ids_for_pkt_info s' = trap_vlan_ids_for_pkt_info s"
  by (auto simp: remove_acl_def bal_err_def bal_call_def free_acl_id_def Let_def split: if_splits)

lemma handle_acl_rule_cleanup_trap_maps:
  assumes "handle_acl_rule_cleanup P a i d s = (r, s')"
  shows "trap_pkt_info_with_vlan_for_flow_id s' = trap_pkt_info_with_vlan_for_flow_id s"
    "trap_vlan_ids_for_pkt_info s' = trap_vlan_ids_for_pkt_info s"
  using assms
  by (auto simp: handle_acl_rule_cleanup_def unregister_acl_interface_def release_acl_def Let_def
      split: prod.splits if_splits dest!: update_acl_interface_trap_maps remove_acl_trap_maps)

section \<open>Properties\<close>

text \<open>
  C13: installing the ACL of a new trap flow keeps the bookkeeping of the ACLs right, whatever BAL
  answers: one ACL per classifier, its bit set, and both reference counts equal to the numbers of
  flows that use the ACL and that use it on an interface.
\<close>

theorem acl_counts_after_install:
  assumes "acl_inv s" "flow_to_acl_map s (fl, d) = None" "card (dom (flow_to_acl_map s)) < 65535"
    and "handle_acl_rule_install P fl gem d ai ni c s = (st, s')"
  shows "acl_inv s'"
  by (rule acl_inv_install) fact+

definition sample_classifier :: "uint32 \<Rightarrow> classifier" where
  "sample_classifier v =
     \<lparr>o_vid = v, i_vid = 0, o_pbits = 255, eth_type = EAP_ETH_TYPE, ip_proto = 0, src_port = 0,
      dst_port = 0, dst_ip = 0, dst_mac = [], src_mac = [], pkt_tag_type = ''single_tag''\<rparr>"

lemma sample_classifier_sel [simp]:
  "o_vid (sample_classifier v) = v" "eth_type (sample_classifier v) = EAP_ETH_TYPE"
  "ip_proto (sample_classifier v) = 0" "src_port (sample_classifier v) = 0"
  "dst_port (sample_classifier v) = 0"
  by (simp_all add: sample_classifier_def)

theorem acl_counts_after_install_witness:
  "acl_inv (snd (handle_acl_rule_install (const_platform ok_rsp) 1 1024 upstream 0 0 (sample_classifier 7) init_olt))"
  by (rule acl_counts_after_install [where s = init_olt and st = "fst (handle_acl_rule_install
        (const_platform ok_rsp) 1 1024 upstream 0 0 (sample_classifier 7) init_olt)"]) (simp_all add: init_olt_sel)

lemma FlowRemove_trap_state:
  assumes "acl_inv s" "FlowRemove_trap P fl d s = (r, s')"
  shows "acl_inv s'" "flow_to_acl_map s' (fl, d) = None"
    "r = (if flow_to_acl_map s (fl, d) = None then None else Some Status_OK)"
proof -
  have "acl_inv s' \<and> flow_to_acl_map s' (fl, d) = None \<and>
      r = (if flow_to_acl_map s (fl, d) = None then None else Some Status_OK)"
  proof (cases "flow_to_acl_map s (fl, d)")
    case None
    then show ?thesis using assms by (simp add: FlowRemove_trap_def)
  next
    case (Some v)
    obtain a i where v: "v = (a, i)" by (cases v)
    obtain q t where q: "handle_acl_rule_cleanup P a i d s = (q, t)" by fastforce
    have a: "0 \<le> a" using assms(1) Some v by (auto simp: acl_inv_alt ran_def)
    note c = acl_inv_cleanup [OF assms(1) Some [unfolded v] q]
    have "s' = remove_trap_vlan fl (t\<lparr>flow_to_acl_map := (flow_to_acl_map s)((fl, d) := None)\<rparr>)"
        "r = Some Status_OK"
      using assms(2) Some v q a c(2,3) by (simp_all add: FlowRemove_trap_def)
    then show ?thesis using c(1) Some by (simp add: remove_trap_vlan_def split: option.splits)
  qed
  then show "acl_inv s'" "flow_to_acl_map s' (fl, d) = None"
    "r = (if flow_to_acl_map s (fl, d) = None then None else Some Status_OK)" by blast+
qed

text \<open>
  C14: removing a trap flow keeps that bookkeeping right whatever BAL answers, drops the flow's
  reference, and reports success exactly for the flows that have an ACL.
\<close>

theorem acl_counts_after_removal:
  assumes "acl_inv s" "FlowRemove_trap P fl d s = (r, s')"
  shows "acl_inv s' \<and> flow_to_acl_map s' (fl, d) = None \<and>
    r = (if flow_to_acl_map s (fl, d) = None then None else Some Status_OK)"
  using FlowRemove_trap_state [OF assms] by blast

theorem acl_counts_after_removal_witness:
  "let s = snd (handle_acl_rule_install (const_platform ok_rsp) 1 1024 upstream 0 0 (sample_classifier 7) init_olt)
   in acl_inv (snd (FlowRemove_trap (const_platform ok_rsp) 1 upstream s))"
proof -
  define s where "s = snd (handle_acl_rule_install (const_platform ok_rsp) 1 1024 upstream 0 0
    (sample_classifier 7) init_olt)"
  have "acl_inv s" unfolding s_def
    by (rule acl_inv_install [where s = init_olt and st = "fst (handle_acl_rule_install
        (const_platform ok_rsp) 1 1024 upstream 0 0 (sample_classifier 7) init_olt)"])
      (simp_all add: init_olt_sel)
  from acl_counts_after_removal [OF this, of "const_platform ok_rsp" 1 upstream] show ?thesis
    unfolding s_def [symmetric] Let_def by (metis prod.collapse)
qed

lemma handle_acl_rule_install_vlan:
  assumes "flow_to_acl_map s (fl, d) = None"
    and "handle_acl_rule_install P fl gem d ai ni c s = (Status_OK, s1)"
    and "info = (trap_intf_type d, trap_intf_id d ai ni, get_trap_to_host_packet_type c, gem)"
  shows "trap_pkt_info_with_vlan_for_flow_id s1 fl = Some (info, ucast (o_vid c))"
    and "\<exists>vs. trap_vlan_ids_for_pkt_info s1 info = Some vs \<and>
           word_of_int (k_o_vid (formulate_acl_classifier_key c s)) \<in> set vs"
    and "\<exists>v. flow_to_acl_map s1 (fl, d) = Some v"
proof -
  have un: "get_trap_to_host_packet_type c \<noteq> unsupported_trap_to_host_pkt_type"
    using assms(2) by (auto simp: handle_acl_rule_install_def)
  obtain a t where t: "acl_for_classifier P (formulate_acl_classifier_key c s) s = (Inr a, t)"
    using assms(1,2) un
    by (cases "acl_for_classifier P (formulate_acl_classifier_key c s) s" rule: prod.exhaust)
      (auto simp: handle_acl_rule_install_def Let_def acl_for_classifier_def split: option.splits prod.splits if_splits sum.splits)
  obtain u where s1: "s1 = record_trap_vlan fl info (ucast (o_vid c))
      (k_o_vid (formulate_acl_classifier_key c s)) u" and u: "flow_to_acl_map u (fl, d) \<noteq> None"
    using assms un t by (fastforce simp: handle_acl_rule_install_def Let_def)
  show "trap_pkt_info_with_vlan_for_flow_id s1 fl = Some (info, ucast (o_vid c))"
    using s1 by (simp add: record_trap_vlan_def Let_def)
  show "\<exists>vs. trap_vlan_ids_for_pkt_info s1 info = Some vs \<and>
           word_of_int (k_o_vid (formulate_acl_classifier_key c s)) \<in> set vs"
    unfolding s1 by (cases "trap_vlan_ids_for_pkt_info u info")
      (auto simp: record_trap_vlan_def Let_def dest!: word_of_int_of_uint)
  show "\<exists>v. flow_to_acl_map s1 (fl, d) = Some v"
    using s1 u by (auto simp: record_trap_vlan_def Let_def)
qed



definition sample_trap_state :: olt where
  "sample_trap_state = snd (handle_acl_rule_install (const_platform ok_rsp) 1 1024 upstream 0 0
     (sample_classifier 0) init_olt)"

lemma sample_trap_installed:
  "handle_acl_rule_install (const_platform ok_rsp) 1 1024 upstream 0 0 (sample_classifier 0) init_olt =
     (Status_OK, sample_trap_state)"
proof -
  have "fst (handle_acl_rule_install (const_platform ok_rsp) 1 1024 upstream 0 0 (sample_classifier 0) init_olt)
      = Status_OK"
   by (code_simp)
  then show ?thesis unfolding sample_trap_state_def by (metis prod.collapse)
qed


lemma i16_of_u32_small: "n < 4096 \<Longrightarrow> i16_of_u32 (of_nat n) = int n"
proof -
  assume n: "n < 4096"
  then have u: "unat (of_nat n :: uint16) = n" by (simp add: unat_of_nat)
  have "(ucast (of_nat n :: uint32) :: uint16) = of_nat n" by transfer (simp add: take_bit_of_nat)
  then show ?thesis using sint16_small [of "of_nat n"] u n by (simp add: i16_of_u32_def)
qed

lemma of_nat_u32_eq_0: "n < 2 ^ 32 \<Longrightarrow> (of_nat n :: uint32) = 0 \<longleftrightarrow> n = 0"
  using nat_dvd_not_less [of n "2 ^ 32"] by (cases "n = 0") (auto simp: word_of_nat_eq_0_iff)

text \<open>
  An ACL that is shared although the classifiers differ.  The map of classifiers is ordered by a
  weighted sum of the fields, so a trap flow for IGMP on VLAN \<open>v + 102\<close> finds the ACL of downstream
  DHCP on VLAN \<open>v\<close> and takes a reference on it, and no ACL for IGMP is configured.
\<close>

theorem colliding_classifiers_share_acl:
  assumes "eth_type c = IPV4_ETH_TYPE" "ip_proto c = 17" "src_port c = 67" "dst_port c = 68"
    and "eth_type c' = IPV4_ETH_TYPE" "ip_proto c' = 2" "src_port c' = 0" "dst_port c' = 0"
    and "0 < unat (o_vid c)" "unat (o_vid c) < 4095 - 102" "o_vid c' = o_vid c + 102"
    and "\<not> max_acls_with_vlan_classifiers_hit s"
    and "om_find acl_key_lt (formulate_acl_classifier_key c s) (acl_classifier_to_acl_id_map s) = Some a"
  shows "formulate_acl_classifier_key c' s \<noteq> formulate_acl_classifier_key c s \<and>
    acl_for_classifier P (formulate_acl_classifier_key c' s) s =
      (Inr a, s\<lparr>acl_ref_cnt := inc_count (acl_ref_cnt s) a\<rparr>)"
proof -
  let ?k = "formulate_acl_classifier_key c s" and ?k' = "formulate_acl_classifier_key c' s"
  obtain n where n: "o_vid c = of_nat n" "0 < n" "n < 4095 - 102"
    using assms(9,10) that [of "unat (o_vid c)"] by simp
  have v: "i16_of_u32 (of_nat m) = int m" if "m < 4096" for m
    using that by (simp add: i16_of_u32_small)
  have nz: "(of_nat n :: uint32) \<noteq> 0" "(of_nat (n + 102) :: uint32) \<noteq> 0"
    using n of_nat_u32_eq_0 [of n] of_nat_u32_eq_0 [of "n + 102"] by (simp_all del: of_nat_add)
  have "o_vid c' = of_nat (n + 102)" using n assms(11) by simp
  then have k': "k_o_vid ?k' = int (n + 102)"
    using v [of "n + 102"] nz(2) n(3) assms(12) by (simp add: formulate_acl_classifier_key_def del: of_nat_add)
  have k: "k_o_vid ?k = int n"
    using v [of n] nz(1) n assms(12) by (simp add: formulate_acl_classifier_key_def)
  have "acl_key_weight ?k' = acl_key_weight ?k"
    using k k' assms(1-8) unfolding acl_key_weight_def
    by (simp add: formulate_acl_classifier_key_def IPV4_ETH_TYPE_def i16_of_u32_def i32_of_u32_def)
  then have eq: "acl_order.equiv_key ?k' ?k" by (simp add: acl_equiv_key)
  have "om_find acl_key_lt ?k' m = om_find acl_key_lt ?k m" for m :: "(acl_classifier_key, uint16) omap"
    using eq by (induction m) (auto simp: acl_key_lt_def acl_equiv_key)
  then have "acl_for_classifier P ?k' s = (Inr a, s\<lparr>acl_ref_cnt := inc_count (acl_ref_cnt s) a\<rparr>)"
    using assms(13) by (simp add: acl_for_classifier_def)
  moreover have "?k' \<noteq> ?k" using k k' by auto
  ultimately show ?thesis by blast
qed


theorem colliding_classifiers_share_acl_witness:
  "let dhcp = (sample_classifier 7)\<lparr>eth_type := IPV4_ETH_TYPE, ip_proto := 17, src_port := 67, dst_port := 68\<rparr>;
       igmp = (sample_classifier 109)\<lparr>eth_type := IPV4_ETH_TYPE, ip_proto := 2\<rparr>;
       s = init_olt\<lparr>acl_classifier_to_acl_id_map := [(formulate_acl_classifier_key dhcp init_olt, 0)]\<rparr>
   in formulate_acl_classifier_key igmp s \<noteq> formulate_acl_classifier_key dhcp s \<and>
      acl_for_classifier (const_platform ok_rsp) (formulate_acl_classifier_key igmp s) s =
        (Inr 0, s\<lparr>acl_ref_cnt := [0 \<mapsto> 1]\<rparr>)"
proof -
  define dhcp where "dhcp = (sample_classifier 7)\<lparr>eth_type := IPV4_ETH_TYPE, ip_proto := 17, src_port := 67, dst_port := 68\<rparr>"
  define igmp where "igmp = (sample_classifier 109)\<lparr>eth_type := IPV4_ETH_TYPE, ip_proto := 2\<rparr>"
  define s where "s = init_olt\<lparr>acl_classifier_to_acl_id_map := [(formulate_acl_classifier_key dhcp init_olt, 0)]\<rparr>"
  have "formulate_acl_classifier_key dhcp s = formulate_acl_classifier_key dhcp init_olt"
    by (simp add: s_def formulate_acl_classifier_key_def)
  then have "om_find acl_key_lt (formulate_acl_classifier_key dhcp s) (acl_classifier_to_acl_id_map s) = Some 0"
    by (simp add: s_def acl_key_lt_def)
  moreover have "\<not> max_acls_with_vlan_classifiers_hit s" by (simp add: s_def init_olt_sel)
  ultimately have "formulate_acl_classifier_key igmp s \<noteq> formulate_acl_classifier_key dhcp s \<and>
      acl_for_classifier (const_platform ok_rsp) (formulate_acl_classifier_key igmp s) s =
        (Inr 0, s\<lparr>acl_ref_cnt := inc_count (acl_ref_cnt s) 0\<rparr>)"
    by (intro colliding_classifiers_share_acl) (simp_all add: dhcp_def igmp_def)
  moreover have "inc_count (acl_ref_cnt s) 0 = [0 \<mapsto> 1]" by (simp add: s_def init_olt_sel inc_count_def)
  ultimately show ?thesis unfolding Let_def dhcp_def [symmetric] igmp_def [symmetric] s_def [symmetric] by simp
qed

text \<open>
  The filter on double tagged packets.  A double tagged IPv4 packet from the network side always
  reaches the host; one from a PON reaches it only when it is DHCP or IGMP and its outer VLAN, or
  any VLAN, is trapped for packets of its kind on its GEM port.
\<close>

theorem double_tagged_packet_filter:
  assumes "eth_layer pkt = Some ty"
    and "vlan_layer pkt = Some (Vlan_layer outer (ucast VLAN_ETH_TYPE)
           (Some (Vlan_layer inner (ucast IPV4_ETH_TYPE) (Some (IPv4_layer proto (Some (Udp_layer port)))))))"
  shows "is_packet_allowed BCMOLT_INTERFACE_TYPE_NNI i g pkt s = Some True \<and>
    is_packet_allowed BCMOLT_INTERFACE_TYPE_PON i g pkt s =
      Some (\<exists>t vs. t = (if proto = 2 then igmpv4 else dhcpv4) \<and>
        (proto = 2 \<or> proto = 17 \<and> (port = 67 \<or> port = 68)) \<and>
        trap_vlan_ids_for_pkt_info s (BCMOLT_INTERFACE_TYPE_PON, i, t, g) = Some vs \<and>
        (outer \<in> set vs \<or> 4095 \<in> set vs))"
  using assms
  by (auto simp: is_packet_allowed_def classify_tagged_def ipv4_packet_type_def eth_type_defs ANY_VLAN_def
      split: option.split)

definition sample_dhcp_packet :: "uint16 \<Rightarrow> parsed_packet" where
  "sample_dhcp_packet outer = \<lparr>eth_layer = Some 0x8100,
     vlan_layer = Some (Vlan_layer outer 0x8100
       (Some (Vlan_layer 200 0x0800 (Some (IPv4_layer 17 (Some (Udp_layer 68)))))))\<rparr>"

theorem double_tagged_packet_filter_witness:
  "is_packet_allowed BCMOLT_INTERFACE_TYPE_PON 0 1024 (sample_dhcp_packet 7) init_olt = Some False \<and>
   is_packet_allowed BCMOLT_INTERFACE_TYPE_PON 0 1024 (sample_dhcp_packet 7)
     (init_olt\<lparr>trap_vlan_ids_for_pkt_info := [(BCMOLT_INTERFACE_TYPE_PON, 0, dhcpv4, 1024) \<mapsto> [3, 7]]\<rparr>) = Some True"
  using double_tagged_packet_filter [of "sample_dhcp_packet 7" "0x8100" 7 200 17 68]
  by (simp add: sample_dhcp_packet_def eth_type_defs init_olt_sel)

text \<open>
  What a packet indication does.  Whenever the filter has a verdict the handler ends, it queues
  nothing for a packet that is not allowed or whose GEM port no flow has registered, and otherwise
  exactly one packet-in with the ONU and the UNI of that GEM port and the packet unchanged.
\<close>

theorem packet_indication_outcome:
  assumes "is_packet_allowed t i (uint g) pkt s = Some allowed"
  shows "PacketIndication t i (Some g) pkt bytes s =
    Some (case pon_gem_to_onu_uni_map s (i, g) of
            None \<Rightarrow> s
          | Some (onu, uni) \<Rightarrow>
              if allowed
              then s\<lparr>oltIndQ := oltIndQ s @ [Pkt_ind (bcmolt_to_grpc_interface_rf__intf_type t) i (Some g) onu uni bytes]\<rparr>
              else s)"
  using assms by (auto simp: PacketIndication_def push_ind_def split: option.split)

theorem packet_indication_outcome_witness:
  "PacketIndication BCMOLT_INTERFACE_TYPE_NNI 0 (Some 1024) (sample_dhcp_packet 7) [1, 2] init_olt = Some init_olt"
  using packet_indication_outcome [of BCMOLT_INTERFACE_TYPE_NNI 0 1024 "sample_dhcp_packet 7" init_olt True "[1, 2]"]
  by (simp add: is_packet_allowed_def classify_tagged_def sample_dhcp_packet_def eth_type_defs init_olt_sel)

end
