(* ===== verification/Flow.thy ===== *)
theory Flow
  imports Traffic_Queues Acl
begin

text \<open>
  Device flows (\<open>agent/src/core_api_handler.cc\<close>): one device flow is configured or removed by
  \<open>FlowAdd_\<close> and \<open>FlowRemove_\<close>; the VOLTHA flows made of them are in theory \<open>Voltha_Flow\<close>.  The build defines \<open>FLOW_CHECKER\<close> and not \<open>SCALE_AND_PERF\<close>
  (\<open>agent/Makefile.in\<close>), so duplicate flows are looked for and statistics are on.

  \<open>FlowAdd_\<close> has sixteen arguments; the model takes the request record with the fields the wrapper
  overwrites (the ONU, the GEM port and the p-bits of the classifier), the device flow id and the
  encryption flag.  A field of a message that is not set is 0: the structures are cleared first.
\<close>

section \<open>Requests\<close>

record action_cmd =
  add_outer_tag :: bool
  remove_outer_tag :: bool
  translate_outer_tag :: bool
  trap_to_host :: bool

record flow_action =
  a_cmd :: action_cmd
  a_o_vid :: uint32
  a_o_pbits :: uint32
  a_i_vid :: uint32
  a_i_pbits :: uint32

text \<open>The two protobuf maps are lists of pairs in the order of the iteration.\<close>

record flow =
  access_intf_id :: int
  onu_id :: int
  uni_id :: int
  network_intf_id :: int
  port_no :: uint32
  flow_id :: uint64
  flow_type :: string
  gemport_id :: int
  f_classifier :: classifier
  f_action :: flow_action
  priority :: int
  cookie :: uint64
  group_id :: int
  tech_profile_id :: uint32
  replicate_flow :: bool
  pbit_to_gemport :: "(uint32 \<times> uint32) list"
  gemport_to_aes :: "(uint32 \<times> bool) list"

section \<open>The message of a device flow\<close>

definition flow_key_type :: "string \<Rightarrow> bcmolt_flow_type option" where
  "flow_key_type t =
     (if t = upstream then Some BCMOLT_FLOW_TYPE_UPSTREAM
      else if t = downstream then Some BCMOLT_FLOW_TYPE_DOWNSTREAM
      else if t = multicast then Some BCMOLT_FLOW_TYPE_MULTICAST
      else None)"

abbreviation flow_obj :: "uint16 \<Rightarrow> bcmolt_flow_type \<Rightarrow> obj_key" where
  "flow_obj f t \<equiv> Obj ''flow'' [uint f, int (flow_type_num t)]"

definition intf_fields :: "string \<Rightarrow> string \<Rightarrow> int \<Rightarrow> fields" where
  "intf_fields side t i = [(side @ ''.intf_type'', Sym (''BCMOLT_FLOW_INTERFACE_TYPE_'' @ t)),
                           (side @ ''.intf_id'', Num i)]"

definition flow_intf_fields :: "bcmolt_flow_type \<Rightarrow> int \<Rightarrow> int \<Rightarrow> fields" where
  "flow_intf_fields t access network =
     (if t = BCMOLT_FLOW_TYPE_UPSTREAM
      then intf_fields ''ingress_intf'' ''PON'' access @ intf_fields ''egress_intf'' ''NNI'' network
      else if t = BCMOLT_FLOW_TYPE_DOWNSTREAM
      then intf_fields ''ingress_intf'' ''NNI'' network @ intf_fields ''egress_intf'' ''PON'' access
      else [])"

definition unicast_fields :: "platform \<Rightarrow> bcmolt_flow_type \<Rightarrow> flow \<Rightarrow> fields" where
  "unicast_fields P t r =
     flow_intf_fields t (access_intf_id r) (network_intf_id r) @
     (if onu_id r \<ge> ONU_ID_START then [(''onu_id'', Num (onu_id r))] else []) @
     (if gemport_id r \<ge> GEM_PORT_ID_START P then [(''svc_port_id'', Num (gemport_id r))] else []) @
     (if priority r \<ge> 0 then [(''priority'', Num (priority r))] else [])"

definition multicast_fields :: "flow \<Rightarrow> fields" where
  "multicast_fields r =
     (if group_id r \<ge> 0 then [(''group_id'', Num (group_id r))] else []) @
     intf_fields ''ingress_intf'' ''NNI'' (network_intf_id r)"

text \<open>The ports and GEM ports the agent remembers for a unicast flow.\<close>

definition record_flow_port :: "platform \<Rightarrow> bcmolt_flow_type \<Rightarrow> uint16 \<Rightarrow> flow \<Rightarrow> olt \<Rightarrow> olt" where
  "record_flow_port P t f r s =
     (if gemport_id r \<ge> GEM_PORT_ID_START P \<and> port_no r \<noteq> 0 then
        if t = BCMOLT_FLOW_TYPE_DOWNSTREAM then
          s\<lparr>port_to_flows := (port_to_flows s)(port_no r \<mapsto>
               insert (ucast f) (case port_to_flows s (port_no r) of Some fs \<Rightarrow> fs | None \<Rightarrow> {})),
            flowid_to_gemport := (flowid_to_gemport s)(ucast f \<mapsto> u32_of_int (gemport_id r))\<rparr>
        else s\<lparr>flowid_to_port := (flowid_to_port s)(ucast f \<mapsto> port_no r)\<rparr>
      else s)"

definition opt_num :: "string \<Rightarrow> uint32 \<Rightarrow> fields" where
  "opt_num f v = (if v \<noteq> 0 then [(f, Num (uint v))] else [])"

definition tag_fields :: "classifier \<Rightarrow> fields" where
  "tag_fields c =
     (let pbits = (if o_pbits c \<noteq> 0xFF then [(''o_pbits'', Num (uint (o_pbits c)))] else [])
      in if pkt_tag_type c = ''untagged''
         then [(''pkt_tag_type'', Sym ''BCMOLT_PKT_TAG_TYPE_UNTAGGED'')]
         else if pkt_tag_type c = ''single_tag''
         then (''pkt_tag_type'', Sym ''BCMOLT_PKT_TAG_TYPE_SINGLE_TAG'') # pbits
         else if pkt_tag_type c = ''double_tag''
         then (''pkt_tag_type'', Sym ''BCMOLT_PKT_TAG_TYPE_DOUBLE_TAG'') # pbits
         else [])"

definition flow_classifier_fields :: "platform \<Rightarrow> classifier \<Rightarrow> olt \<Rightarrow> fields" where
  "flow_classifier_fields P c s =
     opt_num ''ether_type'' (eth_type c) @
     (if dst_mac c \<noteq> [] then [(''dst_mac'', Bytes (copied_bytes P s 6 (dst_mac c)))] else []) @
     (if src_mac c \<noteq> [] then [(''src_mac'', Bytes (copied_bytes P s 6 (src_mac c)))] else []) @
     opt_num ''ip_proto'' (ip_proto c) @
     opt_num ''dst_ip'' (dst_ip c) @
     opt_num ''src_port'' (src_port c) @
     opt_num ''dst_port'' (dst_port c) @
     (if pkt_tag_type c \<noteq> [] then opt_num ''o_vid'' (o_vid c) @ opt_num ''i_vid'' (i_vid c) @ tag_fields c
      else [])"

definition flow_action_fields :: "flow_action \<Rightarrow> fields" where
  "flow_action_fields a =
     (if add_outer_tag (a_cmd a)
      then [(''cmds_bitmask'', Sym ''BCMOLT_ACTION_CMD_ID_ADD_OUTER_TAG'')] else []) @
     (if remove_outer_tag (a_cmd a)
      then [(''cmds_bitmask'', Sym ''BCMOLT_ACTION_CMD_ID_REMOVE_OUTER_TAG'')] else []) @
     (if translate_outer_tag (a_cmd a)
      then [(''cmds_bitmask'', Sym ''BCMOLT_ACTION_CMD_ID_XLATE_OUTER_TAG'')] else []) @
     opt_num ''o_vid'' (a_o_vid a) @ opt_num ''o_pbits'' (a_o_pbits a) @
     opt_num ''i_vid'' (a_i_vid a) @ opt_num ''i_pbits'' (a_i_pbits a)"

definition fixed_queue_fields :: "int \<Rightarrow> fields" where
  "fixed_queue_fields sched =
     [(''egress_qos.type'', Sym ''BCMOLT_EGRESS_QOS_TYPE_FIXED_QUEUE''),
      (''egress_qos.tm_sched.id'', Num sched), (''egress_qos.u.fixed_queue.queue_id'', Num 0)]"

definition priority_queue_fields :: "int \<Rightarrow> int \<Rightarrow> fields" where
  "priority_queue_fields sched qmp =
     [(''egress_qos.type'', Sym ''BCMOLT_EGRESS_QOS_TYPE_PRIORITY_TO_QUEUE''),
      (''egress_qos.tm_sched.id'', Num sched), (''egress_qos.u.priority_to_queue.tm_qmp_id'', Num qmp),
      (''egress_qos.u.priority_to_queue.tm_q_set_id'', Num qmp)]"

definition qos_fields ::
    "egress_qos_type \<Rightarrow> uint32 \<Rightarrow> uint32 \<Rightarrow> uint32 \<Rightarrow> uint32 \<Rightarrow> olt \<Rightarrow> fields" where
  "qos_fields qos sched intf onu uni s =
     (if qos = QOS_FIXED_QUEUE then fixed_queue_fields (uint sched)
      else if qos = QOS_PRIORITY_TO_QUEUE
      then priority_queue_fields (uint sched) (get_tm_qmp_id (sched, intf, onu, uni) s)
      else [])"

definition flow_qos :: "platform \<Rightarrow> bcmolt_flow_type \<Rightarrow> flow \<Rightarrow> olt \<Rightarrow> fields \<times> olt" where
  "flow_qos P t r s =
     (let nni_sched = u32_of_int (get_default_tm_sched_id P (network_intf_id r) upstream)
      in if access_intf_id r \<ge> 0 \<and> onu_id r \<ge> ONU_ID_START then
           let intf = u32_of_int (access_intf_id r); onu = u32_of_int (onu_id r); uni = u32_of_int (uni_id r);
               (qos, s) = get_qos_type intf onu uni 0 s
           in if t = BCMOLT_FLOW_TYPE_DOWNSTREAM then
                let (sched, s) = get_tm_sched_id (access_intf_id r) (onu_id r) (uni_id r) downstream
                                   (uint (tech_profile_id r)) s
                in (qos_fields qos sched intf onu uni s, s)
              else if t = BCMOLT_FLOW_TYPE_UPSTREAM
              then (qos_fields qos nni_sched intf onu uni s, s)
              else ([], s)
         else (fixed_queue_fields (uint nni_sched), s))"

section \<open>The duplicate check\<close>

datatype flow_cfg =
    ONU_ID | FLOW_TYPE | SVC_PORT_ID | PRIORITY | COOKIE | INGRESS_INTF_TYPE | EGRESS_INTF_TYPE
  | INGRESS_INTF_ID | EGRESS_INTF_ID | CLASSIFIER_O_VID | CLASSIFIER_O_PBITS | CLASSIFIER_I_VID
  | CLASSIFIER_I_PBITS | CLASSIFIER_ETHER_TYPE | CLASSIFIER_IP_PROTO | CLASSIFIER_SRC_PORT
  | CLASSIFIER_DST_PORT | CLASSIFIER_PKT_TAG_TYPE | EGRESS_QOS_TYPE | EGRESS_QOS_QUEUE_ID
  | EGRESS_QOS_TM_SCHED_ID | ACTION_CMDS_BITMASK | ACTION_O_VID | ACTION_O_PBITS | ACTION_I_VID
  | ACTION_I_PBITS | STATE | GROUP_ID

text \<open>The value of the answer a data id reads, for enumerations the number of the constant.\<close>

text \<open>The cases of the query, each function falling through to the next one.\<close>

fun flow_action_value :: "platform \<Rightarrow> bal_rsp \<Rightarrow> flow_cfg \<Rightarrow> int" where
  "flow_action_value P rsp ACTION_CMDS_BITMASK = r_num rsp ''action.cmds_bitmask''"
| "flow_action_value P rsp ACTION_O_VID = r_num rsp ''action.o_vid''"
| "flow_action_value P rsp ACTION_O_PBITS = r_num rsp ''action.o_pbits''"
| "flow_action_value P rsp ACTION_I_VID = r_num rsp ''action.i_vid''"
| "flow_action_value P rsp ACTION_I_PBITS = r_num rsp ''action.i_pbits''"
| "flow_action_value P rsp STATE = enum_value P (r_sym rsp ''state'')"
| "flow_action_value P rsp GROUP_ID = r_num rsp ''group_id''"
| "flow_action_value P rsp _ = errno_value P BCM_ERR_INTERNAL"

fun flow_qos_value :: "platform \<Rightarrow> bal_rsp \<Rightarrow> flow_cfg \<Rightarrow> int" where
  "flow_qos_value P rsp EGRESS_QOS_TYPE = enum_value P (r_sym rsp ''egress_qos.type'')"
| "flow_qos_value P rsp EGRESS_QOS_QUEUE_ID =
     (let q = r_sym rsp ''egress_qos.type''
      in if q = ''BCMOLT_EGRESS_QOS_TYPE_FIXED_QUEUE'' then r_num rsp ''egress_qos.u.fixed_queue.queue_id''
         else if q = ''BCMOLT_EGRESS_QOS_TYPE_TC_TO_QUEUE'' then r_num rsp ''egress_qos.u.tc_to_queue.tc_to_queue_id''
         else if q = ''BCMOLT_EGRESS_QOS_TYPE_PBIT_TO_TC'' then r_num rsp ''egress_qos.u.pbit_to_tc.tc_to_queue_id''
         else if q = ''BCMOLT_EGRESS_QOS_TYPE_PRIORITY_TO_QUEUE''
         then r_num rsp ''egress_qos.u.priority_to_queue.tm_q_set_id''
         else -1)"
| "flow_qos_value P rsp EGRESS_QOS_TM_SCHED_ID = r_num rsp ''egress_qos.tm_sched.id''"
| "flow_qos_value P rsp d = flow_action_value P rsp d"

fun flow_classifier_value :: "platform \<Rightarrow> bal_rsp \<Rightarrow> flow_cfg \<Rightarrow> int" where
  "flow_classifier_value P rsp CLASSIFIER_O_VID = r_num rsp ''classifier.o_vid''"
| "flow_classifier_value P rsp CLASSIFIER_O_PBITS = r_num rsp ''classifier.o_pbits''"
| "flow_classifier_value P rsp CLASSIFIER_I_VID = r_num rsp ''classifier.i_vid''"
| "flow_classifier_value P rsp CLASSIFIER_I_PBITS = r_num rsp ''classifier.i_pbits''"
| "flow_classifier_value P rsp CLASSIFIER_ETHER_TYPE = r_num rsp ''classifier.ether_type''"
| "flow_classifier_value P rsp CLASSIFIER_IP_PROTO = r_num rsp ''classifier.ip_proto''"
| "flow_classifier_value P rsp CLASSIFIER_SRC_PORT = r_num rsp ''classifier.src_port''"
| "flow_classifier_value P rsp CLASSIFIER_DST_PORT = r_num rsp ''classifier.dst_port''"
| "flow_classifier_value P rsp CLASSIFIER_PKT_TAG_TYPE = enum_value P (r_sym rsp ''classifier.pkt_tag_type'')"
| "flow_classifier_value P rsp d = flow_qos_value P rsp d"

fun flow_cfg_value :: "platform \<Rightarrow> bal_rsp \<Rightarrow> bcmolt_flow_type \<Rightarrow> flow_cfg \<Rightarrow> int" where
  "flow_cfg_value P rsp t ONU_ID = r_num rsp ''onu_id''"
| "flow_cfg_value P rsp t FLOW_TYPE = int (flow_type_num t)"
| "flow_cfg_value P rsp t SVC_PORT_ID = r_num rsp ''svc_port_id''"
| "flow_cfg_value P rsp t PRIORITY = r_num rsp ''priority''"
| "flow_cfg_value P rsp t COOKIE = r_num rsp ''cookie''"
| "flow_cfg_value P rsp t INGRESS_INTF_TYPE = enum_value P (r_sym rsp ''ingress_intf.intf_type'')"
| "flow_cfg_value P rsp t EGRESS_INTF_TYPE = enum_value P (r_sym rsp ''egress_intf.intf_type'')"
| "flow_cfg_value P rsp t INGRESS_INTF_ID = r_num rsp ''ingress_intf.intf_id''"
| "flow_cfg_value P rsp t EGRESS_INTF_ID = r_num rsp ''egress_intf.intf_id''"
| "flow_cfg_value P rsp t d = flow_classifier_value P rsp d"

text \<open>A failed query returns the error number as if it were the value.\<close>

definition get_flow_status ::
    "platform \<Rightarrow> uint16 \<Rightarrow> bcmolt_flow_type \<Rightarrow> flow_cfg \<Rightarrow> olt \<Rightarrow> uint64 \<times> olt" where
  "get_flow_status P f t d s =
     (let (rsp, s) = bal_call P (Cfg_get (flow_obj f t)) s
      in (if r_err rsp \<noteq> BCM_ERR_OK then word_of_int (errno_value P (r_err rsp))
          else word_of_int (flow_cfg_value P rsp t d), s))"

text \<open>The value of a field of a message: the last one set, or 0.\<close>

definition field_num :: "platform \<Rightarrow> fields \<Rightarrow> string \<Rightarrow> uint64" where
  "field_num P fs f =
     (case map_of (rev fs) f of
        Some (Num n) \<Rightarrow> word_of_int n
      | Some (Sym x) \<Rightarrow> word_of_int (enum_value P x)
      | _ \<Rightarrow> 0)"

text \<open>The queue id is a member of a union, read whatever member was set.\<close>

definition union_queue_id :: "platform \<Rightarrow> fields \<Rightarrow> olt \<Rightarrow> uint64" where
  "union_queue_id P cfg s =
     (if map_of (rev cfg) ''egress_qos.u.priority_to_queue.tm_q_set_id'' \<noteq> None
      then word_of_int (uninit_u P s ''egress_qos.u.fixed_queue.queue_id'')
      else field_num P cfg ''egress_qos.u.fixed_queue.queue_id'')"

definition flow_checks :: "platform \<Rightarrow> fields \<Rightarrow> fields \<Rightarrow> fields \<Rightarrow> olt \<Rightarrow> (flow_cfg \<times> uint64) list" where
  "flow_checks P cfg c a s =
     [(SVC_PORT_ID, field_num P cfg ''svc_port_id''), (PRIORITY, field_num P cfg ''priority''),
      (COOKIE, field_num P cfg ''cookie''),
      (INGRESS_INTF_TYPE, field_num P cfg ''ingress_intf.intf_type''),
      (INGRESS_INTF_ID, field_num P cfg ''ingress_intf.intf_id''),
      (EGRESS_INTF_TYPE, field_num P cfg ''egress_intf.intf_type''),
      (EGRESS_INTF_ID, field_num P cfg ''egress_intf.intf_id''),
      (CLASSIFIER_O_VID, field_num P c ''o_vid''), (CLASSIFIER_O_PBITS, field_num P c ''o_pbits''),
      (CLASSIFIER_I_VID, field_num P c ''i_vid''), (CLASSIFIER_I_PBITS, field_num P c ''i_pbits''),
      (CLASSIFIER_ETHER_TYPE, field_num P c ''ether_type''), (CLASSIFIER_IP_PROTO, field_num P c ''ip_proto''),
      (CLASSIFIER_SRC_PORT, field_num P c ''src_port''), (CLASSIFIER_DST_PORT, field_num P c ''dst_port''),
      (CLASSIFIER_PKT_TAG_TYPE, field_num P c ''pkt_tag_type''),
      (EGRESS_QOS_TYPE, field_num P cfg ''egress_qos.type''),
      (EGRESS_QOS_QUEUE_ID, union_queue_id P cfg s),
      (EGRESS_QOS_TM_SCHED_ID, field_num P cfg ''egress_qos.tm_sched.id''),
      (ACTION_CMDS_BITMASK, field_num P a ''cmds_bitmask''), (ACTION_O_VID, field_num P a ''o_vid''),
      (ACTION_I_VID, field_num P a ''i_vid''), (ACTION_O_PBITS, field_num P a ''o_pbits''),
      (ACTION_I_PBITS, field_num P a ''i_pbits''), (STATE, field_num P cfg ''state''),
      (GROUP_ID, field_num P cfg ''group_id'')]"

fun status_matches ::
    "platform \<Rightarrow> uint16 \<Rightarrow> bcmolt_flow_type \<Rightarrow> (flow_cfg \<times> uint64) list \<Rightarrow> olt \<Rightarrow> bool \<times> olt" where
  "status_matches P f t [] s = (True, s)"
| "status_matches P f t ((d, v) # cs) s =
     (let (w, s) = get_flow_status P f t d s
      in if v = w then status_matches P f t cs s else (False, s))"

fun find_duplicate ::
    "platform \<Rightarrow> bcmolt_flow_type \<Rightarrow> uint64 \<Rightarrow> (flow_cfg \<times> uint64) list \<Rightarrow>
     (uint16 \<times> bcmolt_flow_type, int) omap \<Rightarrow> olt \<Rightarrow> bool \<times> olt" where
  "find_duplicate P t onu cs [] s = (False, s)"
| "find_duplicate P t onu cs (((f, t'), _) # m) s =
     (let (v, s) = get_flow_status P f t' ONU_ID s;
          (b, s) = (if onu = v \<and> t = t' then status_matches P f t' cs s else (False, s))
      in if b then (True, s) else find_duplicate P t onu cs m s)"

section \<open>Adding and removing a device flow\<close>

text \<open>The message of a flow, its classifier and its action; then what is done with it.\<close>

definition flow_message ::
    "platform \<Rightarrow> bcmolt_flow_type \<Rightarrow> flow \<Rightarrow> olt \<Rightarrow> (fields \<times> fields \<times> fields) \<times> olt" where
  "flow_message P t r s =
     (let c = flow_classifier_fields P (f_classifier r) s;
          a = flow_action_fields (f_action r);
          (qos, s) = flow_qos P t r s
      in (((''cookie'', Num (uint (cookie r))) #
           (if t \<noteq> BCMOLT_FLOW_TYPE_MULTICAST then unicast_fields P t r else multicast_fields r) @
           [(''classifier'', Flds c), (''action'', Flds a)] @ qos @
           [(''state'', Sym ''BCMOLT_FLOW_STATE_ENABLE'')] @
           (if t \<noteq> BCMOLT_FLOW_TYPE_MULTICAST then [(''statistics'', Sym ''BCMOLT_CONTROL_STATE_ENABLE'')]
            else []), c, a), s))"

definition commit_flow :: "platform \<Rightarrow> bcmolt_flow_type \<Rightarrow> uint16 \<Rightarrow> flow \<Rightarrow> bool \<Rightarrow> fields \<Rightarrow> olt \<Rightarrow> status \<times> olt" where
  "commit_flow P t f r aes cfg s =
     (let (err, s) = bal_err P (Cfg_set (flow_obj f t) cfg) s
      in if err \<noteq> BCM_ERR_OK then (bcm_to_grpc_err P err ''flow add failed'', s)
         else
           let s = s\<lparr>flow_map := om_put (<) (f, t) (int (length (flow_map s))) (flow_map s)\<rparr>;
               s = s\<lparr>flow_id_counters := of_nat (length (flow_map s))\<rparr>
           in if aes \<and> access_intf_id r \<ge> 0 \<and> gemport_id r \<ge> GEM_PORT_ID_START P \<and>
                 t = BCMOLT_FLOW_TYPE_DOWNSTREAM
              then (Status_OK, snd (enable_encryption_for_gem_port P (access_intf_id r) (gemport_id r)
                                      (board_technology s) s))
              else (Status_OK, s))"

definition FlowAdd :: "platform \<Rightarrow> uint16 \<Rightarrow> bool \<Rightarrow> flow \<Rightarrow> olt \<Rightarrow> status \<times> olt" where
  "FlowAdd P f aes r s =
     (case flow_key_type (flow_type r) of
        None \<Rightarrow> (bcm_to_grpc_err P BCM_ERR_PARM ''Invalid flow type'', s)
      | Some t \<Rightarrow>
          if trap_to_host (a_cmd (f_action r)) then
            handle_acl_rule_install P (ucast f) (gemport_id r) (flow_type r) (access_intf_id r)
              (network_intf_id r) (f_classifier r) s
          else if t \<noteq> BCMOLT_FLOW_TYPE_MULTICAST \<and> \<not> (access_intf_id r \<ge> 0 \<and> network_intf_id r \<ge> 0)
          then (bcm_to_grpc_err P BCM_ERR_PARM ''flow network setting invalid'', s)
          else
            let s = (if t \<noteq> BCMOLT_FLOW_TYPE_MULTICAST then record_flow_port P t f r s else s);
                ((cfg, c, a), s) = flow_message P t r s;
                (dup, s) = (if flow_id_counters s \<noteq> 0
                            then find_duplicate P t (field_num P cfg ''onu_id'') (flow_checks P cfg c a s)
                                   (flow_map s) s
                            else (False, s))
            in if dup then (bcm_to_grpc_err P BCM_ERR_ALREADY ''flow exists'', s)
               else commit_flow P t f r aes cfg s)"

definition forget_flow_port :: "bcmolt_flow_type \<Rightarrow> uint16 \<Rightarrow> olt \<Rightarrow> olt" where
  "forget_flow_port t f s =
     (let port = (case flowid_to_port s (ucast f) of Some p \<Rightarrow> p | None \<Rightarrow> 0);
          s = s\<lparr>flowid_to_port := (flowid_to_port s)(ucast f \<mapsto> port)\<rparr>
      in if t = BCMOLT_FLOW_TYPE_DOWNSTREAM then
           let fs = (case port_to_flows s port of Some fs \<Rightarrow> fs | None \<Rightarrow> {}) - {ucast f}
           in s\<lparr>flowid_to_gemport := (flowid_to_gemport s)(ucast f := None),
                port_to_flows := (port_to_flows s)(port := (if fs = {} then None else Some fs))\<rparr>
         else s\<lparr>flowid_to_port := (flowid_to_port s)(ucast f := None)\<rparr>)"

definition FlowRemove :: "platform \<Rightarrow> uint16 \<Rightarrow> string \<Rightarrow> olt \<Rightarrow> status \<times> olt" where
  "FlowRemove P f ftype s =
     (case flow_key_type ftype of
        None \<Rightarrow> (bcm_to_grpc_err P BCM_ERR_PARM ''Invalid flow type'', s)
      | Some t \<Rightarrow>
          (case FlowRemove_trap P (ucast f) ftype s of
             (Some resp, s) \<Rightarrow> (resp, s)
           | (None, s) \<Rightarrow>
               let s = forget_flow_port t f s;
                   (err, s) = bal_err P (Cfg_clear (flow_obj f t)) s
               in if err \<noteq> BCM_ERR_OK then (Status_of INTERNAL ''Failed to remove flow'', s)
                  else
                    let s = (if flow_id_counters s \<noteq> 0 \<and> om_find (<) (f, t) (flow_map s) \<noteq> None
                             then s\<lparr>flow_id_counters := flow_id_counters s - 1,
                                    flow_map := om_erase (<) (f, t) (flow_map s)\<rparr>
                             else s)
                    in (Status_OK, s\<lparr>flow_to_acl_map := (flow_to_acl_map s)((ucast f, ftype) := None)\<rparr>)))"

section \<open>What the operations leave alone\<close>

text \<open>The part of the state the ACL handlers never touch.\<close>

definition acl_rest :: "olt \<Rightarrow> olt" where
  "acl_rest s = s\<lparr>bal_trace := [], acl_id_bitset := {}, acl_classifier_to_acl_id_map := [],
     flow_to_acl_map := Map.empty, acl_ref_cnt := Map.empty, intf_acl_registration_ref_cnt := Map.empty,
     max_acls_with_vlan_classifiers_hit := False, trap_pkt_info_with_vlan_for_flow_id := Map.empty,
     trap_vlan_ids_for_pkt_info := Map.empty\<rparr>"

lemma acl_rest_updates [simp]:
  "acl_rest (s\<lparr>bal_trace := t\<rparr>) = acl_rest s"
  "acl_rest (s\<lparr>acl_ref_cnt := a\<rparr>) = acl_rest s"
  "acl_rest (s\<lparr>acl_id_bitset := b\<rparr>) = acl_rest s"
  "acl_rest (s\<lparr>acl_classifier_to_acl_id_map := c\<rparr>) = acl_rest s"
  "acl_rest (s\<lparr>flow_to_acl_map := d\<rparr>) = acl_rest s"
  "acl_rest (s\<lparr>intf_acl_registration_ref_cnt := e\<rparr>) = acl_rest s"
  "acl_rest (s\<lparr>max_acls_with_vlan_classifiers_hit := h\<rparr>) = acl_rest s"
  "acl_rest (s\<lparr>trap_pkt_info_with_vlan_for_flow_id := i\<rparr>) = acl_rest s"
  "acl_rest (s\<lparr>trap_vlan_ids_for_pkt_info := j\<rparr>) = acl_rest s"
  by (simp_all add: acl_rest_def)

lemma acl_rest_bal [simp]:
  "acl_rest (snd (bal_call P q s)) = acl_rest s" "acl_rest (snd (bal_err P q s)) = acl_rest s"
  by (simp_all add: bal_call_def bal_err_def)

lemma acl_rest_free_acl_id [simp]: "acl_rest (free_acl_id a s) = acl_rest s"
  by (simp add: free_acl_id_def)

lemma acl_rest_get_acl_id: "get_acl_id s = (i, s') \<Longrightarrow> acl_rest s' = acl_rest s"
  by (drule get_acl_id_cases) auto

lemma acl_rest_update_acl_interface: "update_acl_interface P i t a c s = (r, s') \<Longrightarrow> acl_rest s' = acl_rest s"
  by (drule update_acl_interface_state) auto

lemma acl_rest_acl_for_classifier: "acl_for_classifier P key s = (r, s') \<Longrightarrow> acl_rest s' = acl_rest s"
  by (auto simp: acl_for_classifier_def install_acl_def bal_err_def bal_call_def Let_def
      split: option.splits prod.splits if_splits dest: acl_rest_get_acl_id)

lemma acl_rest_record_trap_vlan [simp]: "acl_rest (record_trap_vlan f i v k s) = acl_rest s"
  by (simp add: record_trap_vlan_def Let_def)

lemma acl_rest_register [simp]: "acl_rest (register_acl_interface P a i d s) = acl_rest s"
  using register_acl_interface_ok [OF refl, of P a i d s] by auto

lemma acl_rest_install: "handle_acl_rule_install P f g d ai ni c s = (r, s') \<Longrightarrow> acl_rest s' = acl_rest s"
  by (auto simp: handle_acl_rule_install_def Let_def split: prod.splits sum.splits if_splits
      dest!: acl_rest_acl_for_classifier)

lemma acl_rest_remove_acl: "remove_acl P a s = (r, s') \<Longrightarrow> acl_rest s' = acl_rest s"
  by (auto simp: remove_acl_def bal_err_def bal_call_def Let_def split: if_splits)

lemma acl_rest_cleanup: "handle_acl_rule_cleanup P a i d s = (r, s') \<Longrightarrow> acl_rest s' = acl_rest s"
  by (auto simp: handle_acl_rule_cleanup_def unregister_acl_interface_def release_acl_def Let_def
      split: prod.splits if_splits dest!: acl_rest_update_acl_interface acl_rest_remove_acl)

lemma acl_rest_remove_trap: "FlowRemove_trap P f d s = (r, s') \<Longrightarrow> acl_rest s' = acl_rest s"
  by (auto simp: FlowRemove_trap_def remove_trap_vlan_def
      split: option.splits prod.splits if_splits dest!: acl_rest_cleanup)

text \<open>The bookkeeping of the wrappers: the ids in use, the installed flows and their symmetric flows.\<close>

definition flow_book :: "olt \<Rightarrow> nat set \<times> (uint64 \<rightharpoonup> device_flow) \<times> (symmetric_key \<rightharpoonup> uint64)" where
  "flow_book s = (flow_id_bitset s, voltha_flow_to_device_flow s, symmetric_datapath_flow_id_map s)"

lemma flow_book_updates [simp]:
  "flow_book (s\<lparr>bal_trace := t\<rparr>) = flow_book s"
  "flow_book (s\<lparr>flow_to_acl_map := d\<rparr>) = flow_book s"
  "flow_book (s\<lparr>flow_map := k\<rparr>) = flow_book s"
  "flow_book (s\<lparr>flow_id_counters := l\<rparr>) = flow_book s"
  "flow_book (s\<lparr>flowid_to_port := m\<rparr>) = flow_book s"
  "flow_book (s\<lparr>flowid_to_gemport := n\<rparr>) = flow_book s"
  "flow_book (s\<lparr>port_to_flows := q\<rparr>) = flow_book s"
  "flow_book (s\<lparr>qos_type_map := r\<rparr>) = flow_book s"
  "flow_book (s\<lparr>tm_sched_bitset := u\<rparr>) = flow_book s"
  "flow_book (s\<lparr>sched_map := v\<rparr>) = flow_book s"
  by (simp_all add: flow_book_def)

lemma flow_book_acl_rest: "acl_rest s' = acl_rest s \<Longrightarrow> flow_book s' = flow_book s"
proof -
  have "flow_book (acl_rest t) = flow_book t" for t by (simp add: flow_book_def acl_rest_def)
  then show "acl_rest s' = acl_rest s \<Longrightarrow> flow_book s' = flow_book s" by metis
qed

lemma tm_inv_acl_rest: "acl_rest s' = acl_rest s \<Longrightarrow> tm_inv s \<Longrightarrow> tm_inv s'"
proof -
  have "tm_inv (acl_rest t) = tm_inv t" for t
    by (simp add: tm_inv_def sched_inv_def qmp_inv_def acl_rest_def)
  then show "acl_rest s' = acl_rest s \<Longrightarrow> tm_inv s \<Longrightarrow> tm_inv s'" by metis
qed

lemma tm_inv_flow_maps [simp]:
  "tm_inv (s\<lparr>flow_to_acl_map := d\<rparr>) = tm_inv s"
  "tm_inv (s\<lparr>flow_map := k\<rparr>) = tm_inv s"
  "tm_inv (s\<lparr>flow_id_counters := l\<rparr>) = tm_inv s"
  "tm_inv (s\<lparr>flowid_to_port := m\<rparr>) = tm_inv s"
  "tm_inv (s\<lparr>flowid_to_gemport := n\<rparr>) = tm_inv s"
  "tm_inv (s\<lparr>port_to_flows := q\<rparr>) = tm_inv s"
  by (simp_all add: tm_inv_def sched_inv_def qmp_inv_def)

lemma acl_inv_flow_maps [simp]:
  "acl_inv (s\<lparr>flow_map := k\<rparr>) = acl_inv s"
  "acl_inv (s\<lparr>flow_id_counters := l\<rparr>) = acl_inv s"
  "acl_inv (s\<lparr>flowid_to_port := m\<rparr>) = acl_inv s"
  "acl_inv (s\<lparr>flowid_to_gemport := n\<rparr>) = acl_inv s"
  "acl_inv (s\<lparr>port_to_flows := q\<rparr>) = acl_inv s"
  "acl_inv (s\<lparr>qos_type_map := r\<rparr>) = acl_inv s"
  "acl_inv (s\<lparr>tm_sched_bitset := u\<rparr>) = acl_inv s"
  "acl_inv (s\<lparr>sched_map := v\<rparr>) = acl_inv s"
  by (simp_all add: acl_inv_def)

lemma flow_book_agent_part:
  assumes "agent_part s' = agent_part s"
  shows "flow_book s' = flow_book s"
  by (simp only: flow_book_def agent_partD(12,15,16) [OF assms])

lemma agent_part_encryption [simp]:
  "agent_part (snd (enable_encryption_for_gem_port P i g b s)) = agent_part s"
  by (metis enable_encryption_frame prod.collapse)

lemmas agent_part_encryptionD = flow_book_agent_part [OF agent_part_encryption]
  acl_inv_agent_part [OF agent_part_encryption] tm_inv_agent_part [OF agent_part_encryption]

lemma flow_book_get_tm_sched_id: "get_tm_sched_id p n u d t s = (i, s') \<Longrightarrow> flow_book s' = flow_book s"
  by (auto simp: get_tm_sched_id_def tm_sched_alloc_def Let_def split: option.splits if_splits)

lemma flow_book_flow_qos: "flow_qos P t r s = (fs, s') \<Longrightarrow> flow_book s' = flow_book s"
  by (auto simp: flow_qos_def get_qos_type_def Let_def split: option.splits prod.splits if_splits
      dest!: flow_book_get_tm_sched_id)

lemma flow_book_message: "flow_message P t r s = (m, s') \<Longrightarrow> flow_book s' = flow_book s"
  by (auto simp: flow_message_def Let_def split: prod.splits dest: flow_book_flow_qos)

lemma agent_part_status: "get_flow_status P f t d s = (v, s') \<Longrightarrow> agent_part s' = agent_part s"
  by (auto simp: get_flow_status_def bal_call_def split: prod.splits)

lemma agent_part_status_matches: "status_matches P f t cs s = (b, s') \<Longrightarrow> agent_part s' = agent_part s"
  by (induction P f t cs s rule: status_matches.induct)
    (auto split: prod.splits if_splits dest: agent_part_status)

lemma agent_part_find_duplicate: "find_duplicate P t onu cs m s = (b, s') \<Longrightarrow> agent_part s' = agent_part s"
proof (induction P t onu cs m s rule: find_duplicate.induct)
  case (2 P t onu cs f t' i m s)
  obtain v u where v: "get_flow_status P f t' ONU_ID s = (v, u)" by fastforce
  obtain d w where w: "(if onu = v \<and> t = t' then status_matches P f t' cs u else (False, u)) = (d, w)"
    by fastforce
  have "agent_part w = agent_part s"
    using agent_part_status [OF v] w by (auto split: if_splits dest: agent_part_status_matches)
  then show ?case using 2 v w by (auto split: if_splits)
qed simp

lemma flow_book_record_port [simp]: "flow_book (record_flow_port P t f r s) = flow_book s"
  by (simp add: record_flow_port_def)

lemma flow_book_forget_port [simp]: "flow_book (forget_flow_port t f s) = flow_book s"
  by (simp add: forget_flow_port_def Let_def)

lemma flow_book_commit: "commit_flow P t f r aes cfg s = (st, s') \<Longrightarrow> flow_book s' = flow_book s"
  unfolding commit_flow_def
  by (auto simp: Let_def bal_err_def bal_call_def agent_part_encryptionD split: if_splits)

lemma FlowAdd_book: "FlowAdd P f aes r s = (st, s') \<Longrightarrow> flow_book s' = flow_book s"
  by (auto simp: FlowAdd_def Let_def split: option.splits prod.splits if_splits
      dest!: flow_book_acl_rest [OF acl_rest_install] flow_book_message flow_book_commit
        flow_book_agent_part [OF agent_part_find_duplicate])

lemma FlowRemove_book: "FlowRemove P f d s = (st, s') \<Longrightarrow> flow_book s' = flow_book s"
  by (auto simp: FlowRemove_def bal_err_def bal_call_def Let_def
      split: option.splits prod.splits if_splits dest!: flow_book_acl_rest [OF acl_rest_remove_trap])


text \<open>The invariants.\<close>

lemma flow_qos_invs:
  assumes "flow_qos P t r s = (fs, s')"
  shows "tm_inv s \<Longrightarrow> tm_inv s'" "acl_inv s' = acl_inv s"
proof -
  have get: "get_tm_sched_id p n u d tp s = (i, s') \<Longrightarrow>
      (tm_inv s \<longrightarrow> tm_inv s') \<and> acl_inv s' = acl_inv s" for p n u d tp i s s'
    using sched_inv_get [of s p n u d tp] get_tm_sched_id_frame [of p n u d tp s i s']
    by (auto simp: tm_inv_def)
  show "tm_inv s \<Longrightarrow> tm_inv s'" "acl_inv s' = acl_inv s"
    using assms by (auto simp: flow_qos_def get_qos_type_def Let_def split: option.splits prod.splits if_splits
      dest!: get)
qed

lemma flow_message_invs:
  assumes "flow_message P t r s = (m, s')"
  shows "tm_inv s \<Longrightarrow> tm_inv s'" "acl_inv s' = acl_inv s"
  using assms flow_qos_invs by (auto simp: flow_message_def Let_def split: prod.splits)

lemma commit_flow_invs:
  assumes "commit_flow P t f r aes cfg s = (st, s')"
  shows "tm_inv s \<Longrightarrow> tm_inv s'" "acl_inv s \<Longrightarrow> acl_inv s'"
  using assms unfolding commit_flow_def
  by (auto simp: Let_def bal_err_def bal_call_def split: if_splits intro!: agent_part_encryptionD)

lemma FlowAdd_tm_inv: "FlowAdd P f aes r s = (st, s') \<Longrightarrow> tm_inv s \<Longrightarrow> tm_inv s'"
  by (auto simp: FlowAdd_def Let_def record_flow_port_def split: option.splits prod.splits if_splits
      dest!: tm_inv_acl_rest [OF acl_rest_install] flow_message_invs(1) commit_flow_invs(1)
        tm_inv_agent_part [OF agent_part_find_duplicate])

lemma FlowRemove_tm_inv: "FlowRemove P f d s = (st, s') \<Longrightarrow> tm_inv s \<Longrightarrow> tm_inv s'"
  by (auto simp: FlowRemove_def forget_flow_port_def bal_err_def bal_call_def Let_def
      split: option.splits prod.splits if_splits dest!: tm_inv_acl_rest [OF acl_rest_remove_trap])

end
