(* ===== verification/Voltha_Flow.thy ===== *)
theory Voltha_Flow
  imports Flow
begin

text \<open>
  VOLTHA flows (\<open>FlowAddWrapper_\<close> and \<open>FlowRemoveWrapper_\<close> of \<open>agent/src/core_api_handler.cc\<close>, the cache
  of installed flows of \<open>agent/src/core_utils.cc\<close>): a flow, possibly replicated per p-bit, becomes
  device flows whose ids come from the pool of flow ids; a data flow whose symmetric flow is
  installed uses the ids of that one.
\<close>

section \<open>The cache of installed flows\<close>

definition update_voltha_flow_to_cache :: "uint64 \<Rightarrow> device_flow \<Rightarrow> olt \<Rightarrow> olt" where
  "update_voltha_flow_to_cache v d s =
     s\<lparr>voltha_flow_to_device_flow := (voltha_flow_to_device_flow s)(v \<mapsto> d)\<rparr>"

definition remove_voltha_flow_from_cache :: "uint64 \<Rightarrow> olt \<Rightarrow> olt" where
  "remove_voltha_flow_from_cache v s =
     s\<lparr>voltha_flow_to_device_flow := (voltha_flow_to_device_flow s)(v := None)\<rparr>"

definition is_voltha_flow_installed :: "uint64 \<Rightarrow> olt \<Rightarrow> bool" where
  "is_voltha_flow_installed v s = (voltha_flow_to_device_flow s v \<noteq> None)"

definition get_device_flow :: "uint64 \<Rightarrow> olt \<Rightarrow> device_flow option" where
  "get_device_flow v s = voltha_flow_to_device_flow s v"

definition get_device_flow_params :: "uint64 \<Rightarrow> olt \<Rightarrow> (nat \<Rightarrow> device_flow_params) option" where
  "get_device_flow_params v s = map_option df_params (voltha_flow_to_device_flow s v)"

fun get_aes_flag_for_gem_port :: "(uint32 \<times> bool) list \<Rightarrow> uint32 \<Rightarrow> bool" where
  "get_aes_flag_for_gem_port [] g = False"
| "get_aes_flag_for_gem_port ((k, b) # m) g = (if k = g then b else get_aes_flag_for_gem_port m g)"

section \<open>VOLTHA flows\<close>

definition is_datapath_flow :: "flow \<Rightarrow> bool" where
  "is_datapath_flow r \<longleftrightarrow>
     access_intf_id r \<ge> 0 \<and> onu_id r \<ge> 0 \<and> uni_id r \<ge> 0 \<and> tech_profile_id r > 0 \<and>
     flow_type r \<noteq> multicast \<and> \<not> trap_to_host (a_cmd (f_action r))"

definition datapath_key :: "flow \<Rightarrow> string \<Rightarrow> symmetric_key" where
  "datapath_key r ftype = (access_intf_id r, onu_id r, uni_id r, tech_profile_id r, ftype)"

definition find_symmetric_flow :: "flow \<Rightarrow> olt \<Rightarrow> uint64" where
  "find_symmetric_flow r s =
     (if is_datapath_flow r then
        (case symmetric_datapath_flow_id_map s
                (datapath_key r (if flow_type r = upstream then downstream else upstream)) of
           Some v \<Rightarrow> v | None \<Rightarrow> 0)
      else 0)"

definition accepted :: "status \<Rightarrow> bool" where
  "accepted st \<longleftrightarrow> code st = OK \<or> code st = ALREADY_EXISTS"

text \<open>One device flow of a VOLTHA flow: its id, GEM port and p-bits override those of the request.\<close>

definition add_device_flow :: "platform \<Rightarrow> flow \<Rightarrow> device_flow_params \<Rightarrow> olt \<Rightarrow> status \<times> olt" where
  "add_device_flow P r d s =
     FlowAdd P (dfp_flow_id d) (get_aes_flag_for_gem_port (gemport_to_aes r) (dfp_gemport_id d))
       (r\<lparr>gemport_id := sint (dfp_gemport_id d),
          f_classifier := (f_classifier r)\<lparr>o_pbits := ucast (dfp_pbit d)\<rparr>\<rparr>) s"

text \<open>Undoing the replicated flows, latest first; the results are ignored.\<close>

fun remove_device_flows :: "platform \<Rightarrow> string \<Rightarrow> uint16 list \<Rightarrow> olt \<Rightarrow> olt" where
  "remove_device_flows P ftype [] s = s"
| "remove_device_flows P ftype (f # fs) s =
     remove_device_flows P ftype fs (snd (FlowRemove P f ftype s))"

fun add_replicated ::
    "platform \<Rightarrow> flow \<Rightarrow> (status \<Rightarrow> bool) \<Rightarrow> status \<Rightarrow> device_flow_params list \<Rightarrow> uint16 list \<Rightarrow> olt \<Rightarrow>
     (status + status) \<times> olt" where
  "add_replicated P r good st [] done s = (Inr st, s)"
| "add_replicated P r good st (d # ds) done s =
     (let (st, s) = add_device_flow P r d s
      in if \<not> good st then (Inl st, remove_device_flows P (flow_type r) done s)
         else add_replicated P r good st ds (dfp_flow_id d # done) s)"

text \<open>The cache entry of a flow; what the code does not set is not initialised.\<close>

definition single_flow :: "platform \<Rightarrow> uint64 \<Rightarrow> flow \<Rightarrow> device_flow_params \<Rightarrow> olt \<Rightarrow> device_flow" where
  "single_flow P symm r d s =
     (let dev = uninit_device_flow P s
      in dev\<lparr>is_flow_replicated := False, symmetric_voltha_flow_id := symm,
             df_voltha_flow_id := flow_id r, df_flow_type := flow_type r,
             df_params := (df_params dev)(0 := d)\<rparr>)"

definition replicated_flow :: "platform \<Rightarrow> uint64 \<Rightarrow> flow \<Rightarrow> device_flow_params list \<Rightarrow> olt \<Rightarrow> device_flow" where
  "replicated_flow P symm r ds s =
     (let dev = uninit_device_flow P s
      in dev\<lparr>is_flow_replicated := True, symmetric_voltha_flow_id := symm,
             df_voltha_flow_id := flow_id r, df_flow_type := flow_type r,
             total_replicated_flows := of_nat (length ds),
             df_params := (\<lambda>i. if i < length ds then ds ! i else df_params dev i)\<rparr>)"

definition add_symmetric ::
    "platform \<Rightarrow> flow \<Rightarrow> uint64 \<Rightarrow> (nat \<Rightarrow> device_flow_params) \<Rightarrow> olt \<Rightarrow> (status + status) \<times> olt" where
  "add_symmetric P r symm params s =
     (if \<not> replicate_flow r then
        let (st, s) = add_device_flow P r (params 0) s
        in if \<not> accepted st then (Inl st, free_flow_id (dfp_flow_id (params 0)) s)
           else (Inr st, update_voltha_flow_to_cache (flow_id r) (single_flow P symm r (params 0) s) s)
      else if length (pbit_to_gemport r) > NUMBER_OF_PBITS
      then (Inl (Status_of OUT_OF_RANGE ''pbit-to-gemport-map-len-invalid-for-flow-replication''), s)
      else
        let ds = map params [0..<length (pbit_to_gemport r)]
        in case add_replicated P r accepted Status_OK ds [] s of
             (Inl st, s) \<Rightarrow> (Inl st, s)
           | (Inr st, s) \<Rightarrow>
               (Inr st, update_voltha_flow_to_cache (flow_id r) (replicated_flow P symm r ds s) s))"

definition add_single :: "platform \<Rightarrow> flow \<Rightarrow> olt \<Rightarrow> ((status + status) \<times> olt) option" where
  "add_single P r s =
     do {
       (f, s) \<leftarrow> get_flow_id s;
       if f = INVALID_FLOW_ID
       then Some (Inl (Status_of RESOURCE_EXHAUSTED ''flow-ids-exhausted''), s)
       else
         let (st, s) = FlowAdd P f (get_aes_flag_for_gem_port (gemport_to_aes r) (u32_of_int (gemport_id r))) r s
         in if code st = OK then
              let d = \<lparr>dfp_pbit = ucast (o_pbits (f_classifier r)),
                       dfp_gemport_id = u32_of_int (gemport_id r), dfp_flow_id = f\<rparr>
              in Some (Inr st, update_voltha_flow_to_cache (flow_id r)
                                 (single_flow P (ucast INVALID_FLOW_ID) r d s) s)
            else Some (Inl st, free_flow_id f s)
     }"

definition replicated_params :: "(uint32 \<times> uint32) list \<Rightarrow> uint16 list \<Rightarrow> device_flow_params list" where
  "replicated_params pg fs =
     map2 (\<lambda>(pbit, gem) f. \<lparr>dfp_pbit = ucast pbit, dfp_gemport_id = gem, dfp_flow_id = f\<rparr>) pg fs"

definition add_with_replication :: "platform \<Rightarrow> flow \<Rightarrow> olt \<Rightarrow> ((status + status) \<times> olt) option" where
  "add_with_replication P r s =
     (let n = length (pbit_to_gemport r)
      in if n > NUMBER_OF_PBITS
         then Some (Inl (Status_of OUT_OF_RANGE ''pbit-to-gemport-map-len-invalid-for-flow-replication''), s)
         else do {
           ((found, fs), s) \<leftarrow> get_flow_ids (int n) s;
           if \<not> found then Some (Inl (Status_of RESOURCE_EXHAUSTED ''flow-ids-exhausted''), s)
           else
             let ds = replicated_params (pbit_to_gemport r) fs
             in case add_replicated P r (\<lambda>st. code st = OK) Status_OK ds [] s of
                  (Inl st, s) \<Rightarrow> Some (Inl st, free_flow_ids fs s)
                | (Inr st, s) \<Rightarrow>
                    Some (Inr st, update_voltha_flow_to_cache (flow_id r)
                                    (replicated_flow P (ucast INVALID_FLOW_ID) r ds s) s)
         })"

text \<open>
  The request, with \<open>None\<close> for a call that does not return.  An early return is \<open>Inl\<close>; the other
  branches record the flow for its symmetric one.
\<close>

definition add_voltha_flow :: "platform \<Rightarrow> flow \<Rightarrow> uint64 \<Rightarrow> olt \<Rightarrow> ((status + status) \<times> olt) option" where
  "add_voltha_flow P r symm s =
     (if symm > 0 \<and> is_voltha_flow_installed symm s then
        (case get_device_flow_params symm s of
           None \<Rightarrow> Some (Inl (Status_of INTERNAL ''symmetric-flow-details-not-found''), s)
         | Some params \<Rightarrow> Some (add_symmetric P r symm params s))
      else if \<not> replicate_flow r then add_single P r s
      else add_with_replication P r s)"

definition with_valid_onu :: "flow \<Rightarrow> flow" where
  "with_valid_onu r = (if onu_id r < 1 then r\<lparr>onu_id := 1\<rparr> else r)"

definition FlowAddWrapper :: "platform \<Rightarrow> flow \<Rightarrow> olt \<Rightarrow> (status \<times> olt) option" where
  "FlowAddWrapper P req s =
     (let symm = find_symmetric_flow req s; r = with_valid_onu req
      in if is_voltha_flow_installed (flow_id r) s
         then Some (Status_of ALREADY_EXISTS ''voltha-flow-already-installed'', s)
         else
           map_option (\<lambda>(res, s). case res of
               Inl st \<Rightarrow> (st, s)
             | Inr st \<Rightarrow>
                 (st, if is_datapath_flow req
                      then s\<lparr>symmetric_datapath_flow_id_map := (symmetric_datapath_flow_id_map s)
                                (datapath_key r (flow_type r) \<mapsto> flow_id r)\<rparr>
                      else s))
             (add_voltha_flow P r symm s))"

text \<open>Removal frees the id of a device flow whenever \<open>FlowRemove_\<close> succeeds.\<close>

fun remove_and_free :: "platform \<Rightarrow> string \<Rightarrow> uint16 list \<Rightarrow> olt \<Rightarrow> olt" where
  "remove_and_free P ftype [] s = s"
| "remove_and_free P ftype (f # fs) s =
     (let (st, s) = FlowRemove P f ftype s
      in remove_and_free P ftype fs (if code st = OK then free_flow_id f s else s))"

definition device_flow_ids :: "device_flow \<Rightarrow> uint16 list" where
  "device_flow_ids d =
     map (\<lambda>i. dfp_flow_id (df_params d i))
       [0..<(if is_flow_replicated d then unat (total_replicated_flows d) else 1)]"

definition FlowRemoveWrapper :: "platform \<Rightarrow> flow \<Rightarrow> olt \<Rightarrow> status \<times> olt" where
  "FlowRemoveWrapper P req s =
     (case get_device_flow (flow_id req) s of
        None \<Rightarrow> (Status_of NOT_FOUND ''voltha-flow-not-found'', s)
      | Some d \<Rightarrow>
          let s = remove_and_free P (df_flow_type d) (device_flow_ids d) s;
              s = remove_voltha_flow_from_cache (flow_id req) s
          in (Status_OK, s\<lparr>symmetric_datapath_flow_id_map :=
                 (symmetric_datapath_flow_id_map s)(datapath_key req (df_flow_type d) := None)\<rparr>))"


section \<open>The bookkeeping of flows\<close>

lemma free_flow_ids_sel [simp]:
  "flow_id_bitset (free_flow_ids fs s) = flow_id_bitset s - unat ` set fs"
  "voltha_flow_to_device_flow (free_flow_ids fs s) = voltha_flow_to_device_flow s"
  "symmetric_datapath_flow_id_map (free_flow_ids fs s) = symmetric_datapath_flow_id_map s"
  by (induction fs arbitrary: s) (auto simp: free_flow_id_def)

lemma flow_book_eqD:
  assumes "flow_book s' = flow_book s"
  shows "flow_id_bitset s' = flow_id_bitset s"
    "voltha_flow_to_device_flow s' = voltha_flow_to_device_flow s"
    "symmetric_datapath_flow_id_map s' = symmetric_datapath_flow_id_map s"
  using assms by (simp_all add: flow_book_def)

lemma remove_device_flows_book: "flow_book (remove_device_flows P t fs s) = flow_book s"
  by (induction fs arbitrary: s) (auto simp: FlowRemove_book [OF prod.collapse [symmetric]])

lemma add_device_flow_book: "add_device_flow P r d s = (st, s') \<Longrightarrow> flow_book s' = flow_book s"
  unfolding add_device_flow_def by (rule FlowAdd_book)

lemma add_replicated_book:
  "add_replicated P r good st ds fs s = (res, s') \<Longrightarrow> flow_book s' = flow_book s"
  by (induction P r good st ds fs s rule: add_replicated.induct)
    (auto split: prod.splits if_splits simp: remove_device_flows_book dest!: add_device_flow_book)

lemma add_replicated_result:
  "add_replicated P r good st ds fs s = (res, s') \<Longrightarrow>
     (case res of Inl st' \<Rightarrow> \<not> good st' | Inr st' \<Rightarrow> good st' \<or> (ds = [] \<and> st' = st))"
proof (induction ds arbitrary: st fs s)
  case (Cons d ds)
  obtain st1 u where d: "add_device_flow P r d s = (st1, u)" by fastforce
  then show ?case using Cons.prems Cons.IH [of st1 "dfp_flow_id d # fs" u]
    by (cases "good st1") (auto split: sum.splits)
qed auto

lemma flow_ids_search_exact:
  assumes "flow_ids_search num f bs fs = Some r"
  shows "int (length fs) \<le> num \<longrightarrow>
    (\<exists>new. r = (bs \<union> unat ` set new, fs @ new) \<and> distinct new \<and> unat ` set new \<inter> bs = {} \<and>
           int (length (fs @ new)) = num)"
proof (rule flow_ids_search.raw_induct [OF _ assms], goal_cases)
  case (1 search num f bs fs r)
  note IH = 1(1) and eq = 1(2)
  consider "\<not> int (length fs) < num" "r = (bs, fs)"
    | "int (length fs) < num" "unat f \<in> bs" "search num (f + 1) bs fs = Some r"
    | "int (length fs) < num" "unat f \<notin> bs" "search num (f + 1) (insert (unat f) bs) (fs @ [f]) = Some r"
    using eq by (auto split: if_splits)
  then show ?case
  proof cases
    case 1
    then show ?thesis by auto
  next
    case 2
    from IH [OF this(3)] show ?thesis .
  next
    case 3
    have "int (length (fs @ [f])) \<le> num" using 3(1) by simp
    then obtain new where new: "r = (insert (unat f) bs \<union> unat ` set new, (fs @ [f]) @ new)" "distinct new"
      "unat ` set new \<inter> insert (unat f) bs = {}" "int (length ((fs @ [f]) @ new)) = num"
      using IH [OF 3(3)] by blast
    then have "f \<notin> set new" by auto
    then show ?thesis using new 3(2) by (intro impI exI [of _ "f # new"]) auto
  qed
qed

lemma get_flow_ids_Some:
  assumes "get_flow_ids num s = Some ((found, fs), s')" "0 \<le> num" "num \<le> int NUMBER_OF_PBITS"
  shows "found" "distinct fs" "int (length fs) = num" "unat ` set fs \<inter> flow_id_bitset s = {}"
    "s' = s\<lparr>flow_id_bitset := flow_id_bitset s \<union> unat ` set fs\<rparr>"
proof -
  obtain bs gs where g: "flow_ids_search num 1 (flow_id_bitset s) [] = Some (bs, gs)"
    using assms by (auto simp: get_flow_ids_def split: Option.bind_splits)
  from flow_ids_search_exact [OF g] assms(2) have
    "bs = flow_id_bitset s \<union> unat ` set gs" "distinct gs" "unat ` set gs \<inter> flow_id_bitset s = {}"
    "int (length gs) = num" by auto
  then show "found" "distinct fs" "int (length fs) = num" "unat ` set fs \<inter> flow_id_bitset s = {}"
    "s' = s\<lparr>flow_id_bitset := flow_id_bitset s \<union> unat ` set fs\<rparr>"
    using assms(1,3) g by (auto simp: get_flow_ids_def)
qed

text \<open>What adding a flow with ids of its own does to the bookkeeping.\<close>

definition added_fresh :: "flow \<Rightarrow> olt \<Rightarrow> status + status \<Rightarrow> olt \<Rightarrow> bool" where
  "added_fresh r s res s' \<longleftrightarrow>
     symmetric_datapath_flow_id_map s' = symmetric_datapath_flow_id_map s \<and>
     (case res of
        Inl st \<Rightarrow> code st \<noteq> OK \<and> voltha_flow_to_device_flow s' = voltha_flow_to_device_flow s \<and>
          (flow_id_bitset s' = flow_id_bitset s \<or>
           code st = RESOURCE_EXHAUSTED \<and> flow_id_bitset s' = insert 0 (flow_id_bitset s))
      | Inr st \<Rightarrow> code st = OK \<and>
          (\<exists>d. voltha_flow_to_device_flow s' = (voltha_flow_to_device_flow s)(flow_id r \<mapsto> d) \<and>
               df_flow_type d = flow_type r \<and> df_voltha_flow_id d = flow_id r \<and>
               length (device_flow_ids d) \<le> NUMBER_OF_PBITS \<and> distinct (device_flow_ids d) \<and>
               (flow_key_type (flow_type r) \<noteq> None \<or> device_flow_ids d = []) \<and>
               length (device_flow_ids d) = (if replicate_flow r then length (pbit_to_gemport r) else 1) \<and>
               unat ` set (device_flow_ids d) \<inter> flow_id_bitset s = {} \<and>
               flow_id_bitset s' = flow_id_bitset s \<union> unat ` set (device_flow_ids d)))"

lemma single_flow_sel [simp]:
  "device_flow_ids (single_flow P symm r d s) = [dfp_flow_id d]"
  "df_flow_type (single_flow P symm r d s) = flow_type r"
  "df_voltha_flow_id (single_flow P symm r d s) = flow_id r"
  by (simp_all add: single_flow_def device_flow_ids_def Let_def)

lemma unat_of_pbits: "n \<le> NUMBER_OF_PBITS \<Longrightarrow> unat (of_nat n :: uint8) = n"
  by (simp add: NUMBER_OF_PBITS_def unat_of_nat)

lemma replicated_flow_sel [simp]:
  "length ds \<le> NUMBER_OF_PBITS \<Longrightarrow> device_flow_ids (replicated_flow P symm r ds s) = map dfp_flow_id ds"
  "df_flow_type (replicated_flow P symm r ds s) = flow_type r"
  "df_voltha_flow_id (replicated_flow P symm r ds s) = flow_id r"
  by (auto simp: replicated_flow_def device_flow_ids_def Let_def unat_of_pbits intro: nth_equalityI)

text \<open>A flow whose type is unknown is refused, so an installed one can be removed.\<close>

lemma FlowAdd_OK_type: "code (fst (FlowAdd P f aes r s)) = OK \<Longrightarrow> flow_key_type (flow_type r) \<noteq> None"
  by (auto simp: FlowAdd_def split: option.splits)

lemma add_replicated_type:
  assumes "add_replicated P r (\<lambda>st. code st = OK) st ds fs s = (Inr st', s')"
  shows "flow_key_type (flow_type r) \<noteq> None \<or> ds = []"
proof (cases ds)
  case (Cons d ds')
  then have "code (fst (add_device_flow P r d s)) = OK"
    using assms by (auto split: prod.splits if_splits)
  then show ?thesis using FlowAdd_OK_type by (fastforce simp: add_device_flow_def)
qed simp

lemma added_freshI:
  assumes "code st = OK" "df_flow_type d = flow_type r" "df_voltha_flow_id d = flow_id r"
    and "device_flow_ids d = ids" "distinct ids" "length ids \<le> NUMBER_OF_PBITS"
    and "flow_key_type (flow_type r) \<noteq> None \<or> ids = []"
    and "length ids = (if replicate_flow r then length (pbit_to_gemport r) else 1)"
    and "unat ` set ids \<inter> flow_id_bitset s = {}"
    and "flow_id_bitset u = flow_id_bitset s \<union> unat ` set ids"
    and "voltha_flow_to_device_flow u = voltha_flow_to_device_flow s"
    and "symmetric_datapath_flow_id_map u = symmetric_datapath_flow_id_map s"
  shows "added_fresh r s (Inr st) (update_voltha_flow_to_cache (flow_id r) d u)"
  using assms by (auto simp: added_fresh_def update_voltha_flow_to_cache_def)

lemma add_single_fresh:
  assumes run: "add_single P r s = Some (res, s')" and "\<not> replicate_flow r"
  shows "added_fresh r s res s'"
proof -
  obtain f where f: "flow_id_search (flow_id_bitset s) 1 = Some f"
    using run by (auto simp: add_single_def get_flow_id_eq split: Option.bind_splits)
  then have new: "unat f \<notin> flow_id_bitset s" by (rule flow_id_search_free)
  let ?t = "s\<lparr>flow_id_bitset := insert (unat f) (flow_id_bitset s)\<rparr>"
  show ?thesis
  proof (cases "f = INVALID_FLOW_ID")
    case True
    then show ?thesis using run f
      by (auto simp: add_single_def get_flow_id_eq added_fresh_def INVALID_FLOW_ID_def)
  next
    case False
    obtain st u where add: "FlowAdd P f (get_aes_flag_for_gem_port (gemport_to_aes r)
        (u32_of_int (gemport_id r))) r ?t = (st, u)" by fastforce
    note book = flow_book_eqD [OF FlowAdd_book [OF add]]
    let ?d = "\<lparr>dfp_pbit = ucast (o_pbits (f_classifier r)),
               dfp_gemport_id = u32_of_int (gemport_id r), dfp_flow_id = f\<rparr>"
    have eq: "(res, s') = (if code st = OK
        then (Inr st, update_voltha_flow_to_cache (flow_id r) (single_flow P (ucast INVALID_FLOW_ID) r ?d u) u)
        else (Inl st, free_flow_id f u))"
      using run f False add by (simp add: add_single_def get_flow_id_eq Let_def split: if_splits)
    show ?thesis
    proof (cases "code st = OK")
      case True
      have "flow_key_type (flow_type r) \<noteq> None" 
        by (rule FlowAdd_OK_type [of P f "get_aes_flag_for_gem_port (gemport_to_aes r)
              (u32_of_int (gemport_id r))" r ?t]) (simp add: add True)
      moreover have r: "res = Inr st"
          "s' = update_voltha_flow_to_cache (flow_id r) (single_flow P (ucast INVALID_FLOW_ID) r ?d u) u"
        using eq True by simp_all
      ultimately show ?thesis unfolding r using book new assms(2) True
        by (intro added_freshI [where ids = "[f]"]) (simp_all add: NUMBER_OF_PBITS_def)
    next
      case bad: False
      then show ?thesis using eq book new by (auto simp: added_fresh_def free_flow_id_def)
    qed
  qed
qed

lemma length_replicated_params [simp]:
  "length (replicated_params pg fs) = min (length pg) (length fs)"
  by (simp add: replicated_params_def)

lemma replicated_params_ids:
  "length pg = length fs \<Longrightarrow> map dfp_flow_id (replicated_params pg fs) = fs"
  by (auto simp: replicated_params_def intro: nth_equalityI split: prod.splits)

lemma add_with_replication_fresh:
  assumes run: "add_with_replication P r s = Some (res, s')" and "replicate_flow r"
  shows "added_fresh r s res s'"
proof (cases "length (pbit_to_gemport r) > NUMBER_OF_PBITS")
  case True
  then show ?thesis using run by (auto simp: add_with_replication_def Let_def added_fresh_def)
next
  case False
  let ?n = "length (pbit_to_gemport r)"
  obtain found fs t where g: "get_flow_ids (int ?n) s = Some ((found, fs), t)"
    using run False by (auto simp: add_with_replication_def Let_def split: Option.bind_splits)
  note ids = get_flow_ids_Some [OF g, unfolded of_nat_le_iff, OF of_nat_0_le_iff]
  have n: "?n \<le> NUMBER_OF_PBITS" using False by simp
  let ?ds = "replicated_params (pbit_to_gemport r) fs"
  have len: "length fs = ?n" using ids(3) [OF n] by simp
  obtain q u where add: "add_replicated P r (\<lambda>st. code st = OK) Status_OK ?ds [] t = (q, u)" by fastforce
  note book = flow_book_eqD [OF add_replicated_book [OF add]]
  note res = add_replicated_result [OF add]
  have t: "t = s\<lparr>flow_id_bitset := flow_id_bitset s \<union> unat ` set fs\<rparr>" by (rule ids(5) [OF n])
  show ?thesis
  proof (cases q)
    case (Inl st)
    then have "res = Inl st" "s' = free_flow_ids fs u" "code st \<noteq> OK"
      using run False g add ids(1) [OF n] res by (auto simp: add_with_replication_def Let_def)
    moreover have "flow_id_bitset s \<union> unat ` set fs - unat ` set fs = flow_id_bitset s"
      using ids(4) [OF n] by auto
    ultimately show ?thesis using book by (simp add: added_fresh_def t)
  next
    case (Inr st)
    then have eq: "res = Inr st"
        "s' = update_voltha_flow_to_cache (flow_id r) (replicated_flow P (ucast INVALID_FLOW_ID) r ?ds u) u"
        "code st = OK"
      using run False g add ids(1) [OF n] res
      by (auto simp: add_with_replication_def Let_def Status_OK_def)
    have "device_flow_ids (replicated_flow P (ucast INVALID_FLOW_ID) r ?ds u) = fs"
      using len n by (simp add: replicated_params_ids)
    then show ?thesis unfolding eq(1,2)
      using book ids(2,4) [OF n] len n assms(2) eq(3) add_replicated_type [OF add [unfolded Inr]]
      by (intro added_freshI [where ids = fs]) (auto simp: t simp flip: length_0_conv)
  qed
qed

lemma with_valid_onu_sel [simp]:
  "flow_id (with_valid_onu r) = flow_id r" "flow_type (with_valid_onu r) = flow_type r"
  "replicate_flow (with_valid_onu r) = replicate_flow r"
  "pbit_to_gemport (with_valid_onu r) = pbit_to_gemport r"
  "f_action (with_valid_onu r) = f_action r" "gemport_to_aes (with_valid_onu r) = gemport_to_aes r"
  by (simp_all add: with_valid_onu_def)

text \<open>The symmetric flow of a request is installed.\<close>

definition has_symmetric :: "flow \<Rightarrow> olt \<Rightarrow> bool" where
  "has_symmetric r s \<longleftrightarrow>
     find_symmetric_flow r s > 0 \<and> is_voltha_flow_installed (find_symmetric_flow r s) s"

definition link_flow :: "flow \<Rightarrow> (symmetric_key \<rightharpoonup> uint64) \<Rightarrow> symmetric_key \<rightharpoonup> uint64" where
  "link_flow r m =
     (if is_datapath_flow r then m(datapath_key (with_valid_onu r) (flow_type r) \<mapsto> flow_id r) else m)"

lemma FlowAddWrapper_fresh:
  assumes "\<not> has_symmetric r s" "voltha_flow_to_device_flow s (flow_id r) = None"
    and "FlowAddWrapper P r s = Some (st, s')"
  obtains (failed) "added_fresh (with_valid_onu r) s (Inl st) s'"
  | (added) u where "added_fresh (with_valid_onu r) s (Inr st) u"
      "s' = u\<lparr>symmetric_datapath_flow_id_map := link_flow r (symmetric_datapath_flow_id_map u)\<rparr>"
proof -
  let ?a = "add_voltha_flow P (with_valid_onu r) (find_symmetric_flow r s) s"
  have run: "FlowAddWrapper P r s = map_option (\<lambda>(res, s). case res of Inl st \<Rightarrow> (st, s) | Inr st \<Rightarrow>
       (st, s\<lparr>symmetric_datapath_flow_id_map := link_flow r (symmetric_datapath_flow_id_map s)\<rparr>)) ?a"
    using assms(2) by (auto simp: FlowAddWrapper_def is_voltha_flow_installed_def link_flow_def Let_def
        intro!: option.map_cong split: sum.splits)
  then obtain res u where u: "?a = Some (res, u)" using assms(3) by (cases ?a) auto
  have eq: "(st, s') = (case res of Inl st \<Rightarrow> (st, u) | Inr st \<Rightarrow>
       (st, u\<lparr>symmetric_datapath_flow_id_map := link_flow r (symmetric_datapath_flow_id_map u)\<rparr>))"
    using run assms(3) by (simp add: u)
  have "added_fresh (with_valid_onu r) s res u"
    using u assms(1) add_single_fresh add_with_replication_fresh
    by (fastforce simp: add_voltha_flow_def has_symmetric_def split: if_splits)
  then show thesis using eq that by (cases res) auto
qed

section \<open>Removal\<close>

definition clears_accepted :: "platform \<Rightarrow> bool" where
  "clears_accepted P \<longleftrightarrow> (\<forall>t k. r_err (bal_respond P t (Cfg_clear k)) = BCM_ERR_OK)"

lemma FlowRemove_trap_code:
  "FlowRemove_trap P f d s = (Some resp, s') \<Longrightarrow> code resp = OK"
  by (auto simp: FlowRemove_trap_def handle_acl_rule_cleanup_def Status_OK_def ok_def Let_def
      split: option.splits prod.splits if_splits)

lemma FlowRemove_accepted:
  assumes "clears_accepted P" "flow_key_type d \<noteq> None"
  shows "code (fst (FlowRemove P f d s)) = OK"
proof -
  obtain q u where q: "FlowRemove_trap P (ucast f) d s = (q, u)" by fastforce
  show ?thesis using assms q
    by (cases q) (auto simp: FlowRemove_def clears_accepted_def bal_err_def bal_call_def Let_def
        Status_OK_def split: option.splits dest: FlowRemove_trap_code)
qed

lemma remove_and_free_book:
  assumes "clears_accepted P" "flow_key_type d \<noteq> None \<or> fs = []"
  shows "flow_id_bitset (remove_and_free P d fs s) = flow_id_bitset s - unat ` set fs"
    "voltha_flow_to_device_flow (remove_and_free P d fs s) = voltha_flow_to_device_flow s"
    "symmetric_datapath_flow_id_map (remove_and_free P d fs s) = symmetric_datapath_flow_id_map s"
proof -
  have "flow_book (remove_and_free P d fs s) =
     (flow_id_bitset s - unat ` set fs, voltha_flow_to_device_flow s, symmetric_datapath_flow_id_map s)"
    using assms(2)
  proof (induction fs arbitrary: s)
    case (Cons f fs)
    obtain st u where u: "FlowRemove P f d s = (st, u)" by fastforce
    have "code st = OK" using FlowRemove_accepted [OF assms(1), of d f s] Cons.prems u by auto
    moreover have "flow_book (free_flow_id f u) =
        (flow_id_bitset s - {unat f}, voltha_flow_to_device_flow s, symmetric_datapath_flow_id_map s)"
      using flow_book_eqD [OF FlowRemove_book [OF u]] by (simp add: flow_book_def free_flow_id_def)
    ultimately show ?case using u Cons.IH [of "free_flow_id f u"] Cons.prems
      by (auto simp: flow_book_def)
  qed (simp add: flow_book_def)
  then show "flow_id_bitset (remove_and_free P d fs s) = flow_id_bitset s - unat ` set fs"
    "voltha_flow_to_device_flow (remove_and_free P d fs s) = voltha_flow_to_device_flow s"
    "symmetric_datapath_flow_id_map (remove_and_free P d fs s) = symmetric_datapath_flow_id_map s"
    by (simp_all add: flow_book_def)
qed

lemma FlowRemoveWrapper_effect:
  assumes "clears_accepted P" "voltha_flow_to_device_flow s (flow_id r) = Some d"
    "flow_key_type (df_flow_type d) \<noteq> None \<or> device_flow_ids d = []"
  shows "flow_id_bitset (snd (FlowRemoveWrapper P r s)) = flow_id_bitset s - unat ` set (device_flow_ids d)"
    "voltha_flow_to_device_flow (snd (FlowRemoveWrapper P r s)) =
       (voltha_flow_to_device_flow s)(flow_id r := None)"
    "symmetric_datapath_flow_id_map (snd (FlowRemoveWrapper P r s)) =
       (symmetric_datapath_flow_id_map s)(datapath_key r (df_flow_type d) := None)"
    "fst (FlowRemoveWrapper P r s) = Status_OK"
  using assms remove_and_free_book [OF assms(1,3)]
  by (simp_all add: FlowRemoveWrapper_def get_device_flow_def remove_voltha_flow_from_cache_def Let_def)

section \<open>Properties\<close>

text \<open>
  C17: adding a VOLTHA flow that is new and has no installed symmetric flow.  An accepted flow is
  cached with as many distinct device flow ids as it has p-bits (or one), all of them free before,
  and exactly those become used; a refused one leaves the cache and the symmetric flows alone and
  gives every id back, except for the invalid id 0, which stays marked when the ids are exhausted.
\<close>

theorem add_voltha_flow_outcome:
  assumes "\<not> has_symmetric r s" "voltha_flow_to_device_flow s (flow_id r) = None"
    and "FlowAddWrapper P r s = Some (st, s')"
  shows "if code st = OK then
      \<exists>d. voltha_flow_to_device_flow s' = (voltha_flow_to_device_flow s)(flow_id r \<mapsto> d) \<and>
        df_flow_type d = flow_type r \<and> distinct (device_flow_ids d) \<and>
        length (device_flow_ids d) = (if replicate_flow r then length (pbit_to_gemport r) else 1) \<and>
        unat ` set (device_flow_ids d) \<inter> flow_id_bitset s = {} \<and>
        flow_id_bitset s' = flow_id_bitset s \<union> unat ` set (device_flow_ids d) \<and>
        symmetric_datapath_flow_id_map s' = link_flow r (symmetric_datapath_flow_id_map s)
    else voltha_flow_to_device_flow s' = voltha_flow_to_device_flow s \<and>
      symmetric_datapath_flow_id_map s' = symmetric_datapath_flow_id_map s \<and>
      (flow_id_bitset s' = flow_id_bitset s \<or>
       code st = RESOURCE_EXHAUSTED \<and> flow_id_bitset s' = insert 0 (flow_id_bitset s))"
  by (rule FlowAddWrapper_fresh [OF assms]) (auto simp: added_fresh_def)

definition sample_flow :: "uint64 \<Rightarrow> string \<Rightarrow> flow" where
  "sample_flow v t =
     \<lparr>access_intf_id = 0, onu_id = 1, uni_id = 0, network_intf_id = 0, port_no = 16, flow_id = v,
      flow_type = t, gemport_id = 1024, f_classifier = sample_classifier 7,
      f_action = \<lparr>a_cmd = \<lparr>add_outer_tag = True, remove_outer_tag = False, translate_outer_tag = False,
                            trap_to_host = False\<rparr>, a_o_vid = 7, a_o_pbits = 0, a_i_vid = 0, a_i_pbits = 0\<rparr>,
      priority = 0, cookie = 5, group_id = 0, tech_profile_id = 64, replicate_flow = False,
      pbit_to_gemport = [], gemport_to_aes = []\<rparr>"

lemma sample_flow_sel [simp]:
  "flow_id (sample_flow v t) = v" "flow_type (sample_flow v t) = t" "onu_id (sample_flow v t) = 1"
  "\<not> replicate_flow (sample_flow v t)" "gemport_id (sample_flow v t) = 1024"
  "is_datapath_flow (sample_flow v t) \<longleftrightarrow> t \<noteq> multicast"
  "with_valid_onu (sample_flow v t) = sample_flow v t"
  "datapath_key (sample_flow v t) d = (0, 1, 0, 64, d)"
  by (simp_all add: sample_flow_def is_datapath_flow_def with_valid_onu_def datapath_key_def)

lemma flow_id_search_init [simp]: "1 \<notin> B \<Longrightarrow> flow_id_search B 1 = Some 1"
  by (subst flow_id_search_simp) simp

lemma sample_FlowAdd [simp]:
  "fst (FlowAdd (const_platform ok_rsp) 1 False (sample_flow v upstream)
     (init_olt\<lparr>flow_id_bitset := {Suc 0}\<rparr>)) = Status_OK"
  by (simp add: FlowAdd_def flow_key_type_def sample_flow_def record_flow_port_def flow_message_def
      flow_qos_def get_qos_type_def get_tm_sched_id_def Let_def commit_flow_def bal_err_def bal_call_def
      split: prod.splits)

lemma sample_add_single:
  "\<exists>u. add_single (const_platform ok_rsp) (sample_flow 9 upstream) init_olt = Some (Inr Status_OK, u)"
proof -
  let ?r = "sample_flow 9 upstream" and ?P = "const_platform ok_rsp"
  have aes: "\<not> get_aes_flag_for_gem_port (gemport_to_aes ?r) g" for g by (simp add: sample_flow_def)
  obtain u where u: "FlowAdd ?P 1 False ?r (init_olt\<lparr>flow_id_bitset := {Suc 0}\<rparr>) = (Status_OK, u)"
    by (metis prod.collapse sample_FlowAdd)
  have "code Status_OK = OK" by (simp add: Status_OK_def)
  then show ?thesis
    by (simp add: add_single_def get_flow_id_eq aes u INVALID_FLOW_ID_def Let_def)
qed

theorem add_voltha_flow_outcome_witness:
  "\<exists>st s' d. FlowAddWrapper (const_platform ok_rsp) (sample_flow 9 upstream) init_olt = Some (st, s') \<and>
     voltha_flow_to_device_flow s' = [9 \<mapsto> d] \<and> flow_id_bitset s' = unat ` set (device_flow_ids d)"
proof -
  let ?r = "sample_flow 9 upstream" and ?P = "const_platform ok_rsp"
  have symm: "find_symmetric_flow ?r init_olt = 0" by (simp add: find_symmetric_flow_def)
  have "\<exists>st s'. FlowAddWrapper ?P ?r init_olt = Some (st, s') \<and> code st = OK"
    using sample_add_single
    by (auto simp: FlowAddWrapper_def symm is_voltha_flow_installed_def add_voltha_flow_def Status_OK_def)
  then obtain st s' where run: "FlowAddWrapper ?P ?r init_olt = Some (st, s')" "code st = OK" by blast
  have "\<not> has_symmetric ?r init_olt" by (simp add: has_symmetric_def symm)
  from add_voltha_flow_outcome [OF this _ run(1)] show ?thesis using run by auto
qed


lemma const_clears [simp]: "clears_accepted (const_platform ok_rsp)"
  by (simp add: clears_accepted_def)

definition zero_onu_flow :: flow where
  "zero_onu_flow = (sample_flow 9 upstream)\<lparr>onu_id := 0\<rparr>"

lemma sample_installed:
  "\<exists>s'. FlowAddWrapper (const_platform ok_rsp) zero_onu_flow init_olt = Some (Status_OK, s')"
proof -
  let ?r = "sample_flow 9 upstream" and ?P = "const_platform ok_rsp"
  have r: "with_valid_onu zero_onu_flow = ?r" by (simp add: zero_onu_flow_def with_valid_onu_def sample_flow_def)
  have symm: "find_symmetric_flow zero_onu_flow init_olt = 0" by (simp add: find_symmetric_flow_def)
  obtain u where "add_single ?P ?r init_olt = Some (Inr Status_OK, u)" using sample_add_single by blast
  then show ?thesis
    by (simp add: FlowAddWrapper_def symm r is_voltha_flow_installed_def add_voltha_flow_def Let_def)
qed


text \<open>
  Adding a flow that is not replicated and whose symmetric flow is installed.  It always returns;
  accepted (or already there for BAL), it is cached with the device flow id of the symmetric flow and
  no id becomes used.  Refused, that id is given back although the symmetric flow still uses it.
\<close>

theorem symmetric_flow_shares_id:
  assumes "has_symmetric r s" "voltha_flow_to_device_flow s (flow_id r) = None" "\<not> replicate_flow r"
    and "voltha_flow_to_device_flow s (find_symmetric_flow r s) = Some d0"
  shows "\<exists>st s'. FlowAddWrapper P r s = Some (st, s') \<and>
    (if accepted st then flow_id_bitset s' = flow_id_bitset s \<and>
       (\<exists>d. voltha_flow_to_device_flow s' = (voltha_flow_to_device_flow s)(flow_id r \<mapsto> d) \<and>
            device_flow_ids d = [dfp_flow_id (df_params d0 0)])
     else flow_id_bitset s' = flow_id_bitset s - {unat (dfp_flow_id (df_params d0 0))} \<and>
       voltha_flow_to_device_flow s' (find_symmetric_flow r s) = Some d0)"
proof -
  obtain st u where u: "add_device_flow P (with_valid_onu r) (df_params d0 0) s = (st, u)" by fastforce
  note book = flow_book_eqD [OF add_device_flow_book [OF u]]
  show ?thesis using assms book u
    by (cases "accepted st")
      (auto simp: FlowAddWrapper_def is_voltha_flow_installed_def has_symmetric_def add_voltha_flow_def
        get_device_flow_params_def add_symmetric_def update_voltha_flow_to_cache_def free_flow_id_def Let_def)
qed

definition sample_device_flow :: "uint64 \<Rightarrow> string \<Rightarrow> device_flow" where
  "sample_device_flow v t =
     \<lparr>is_flow_replicated = False, df_flow_type = t,
      df_params = (\<lambda>_. \<lparr>dfp_pbit = 0, dfp_gemport_id = 1024, dfp_flow_id = 1\<rparr>),
      total_replicated_flows = 0, df_voltha_flow_id = v, symmetric_voltha_flow_id = 0\<rparr>"

definition sample_installed_state :: olt where
  "sample_installed_state = init_olt\<lparr>flow_id_bitset := {1},
     voltha_flow_to_device_flow := [9 \<mapsto> sample_device_flow 9 upstream],
     symmetric_datapath_flow_id_map := [(0, 1, 0, 64, upstream) \<mapsto> 9]\<rparr>"

theorem symmetric_flow_shares_id_witness:
  "\<exists>st s'. FlowAddWrapper (const_platform ok_rsp) (sample_flow 10 downstream) sample_installed_state
     = Some (st, s') \<and> (accepted st \<longrightarrow> flow_id_bitset s' = {1})"
proof -
  let ?r = "sample_flow 10 downstream" and ?s = "sample_installed_state"
  have symm: "find_symmetric_flow ?r ?s = 9"
    by (simp add: find_symmetric_flow_def sample_installed_state_def)
  have cached: "voltha_flow_to_device_flow ?s 9 = Some (sample_device_flow 9 upstream)"
    by (simp add: sample_installed_state_def)
  have "has_symmetric ?r ?s" by (simp add: has_symmetric_def symm is_voltha_flow_installed_def cached)
  moreover have "voltha_flow_to_device_flow ?s (flow_id ?r) = None" by (simp add: sample_installed_state_def)
  ultimately have "\<exists>st s'. FlowAddWrapper (const_platform ok_rsp) ?r ?s = Some (st, s') \<and>
      (accepted st \<longrightarrow> flow_id_bitset s' = flow_id_bitset ?s)"
    using symmetric_flow_shares_id [of ?r ?s "sample_device_flow 9 upstream" "const_platform ok_rsp"]
    by (fastforce simp: symm cached)
  then show ?thesis by (simp add: sample_installed_state_def)
qed



text \<open>
  C26: adding a flow returns, whatever BAL answers and whichever branch it takes, as long as eight flow
  ids from 1 on are free.
\<close>

theorem flow_add_returns:
  assumes "8 \<le> card ({1..65535} - flow_id_bitset s)"
  shows "\<exists>st s'. FlowAddWrapper P r s = Some (st, s')"
proof -
  let ?q = "with_valid_onu r" and ?symm = "find_symmetric_flow r s"
  have "\<exists>x. add_single P ?q s = Some x"
  proof -
    have "\<not> {1..65535} \<subseteq> flow_id_bitset s" using assms by (metis Diff_eq_empty_iff card.empty not_numeral_le_zero)
    then have "\<not> {0..65535} \<subseteq> flow_id_bitset s" by auto
    then obtain f where "flow_id_search (flow_id_bitset s) 1 = Some f" using flow_id_search_None by auto
    then show ?thesis by (auto simp: add_single_def get_flow_id_eq split: prod.splits)
  qed
  moreover have "\<exists>x. add_with_replication P ?q s = Some x"
  proof (cases "length (pbit_to_gemport ?q) \<le> 8")
    case True
    then obtain fs where "get_flow_ids (int (length (pbit_to_gemport ?q))) s =
        Some ((True, fs), s\<lparr>flow_id_bitset := flow_id_bitset s \<union> unat ` set fs\<rparr>)"
      using get_flow_ids_enough [of "int (length (pbit_to_gemport ?q))" s] assms by fastforce
    then show ?thesis using True
      by (auto simp: add_with_replication_def NUMBER_OF_PBITS_def Let_def split: prod.splits sum.splits)
  next
    case False
    then show ?thesis by (auto simp: add_with_replication_def NUMBER_OF_PBITS_def)
  qed
  ultimately have "\<exists>x. add_voltha_flow P ?q ?symm s = Some x"
    by (auto simp: add_voltha_flow_def split: option.splits)
  then have "FlowAddWrapper P r s \<noteq> None" by (auto simp only: FlowAddWrapper_def Let_def option.map split: if_splits)
  then show ?thesis by (cases "FlowAddWrapper P r s") auto
qed

theorem flow_add_returns_witness:
  "\<exists>st s'. FlowAddWrapper (const_platform ok_rsp) zero_onu_flow init_olt = Some (st, s')"
  by (rule flow_add_returns) simp

end
