(* ===== verification/Onu.thy ===== *)
theory Onu
  imports Voltha_Flow
begin

text \<open>
  The ONUs (\<open>agent/src/core_api_handler.cc\<close>): activation and deactivation, deletion, enabling and
  disabling by id or by serial number, the OMCI messages and packets sent to them, and the printed
  form of serial numbers (\<open>agent/src/core_utils.cc\<close>).  Bytes are \<open>int list\<close>; a packet is a \<open>string\<close>.
\<close>

section \<open>Serial numbers\<close>

unbundle bit_operations_syntax

text \<open>The C string in a buffer ends at its first zero.\<close>

definition c_str :: "string \<Rightarrow> string" where
  "c_str s = takeWhile (\<lambda>c. c \<noteq> CHR 0x00) s"

definition hex_digits :: string where
  "hex_digits = ''0123456789ABCDEF''"

definition hex_byte :: "uint8 \<Rightarrow> string" where
  "hex_byte b = [hex_digits ! unat (drop_bit 4 b AND 0x0f), hex_digits ! unat (b AND 0x0f)]"

definition byte_char :: "uint8 \<Rightarrow> char" where
  "byte_char b = char_of (unat b)"

record bcmolt_serial_number =
  sn_vendor_id :: "uint8 list"
  sn_vendor_specific :: "uint8 list"

definition vendor_specific_to_str :: "uint8 list \<Rightarrow> string" where
  "vendor_specific_to_str v = concat (map hex_byte (take 4 v))"

definition serial_number_to_str :: "bcmolt_serial_number \<Rightarrow> string" where
  "serial_number_to_str sn =
     c_str (map byte_char (take 4 (sn_vendor_id sn)) @ vendor_specific_to_str (sn_vendor_specific sn))"

section \<open>Activation\<close>

definition set_onu_state :: "platform \<Rightarrow> uint32 \<Rightarrow> uint32 \<Rightarrow> string \<Rightarrow> olt \<Rightarrow> bcmos_errno \<times> olt" where
  "set_onu_state P intf onu operation s =
     bal_err P (Oper_submit (onu_obj (uint intf) (uint onu)) ''set_onu_state''
                  [(''onu_state'', Sym operation)]) s"

definition onu_fields :: "platform \<Rightarrow> uint32 \<Rightarrow> uint32 \<Rightarrow> int list \<Rightarrow> int list \<Rightarrow> olt \<Rightarrow> fields" where
  "onu_fields P intf onu vendor_id vendor_specific s =
     [(''itu.serial_number'', Flds [(''vendor_id'', Bytes (copied_bytes P s 4 vendor_id)),
                                    (''vendor_specific'', Bytes (copied_bytes P s 4 vendor_specific))]),
      (''itu.auto_learning'', Sym ''BCMOS_TRUE'')] @
     (if intf_technologies s (unat intf) = ''XGS-PON''
      then [(''itu.xgpon.ranging_burst_profile'', Num 2), (''itu.xgpon.data_burst_profile'', Num 1)]
      else if intf_technologies s (unat intf) = ''GPON''
      then [(''itu.gpon.ds_ber_reporting_interval'', Num 1000000),
            (''itu.gpon.omci_port_id'', Num (uint onu))]
      else [])"

text \<open>The second half of the activation of an inactive ONU: encryption of the OMCC, then the state.\<close>

definition activate_configured_onu :: "platform \<Rightarrow> uint32 \<Rightarrow> uint32 \<Rightarrow> bool \<Rightarrow> olt \<Rightarrow> status \<times> olt" where
  "activate_configured_onu P intf onu omcc_encryption s =
     (let (err, s) = (if omcc_encryption
                      then bal_err P (Cfg_set (gem_obj (uint intf) (uint onu))
                             [(''encryption_mode'', Sym ''BCMOLT_CONTROL_STATE_ENABLE'')]) s
                      else (BCM_ERR_OK, s))
      in if err \<noteq> BCM_ERR_OK
         then (bcm_to_grpc_err P err ''Access_Control set ITU PON OMCI Gem port failed'', s)
         else
           let (err, s) = set_onu_state P intf onu ''BCMOLT_ONU_OPERATION_ACTIVE'' s
           in if err \<noteq> BCM_ERR_OK then (bcm_to_grpc_err P err ''Failed to activate ONU'', s)
              else (Status_OK, s))"

definition ActivateOnu ::
    "platform \<Rightarrow> uint32 \<Rightarrow> uint32 \<Rightarrow> int list \<Rightarrow> int list \<Rightarrow> bool \<Rightarrow> olt \<Rightarrow> status \<times> olt" where
  "ActivateOnu P intf onu vendor_id vendor_specific omcc_encryption s =
     (let ((err, st), s) = get_onu_state P (uint intf) (uint onu) s
      in if err \<noteq> BCM_ERR_OK then (bcm_to_grpc_err P err ''onu get failed'', s)
         else if st = BCMOLT_ONU_STATE_ACTIVE then (Status_OK, s)
         else if st \<noteq> BCMOLT_ONU_STATE_NOT_CONFIGURED \<and> st \<noteq> BCMOLT_ONU_STATE_INACTIVE
         then (bcm_to_grpc_err P err ''Failed to activate ONU, invalid ONU state'', s)
         else
           let (err, s) = (if st = BCMOLT_ONU_STATE_NOT_CONFIGURED
                           then bal_err P (Cfg_set (onu_obj (uint intf) (uint onu))
                                  (onu_fields P intf onu vendor_id vendor_specific s)) s
                           else (BCM_ERR_OK, s))
           in if err \<noteq> BCM_ERR_OK then (bcm_to_grpc_err P err ''Failed to configure ONU'', s)
              else activate_configured_onu P intf onu omcc_encryption s)"

definition DeactivateOnu :: "platform \<Rightarrow> uint32 \<Rightarrow> uint32 \<Rightarrow> olt \<Rightarrow> status \<times> olt" where
  "DeactivateOnu P intf onu s =
     (let ((err, st), s) = get_onu_state P (uint intf) (uint onu) s
      in if err \<noteq> BCM_ERR_OK then (bcm_to_grpc_err P err ''Failed to get onu config'', s)
         else if st = BCMOLT_ONU_STATE_ACTIVE then
           let (err, s) = set_onu_state P intf onu ''BCMOLT_ONU_OPERATION_INACTIVE'' s
           in if err \<noteq> BCM_ERR_OK then (bcm_to_grpc_err P err ''Failed to deactivate ONU'', s)
              else (Status_OK, s)
         else (Status_OK, s))"

definition DeleteOnu :: "platform \<Rightarrow> uint32 \<Rightarrow> uint32 \<Rightarrow> olt \<Rightarrow> status \<times> olt" where
  "DeleteOnu P intf onu s =
     (let (st, s) = DeactivateOnu P intf onu s
      in if code st \<noteq> OK then (st, s)
         else
           let ((err, onu_state), s) = get_onu_state P (uint intf) (uint onu) s
           in if err \<noteq> BCM_ERR_OK then (bcm_to_grpc_err P err ''Failed to delete ONU'', s)
              else
                let (err, s) = (if onu_state \<noteq> BCMOLT_ONU_STATE_INACTIVE
                                then wait_for_onu_deactivate_complete P intf onu s
                                else (BCM_ERR_OK, s))
                in if err \<noteq> BCM_ERR_OK then (bcm_to_grpc_err P err ''Failed to delete ONU'', s)
                   else
                     let (err, s) = bal_err P (Cfg_clear (onu_obj (uint intf) (uint onu))) s
                     in if err \<noteq> BCM_ERR_OK then (Status_of INTERNAL ''Failed to delete ONU'', s)
                        else (Status_OK, s))"

section \<open>Disabling and enabling\<close>

definition DisableOnu :: "platform \<Rightarrow> uint32 \<Rightarrow> uint32 \<Rightarrow> olt \<Rightarrow> status \<times> olt" where
  "DisableOnu P intf onu s =
     (let (err, s) = set_onu_state P intf onu ''BCMOLT_ONU_OPERATION_DISABLE'' s
      in if err \<noteq> BCM_ERR_OK then (bcm_to_grpc_err P err ''Failed to disable onu'', s)
         else (Status_OK, s))"

definition EnableOnu :: "platform \<Rightarrow> uint32 \<Rightarrow> uint32 \<Rightarrow> olt \<Rightarrow> status \<times> olt" where
  "EnableOnu P intf onu s =
     (let (err, s) = set_onu_state P intf onu ''BCMOLT_ONU_OPERATION_ENABLE'' s
      in if err \<noteq> BCM_ERR_OK then (bcm_to_grpc_err P err ''Failed to enable onu'', s)
         else (Status_OK, s))"

definition disable_serial_number ::
    "platform \<Rightarrow> uint32 \<Rightarrow> int list \<Rightarrow> int list \<Rightarrow> string \<Rightarrow> olt \<Rightarrow> bcmos_errno \<times> olt" where
  "disable_serial_number P intf vendor_id vendor_specific control s =
     bal_err P (Oper_submit (Obj ''pon_interface'' [uint intf]) ''disable_serial_number''
       [(''control'', Sym control),
        (''serial_number'', Flds [(''vendor_id'', Bytes (copied_bytes P s 4 vendor_id)),
                                  (''vendor_specific'', Bytes (copied_bytes P s 4 vendor_specific))])]) s"

definition DisableOnuSerialNumber ::
    "platform \<Rightarrow> uint32 \<Rightarrow> int list \<Rightarrow> int list \<Rightarrow> olt \<Rightarrow> status \<times> olt" where
  "DisableOnuSerialNumber P intf vendor_id vendor_specific s =
     (let (err, s) = disable_serial_number P intf vendor_id vendor_specific
                       ''BCMOLT_DISABLE_SERIAL_NUMBER_CONTROL_UNICAST_DISABLE'' s
      in if err \<noteq> BCM_ERR_OK then (bcm_to_grpc_err P err ''Failed to disable onu serialnumber'', s)
         else (Status_OK, s))"

definition EnableOnuSerialNumber ::
    "platform \<Rightarrow> uint32 \<Rightarrow> int list \<Rightarrow> int list \<Rightarrow> olt \<Rightarrow> status \<times> olt" where
  "EnableOnuSerialNumber P intf vendor_id vendor_specific s =
     (let (err, s) = disable_serial_number P intf vendor_id vendor_specific
                       ''BCMOLT_DISABLE_SERIAL_NUMBER_CONTROL_UNICAST_ENABLE'' s
      in if err \<noteq> BCM_ERR_OK then (bcm_to_grpc_err P err ''Failed to enable onu serialnumber'', s)
         else (Status_OK, s))"

section \<open>OMCI messages\<close>

text \<open>
  \<open>strtol\<close> in base 16 on a C string: white space, a sign, an optional \<open>0x\<close>, and digits up to the
  first character that is none.  The strings here have at most two characters, so the value needs no
  clamping to the range of \<open>long\<close>.
\<close>

definition hex_digit :: "char \<Rightarrow> nat option" where
  "hex_digit c =
     (let n = of_char c :: nat
      in if 48 \<le> n \<and> n \<le> 57 then Some (n - 48)
         else if 65 \<le> n \<and> n \<le> 70 then Some (n - 55)
         else if 97 \<le> n \<and> n \<le> 102 then Some (n - 87)
         else None)"

fun hex_digits_value :: "nat \<Rightarrow> string \<Rightarrow> nat" where
  "hex_digits_value acc [] = acc"
| "hex_digits_value acc (c # cs) =
     (case hex_digit c of Some d \<Rightarrow> hex_digits_value (16 * acc + d) cs | None \<Rightarrow> acc)"

definition is_c_space :: "char \<Rightarrow> bool" where
  "is_c_space c \<longleftrightarrow> (let n = of_char c :: nat in n = 32 \<or> (9 \<le> n \<and> n \<le> 13))"

fun strip_0x :: "string \<Rightarrow> string" where
  "strip_0x (a # b # c # cs) =
     (if a = CHR ''0'' \<and> (b = CHR ''x'' \<or> b = CHR ''X'') \<and> hex_digit c \<noteq> None then c # cs else a # b # c # cs)"
| "strip_0x cs = cs"

definition strtol16 :: "string \<Rightarrow> int" where
  "strtol16 s =
     (case dropWhile is_c_space s of
        [] \<Rightarrow> 0
      | c # cs \<Rightarrow>
          if c = CHR ''-'' then - int (hex_digits_value 0 (strip_0x cs))
          else if c = CHR ''+'' then int (hex_digits_value 0 (strip_0x cs))
          else int (hex_digits_value 0 (strip_0x (c # cs))))"

definition MAX_OMCI_MSG_LENGTH :: nat where "MAX_OMCI_MSG_LENGTH = 44"

definition omci_length :: "string \<Rightarrow> nat" where
  "omci_length pkt =
     (if length pkt div 2 > MAX_OMCI_MSG_LENGTH then MAX_OMCI_MSG_LENGTH else length pkt div 2)"

text \<open>Each character goes through a C string of its own, so a zero character vanishes.\<close>

definition omci_byte :: "string \<Rightarrow> nat \<Rightarrow> uint8" where
  "omci_byte pkt i = word_of_int (strtol16 (c_str [pkt ! (2 * i)] @ c_str [pkt ! (2 * i + 1)]))"

definition omci_bytes :: "string \<Rightarrow> uint8 list" where
  "omci_bytes pkt = map (omci_byte pkt) [0..<omci_length pkt]"

definition OmciMsgOut :: "platform \<Rightarrow> uint32 \<Rightarrow> uint32 \<Rightarrow> string \<Rightarrow> olt \<Rightarrow> status \<times> olt" where
  "OmciMsgOut P intf onu pkt s =
     (let (err, s) = bal_err P (Oper_submit (onu_obj (uint intf) (uint onu)) ''cpu_packets''
            [(''packet_type'', Sym ''BCMOLT_PACKET_TYPE_OMCI''), (''calc_crc'', Sym ''BCMOS_TRUE''),
             (''number_of_packets'', Num 1), (''packet_size'', Num (int (omci_length pkt))),
             (''buffer'', Bytes (map uint (omci_bytes pkt)))]) s
      in if err \<noteq> BCM_ERR_OK then (bcm_to_grpc_err P err ''send OMCI failed'', s)
         else (Status_OK, s))"

section \<open>Packets to an ONU and to the network\<close>

text \<open>The GEM port of the least flow of a port, if both are known.\<close>

definition gem_of_port :: "uint32 \<Rightarrow> olt \<Rightarrow> uint32 option" where
  "gem_of_port port s =
     (case port_to_flows s port of
        None \<Rightarrow> None
      | Some fs \<Rightarrow> if fs = {} then None else flowid_to_gemport s (Min fs))"

definition send_to_gem :: "platform \<Rightarrow> uint32 \<Rightarrow> uint32 \<Rightarrow> int list \<Rightarrow> olt \<Rightarrow> olt" where
  "send_to_gem P intf gem pkt s =
     snd (bal_err P (Oper_submit (Obj ''pon_interface'' [uint intf]) ''cpu_packets''
            [(''packet_type'', Sym ''BCMOLT_PACKET_TYPE_ETH''), (''calc_crc'', Sym ''BCMOS_TRUE''),
             (''gem_port_list'', Flds [(''0'', Num (uint gem))]), (''buffer'', Bytes pkt)]) s)"

definition OnuPacketOut ::
    "platform \<Rightarrow> uint32 \<Rightarrow> uint32 \<Rightarrow> uint32 \<Rightarrow> uint32 \<Rightarrow> int list \<Rightarrow> olt \<Rightarrow> status \<times> olt" where
  "OnuPacketOut P intf onu port gem pkt s =
     (if port > 0 then
        (case (if gem = 0 then gem_of_port port s else Some gem) of
           None \<Rightarrow> (Status_of NOT_FOUND ''no flow for port_no'', s)
         | Some g \<Rightarrow> (Status_OK, send_to_gem P intf g pkt s))
      else (Status_OK, s))"

definition is_uplink_flow :: "platform \<Rightarrow> uint16 \<Rightarrow> olt \<Rightarrow> bool \<times> olt" where
  "is_uplink_flow P f s =
     status_matches P f BCMOLT_FLOW_TYPE_UPSTREAM
       [(FLOW_TYPE, of_nat (flow_type_num BCMOLT_FLOW_TYPE_UPSTREAM)),
        (INGRESS_INTF_TYPE, word_of_int (enum_value P ''BCMOLT_FLOW_INTERFACE_TYPE_PON'')),
        (EGRESS_INTF_TYPE, word_of_int (enum_value P ''BCMOLT_FLOW_INTERFACE_TYPE_NNI''))] s"

fun find_uplink_flow :: "platform \<Rightarrow> (uint16 \<times> bcmolt_flow_type, int) omap \<Rightarrow> olt \<Rightarrow> uint16 option \<times> olt" where
  "find_uplink_flow P [] s = (None, s)"
| "find_uplink_flow P (((f, _), _) # m) s =
     (let (b, s) = is_uplink_flow P f s
      in if b then (Some f, s) else find_uplink_flow P m s)"

text \<open>The flow of the message; when no flow matches, the key keeps the invalid id.\<close>

definition uplink_flow :: "platform \<Rightarrow> olt \<Rightarrow> uint16 option \<times> olt" where
  "uplink_flow P s =
     (let (b, s) = is_uplink_flow P INVALID_FLOW_ID s
      in if b then (Some INVALID_FLOW_ID, s)
         else if flow_id_counters s \<noteq> 0 then
           let (f, s) = find_uplink_flow P (flow_map s) s
           in (Some (case f of Some f \<Rightarrow> f | None \<Rightarrow> 0), s)
         else (None, s))"

definition UplinkPacketOut :: "platform \<Rightarrow> uint32 \<Rightarrow> int list \<Rightarrow> olt \<Rightarrow> status \<times> olt" where
  "UplinkPacketOut P intf pkt s =
     (case uplink_flow P s of
        (None, s) \<Rightarrow> (Status_of NOT_FOUND ''no flow id found'', s)
      | (Some f, s) \<Rightarrow>
          let (err, s) = bal_err P (Oper_submit (flow_obj f BCMOLT_FLOW_TYPE_UPSTREAM) ''send_eth_packet''
                                     [(''buffer'', Bytes pkt)]) s
          in if err \<noteq> BCM_ERR_OK
             then (bcm_to_grpc_err P BCM_ERR_SYSCALL_ERR ''Error sending packets via nni port'', s)
             else (Status_OK, s))"

section \<open>Hexadecimal text\<close>

lemma length_hex_digits: "length hex_digits = 16"
  by (simp add: hex_digits_def)

lemma hex_digit_nth: "n < 16 \<Longrightarrow> hex_digit (hex_digits ! n) = Some n"
proof -
  assume "n < 16"
  then have "n \<in> set [0..<16]" by simp
  moreover have "map hex_digit hex_digits = map Some [0..<16]"
    by (simp add: hex_digits_def hex_digit_def upt_rec)
  ultimately show "hex_digit (hex_digits ! n) = Some n"
    using \<open>n < 16\<close> by (metis add_0 length_hex_digits nth_map nth_upt length_upt diff_zero)
qed

text \<open>What the parser does on digits, upper or lower case.\<close>

lemma hex_digit_not_special:
  assumes "hex_digit c = Some d"
  shows "\<not> is_c_space c" "c \<noteq> CHR ''-''" "c \<noteq> CHR ''+''" "c \<noteq> CHR 0x00" "d < 16"
  using assms by (auto simp: hex_digit_def is_c_space_def Let_def split: if_splits)

lemma strtol16_two:
  assumes "hex_digit a = Some x" "hex_digit b = Some y"
  shows "strtol16 (c_str [a] @ c_str [b]) = int (16 * x + y)"
  using assms hex_digit_not_special [OF assms(1)] hex_digit_not_special [OF assms(2)]
  by (simp add: strtol16_def c_str_def)

lemma nibbles:
  "unat (drop_bit 4 b AND 0x0f :: uint8) < 16" "unat (b AND 0x0f :: uint8) < 16"
  "16 * unat (drop_bit 4 b AND 0x0f :: uint8) + unat (b AND 0x0f) = unat b"
proof -
  have lo: "unat (x AND 0x0f) = unat x mod 16" for x :: uint8
  proof -
    have "x AND 0x0f = take_bit 4 x" by (simp add: take_bit_eq_mask mask_eq_decr_exp)
    moreover have "unat (take_bit 4 x) = take_bit 4 (unat x)" by (rule unsigned_take_bit_eq)
    ultimately show ?thesis by (simp add: take_bit_eq_mod)
  qed
  have hi: "unat (drop_bit 4 b) = unat b div 16"
    by (simp add: drop_bit_eq_div unat_div)
  have "unat b < 2 ^ 8" using unsigned_less [of b, where 'a = nat] by simp
  then have "unat b div 16 < 16" by simp
  then show "unat (drop_bit 4 b AND 0x0f :: uint8) < 16" "unat (b AND 0x0f :: uint8) < 16"
    "16 * unat (drop_bit 4 b AND 0x0f :: uint8) + unat (b AND 0x0f) = unat b"
    by (simp_all add: lo hi)
qed

lemma hex_byte_digits:
  "map hex_digit (hex_byte b) = [Some (unat (drop_bit 4 b AND 0x0f)), Some (unat (b AND 0x0f))]"
  by (simp add: hex_byte_def hex_digit_nth nibbles)

lemma hex_byte_inject: "hex_byte a = hex_byte b \<longleftrightarrow> a = b"
proof
  assume "hex_byte a = hex_byte b"
  then have "map hex_digit (hex_byte a) = map hex_digit (hex_byte b)" by simp
  then have "unat a = unat b" unfolding hex_byte_digits by (metis list.inject nibbles(3) option.inject)
  then show "a = b" by (rule unsigned_word_eqI)
qed simp

lemma length_hex [simp]: "length (concat (map hex_byte bs)) = 2 * length bs"
  by (induction bs) (simp_all add: hex_byte_def)

lemma nth_hex:
  "i < length bs \<Longrightarrow> concat (map hex_byte bs) ! (2 * i) = hex_byte (bs ! i) ! 0 \<and>
     concat (map hex_byte bs) ! (2 * i + 1) = hex_byte (bs ! i) ! 1"
proof (induction bs arbitrary: i)
  case (Cons b bs)
  then show ?case by (cases i) (simp_all add: hex_byte_def)
qed simp

lemma length_hex_byte [simp]: "length (hex_byte b) = 2"
  by (simp add: hex_byte_def)

lemma omci_byte_hex: "i < length bs \<Longrightarrow> omci_byte (concat (map hex_byte bs)) i = bs ! i"
proof -
  assume i: "i < length bs"
  let ?b = "bs ! i"
  have d: "hex_digit (hex_byte ?b ! 0) = Some (unat (drop_bit 4 ?b AND 0x0f))"
    "hex_digit (hex_byte ?b ! 1) = Some (unat (?b AND 0x0f))"
    by (simp_all add: hex_byte_def hex_digit_nth nibbles)
  have "strtol16 (c_str [hex_byte ?b ! 0] @ c_str [hex_byte ?b ! 1]) = int (unat ?b)"
    unfolding strtol16_two [OF d] nibbles(3) ..
  then show ?thesis using nth_hex [OF i] by (simp add: omci_byte_def)
qed

section \<open>Properties\<close>

text \<open>
  C29: the hexadecimal text of an OMCI message is decoded to the bytes it encodes: the message of the
  first 44 of them (all, when there are no more) goes to the ONU, with that length, and the call
  succeeds exactly when BAL accepts it.
\<close>

theorem omci_message_roundtrip:
  "OmciMsgOut P intf onu (concat (map hex_byte bs)) s =
     (let q = Oper_submit (onu_obj (uint intf) (uint onu)) ''cpu_packets''
                [(''packet_type'', Sym ''BCMOLT_PACKET_TYPE_OMCI''), (''calc_crc'', Sym ''BCMOS_TRUE''),
                 (''number_of_packets'', Num 1), (''packet_size'', Num (int (min 44 (length bs)))),
                 (''buffer'', Bytes (map uint (take 44 bs)))];
          err = r_err (bal_rsp_of P q s)
      in (if err = BCM_ERR_OK then Status_OK else bcm_to_grpc_err P err ''send OMCI failed'',
          s\<lparr>bal_trace := q # bal_trace s\<rparr>))"
proof -
  have "omci_length (concat (map hex_byte bs)) = min 44 (length bs)"
    by (simp add: omci_length_def MAX_OMCI_MSG_LENGTH_def)
  moreover have "omci_bytes (concat (map hex_byte bs)) = take 44 bs"
    unfolding omci_bytes_def calculation by (rule nth_equalityI) (auto simp: omci_byte_hex)
  ultimately show ?thesis by (simp add: OmciMsgOut_def bal_err_def bal_call_def Let_def)
qed

text \<open>
  The printed serial number identifies the ONU: two serial numbers with a vendor id of four
  non-zero bytes and four vendor specific bytes print alike only when they are equal.
\<close>

theorem serial_number_injective:
  assumes "length (sn_vendor_id a) = 4" "length (sn_vendor_specific a) = 4" "0 \<notin> set (sn_vendor_id a)"
    and "length (sn_vendor_id b) = 4" "length (sn_vendor_specific b) = 4" "0 \<notin> set (sn_vendor_id b)"
    and "serial_number_to_str a = serial_number_to_str b"
  shows "a = (b :: bcmolt_serial_number)"
proof -
  have nz: "byte_char x \<noteq> CHR 0x00" if "x \<noteq> 0" for x
  proof
    assume "byte_char x = CHR 0x00"
    then have "of_char (byte_char x) = (of_char (CHR 0x00) :: nat)" by simp
    then have "unat x = 0" using unsigned_less [of x, where 'a = nat] by (simp add: byte_char_def)
    then show False using that by (simp add: unat_eq_0)
  qed
  have hexnz: "c \<noteq> CHR 0x00" if "c \<in> set (hex_byte x)" for c x
    using that hex_byte_digits [of x] hex_digit_not_special(4)
    by (fastforce simp: hex_byte_def)
  have full: "serial_number_to_str x =
      map byte_char (sn_vendor_id x) @ concat (map hex_byte (sn_vendor_specific x))"
    if "length (sn_vendor_id x) = 4" "length (sn_vendor_specific x) = 4" "0 \<notin> set (sn_vendor_id x)"
    for x :: bcmolt_serial_number
  proof -
    let ?t = "map byte_char (sn_vendor_id x) @ concat (map hex_byte (sn_vendor_specific x))"
    have "\<forall>y\<in>set (sn_vendor_id x). byte_char y \<noteq> CHR 0x00" using that(3) nz by metis
    then have "\<forall>c\<in>set ?t. c \<noteq> CHR 0x00" using hexnz by fastforce
    then have "c_str ?t = ?t" unfolding c_str_def by (simp add: takeWhile_eq_all_conv)
    then show ?thesis using that by (simp add: serial_number_to_str_def vendor_specific_to_str_def)
  qed
  have "map byte_char (sn_vendor_id a) = map byte_char (sn_vendor_id b)"
    and "concat (map hex_byte (sn_vendor_specific a)) = concat (map hex_byte (sn_vendor_specific b))"
    using assms(7) full assms(1-6) by (simp_all add: append_eq_append_conv)
  moreover have "inj byte_char"
  proof (rule injI)
    fix x y assume "byte_char x = byte_char y"
    then have "of_char (byte_char x) = (of_char (byte_char y) :: nat)" by simp
    then have "unat x = unat y"
      using unsigned_less [of x, where 'a = nat] unsigned_less [of y, where 'a = nat]
      by (simp add: byte_char_def)
    then show "x = y" by (rule unsigned_word_eqI)
  qed
  ultimately have "sn_vendor_id a = sn_vendor_id b" by (simp add: inj_map_eq_map)
  moreover have "sn_vendor_specific a = sn_vendor_specific b"
  proof (rule nth_equalityI)
    fix i assume "i < length (sn_vendor_specific a)"
    then show "sn_vendor_specific a ! i = sn_vendor_specific b ! i"
      using omci_byte_hex [of i "sn_vendor_specific a"] omci_byte_hex [of i "sn_vendor_specific b"]
        assms(2,5) \<open>concat _ = concat _\<close> by simp
  qed (simp add: assms)
  ultimately show ?thesis by simp
qed

theorem serial_number_injective_witness:
  "serial_number_to_str \<lparr>sn_vendor_id = [66, 66, 83, 77], sn_vendor_specific = [0, 1, 83, 10]\<rparr> \<noteq>
   serial_number_to_str \<lparr>sn_vendor_id = [66, 66, 83, 77], sn_vendor_specific = [0, 1, 83, 11]\<rparr>"
  using serial_number_injective [of "\<lparr>sn_vendor_id = [66, 66, 83, 77], sn_vendor_specific = [0, 1, 83, 10]\<rparr>"
      "\<lparr>sn_vendor_id = [66, 66, 83, 77], sn_vendor_specific = [0, 1, 83, 11]\<rparr>"] by auto

text \<open>
  C27: activating an ONU.  It is answered OK exactly when the queried ONU is already active, or is not
  configured or inactive and the last message is an accepted activation; unless it is one of these
  two states, nothing but the query is sent; any other state is refused as INTERNAL, because the
  error is built from the successful query.
\<close>

theorem activate_onu_outcome:
  assumes "ActivateOnu P intf onu v vs enc s = (st, s')"
    and "q = Cfg_get (onu_obj (uint intf) (uint onu))" "rsp = bal_rsp_of P q s"
    and "act = Oper_submit (onu_obj (uint intf) (uint onu)) ''set_onu_state''
                 [(''onu_state'', Sym ''BCMOLT_ONU_OPERATION_ACTIVE'')]"
  shows "(code st = OK \<longleftrightarrow> r_err rsp = BCM_ERR_OK \<and>
      (r_onu_state rsp = BCMOLT_ONU_STATE_ACTIVE \<or>
       (r_onu_state rsp = BCMOLT_ONU_STATE_NOT_CONFIGURED \<or> r_onu_state rsp = BCMOLT_ONU_STATE_INACTIVE) \<and>
       (\<exists>t. bal_trace s' = act # t \<and> r_err (bal_respond P t act) = BCM_ERR_OK))) \<and>
    (s' = s\<lparr>bal_trace := q # bal_trace s\<rparr> \<or> r_err rsp = BCM_ERR_OK \<and>
       (r_onu_state rsp = BCMOLT_ONU_STATE_NOT_CONFIGURED \<or> r_onu_state rsp = BCMOLT_ONU_STATE_INACTIVE)) \<and>
    (r_err rsp = BCM_ERR_OK \<longrightarrow> r_onu_state rsp \<notin> {BCMOLT_ONU_STATE_ACTIVE,
       BCMOLT_ONU_STATE_NOT_CONFIGURED, BCMOLT_ONU_STATE_INACTIVE} \<longrightarrow> code st = INTERNAL)"
  using assms
  by (auto simp: ActivateOnu_def get_onu_state_def activate_configured_onu_def set_onu_state_def
      bal_err_def bal_call_def Status_OK_def Let_def split: if_splits)

theorem activate_onu_outcome_witness:
  "code (fst (ActivateOnu (const_platform (ok_rsp\<lparr>r_onu_state := BCMOLT_ONU_STATE_DISABLED\<rparr>)) 0 1
     [66, 66, 83, 77] [0, 1, 83, 10] True init_olt)) = INTERNAL"
  using activate_onu_outcome [OF prod.collapse [symmetric] refl refl refl,
      of "const_platform (ok_rsp\<lparr>r_onu_state := BCMOLT_ONU_STATE_DISABLED\<rparr>)" 0 1
        "[66, 66, 83, 77]" "[0, 1, 83, 10]" True init_olt] by simp

lemma DeactivateOnu_state:
  "DeactivateOnu P intf onu s = (st, s') \<Longrightarrow>
     \<exists>t. s' = s\<lparr>bal_trace := t @ bal_trace s\<rparr> \<and> Cfg_clear k \<notin> set t"
  by (auto simp: DeactivateOnu_def get_onu_state_def set_onu_state_def bal_err_def bal_call_def Let_def
      split: if_splits intro: exI [of _ "[_]"] exI [of _ "[_, _]"])

lemma wait_deactivate_result:
  assumes "wait_for_onu_deactivate_complete P intf onu s = (err, s')"
  shows "s' = s\<lparr>bal_trace := Pop_wait (onu_obj (uint intf) (uint onu)) # bal_trace s,
               onu_deact_compltd_map := (onu_deact_compltd_map s)((intf, onu) := None)\<rparr>"
    and "err = BCM_ERR_OK \<longleftrightarrow> (\<exists>res. r_deact_result (bal_rsp_of P (Pop_wait (onu_obj (uint intf) (uint onu))) s)
                                 = Some res \<and> res \<noteq> BCMOLT_RESULT_FAIL)"
  using assms
  by (auto simp: wait_for_onu_deactivate_complete_def bal_call_def Let_def split: option.splits)



text \<open>
  Removing the downstream flow of a port, when the flow has no ACL and (as for every downstream
  flow) no port recorded under its id.  Its GEM port is forgotten but the flow stays in the set of the
  port, so while it is the least one there, a packet out to the port that leaves the GEM port open is
  refused, even if other flows of the port have GEM ports.
\<close>

theorem packet_out_after_flow_removal:
  assumes "port_to_flows s port = Some fs" "ucast f \<in> fs" "Min fs = ucast f" "port \<noteq> 0"
    and "flowid_to_port s (ucast f) = None" "flow_to_acl_map s (ucast f, downstream) = None"
    and "s' = snd (FlowRemove P f downstream s)"
  shows "port_to_flows s' port = Some fs \<and>
    OnuPacketOut P intf onu port 0 pkt s' = (Status_of NOT_FOUND ''no flow for port_no'', s')"
proof -
  have "port_to_flows s' port = Some fs \<and> flowid_to_gemport s' (ucast f) = None"
    using assms by (auto simp: FlowRemove_def FlowRemove_trap_def flow_key_type_def forget_flow_port_def
        bal_err_def bal_call_def Let_def split: if_splits)
  moreover have "port > 0" using assms(4) by (simp add: word_gt_0)
  moreover have "fs \<noteq> {}" using assms(2) by auto
  ultimately show ?thesis using assms(3) by (auto simp: OnuPacketOut_def gem_of_port_def)
qed

text \<open>A downstream flow that was added and removed again.\<close>

definition stale_port_state :: olt where
  "stale_port_state = init_olt\<lparr>port_to_flows := [16 \<mapsto> {1, 2}], flowid_to_gemport := [1 \<mapsto> 1024, 2 \<mapsto> 1025]\<rparr>"

theorem packet_out_after_flow_removal_witness:
  "fst (OnuPacketOut (const_platform ok_rsp) 0 1 16 0 [] stale_port_state) = Status_OK \<and>
   fst (OnuPacketOut (const_platform ok_rsp) 0 1 16 0 []
     (snd (FlowRemove (const_platform ok_rsp) 1 downstream stale_port_state))) =
   Status_of NOT_FOUND ''no flow for port_no''"
proof -
  have "Min {1, 2 :: uint32} = 1" by simp
  then have "fst (OnuPacketOut (const_platform ok_rsp) 0 1 16 0 [] stale_port_state) = Status_OK"
    by (simp add: OnuPacketOut_def gem_of_port_def stale_port_state_def word_gt_0)
  moreover have "fst (OnuPacketOut (const_platform ok_rsp) 0 1 16 0 []
     (snd (FlowRemove (const_platform ok_rsp) 1 downstream stale_port_state))) =
     Status_of NOT_FOUND ''no flow for port_no''"
    using packet_out_after_flow_removal [of stale_port_state 16 "{1, 2}" 1 _ "const_platform ok_rsp" 0 1 "[]",
        OF _ _ _ _ _ _ refl]
    by (simp add: stale_port_state_def)
  ultimately show ?thesis by blast
qed

end
