(* ===== verification/Indications.thy ===== *)
theory Indications
  imports Onu
begin

text \<open>
  The callbacks BAL calls with its indications (\<open>agent/src/indications.cc\<close>): what each queues for
  VOLTHA, and what the completion callbacks push to the queue of a waiting request.  A message is a
  constructor for its object type and subgroup with the data the callbacks read; every other message
  is \<open>Other_msg\<close>.  A callback reached by a message it does not know queues an indication without
  content, as the code does.  The filter of trapped packets and its callback are in theory \<open>Acl\<close>.
\<close>

section \<open>Messages\<close>

datatype activation_fail_reason =
    FAIL_REASON_NONE | FAIL_REASON_RANGING | FAIL_REASON_PASSWORD_AUTHENTICATION | FAIL_REASON_LOS
  | FAIL_REASON_ONU_ALARM | FAIL_REASON_SWITCH_OVER | FAIL_REASON_OTHER int

datatype bal_msg =
    Device_connection_complete
  | Device_disconnection_complete
  | Device_connection_failure
  | Pon_los uint32 bcmolt_status
  | Pon_state_change_completed uint32 bcmolt_interface_state
  | Nni_state_change uint32 bcmolt_interface_state
  | Onu_discovered uint32 bcmolt_serial_number
  | Onu_disable_completed uint32 uint32 bcmolt_serial_number
  | Onu_enable_completed uint32 uint32 bcmolt_serial_number
  | Onu_xgpon_alarm uint32 uint32 bcmolt_status bcmolt_status bcmolt_status bcmolt_status
  | Onu_gpon_alarm uint32 uint32 bcmolt_status bcmolt_status bcmolt_status
  | Onu_dgi uint32 uint32 bcmolt_status
  | Onu_omci_packet uint32 uint32 "int list"
  | Onu_sufi uint32 uint32 bcmolt_status
  | Onu_sdi uint32 uint32 bcmolt_status uint32
  | Onu_dowi uint32 uint32 bcmolt_status uint32 uint32
  | Onu_looci uint32 uint32 bcmolt_status
  | Onu_sfi uint32 uint32 bcmolt_status uint32
  | Onu_tiwi uint32 uint32 bcmolt_status uint32
  | Onu_loki uint32 uint32 bcmolt_status
  | Onu_activation_completed uint32 uint32 bcmolt_result activation_fail_reason
  | Onu_deactivation_completed uint32 uint32 bcmolt_result
  | Onu_itu_pon_stats_alarm_raised uint32 uint32 "string option"
  | Onu_itu_pon_stats_alarm_cleared uint32 uint32 "string option"
  | Alloc_configuration_completed uint32 uint32 bcmolt_result bcmolt_activation_state
  | Gem_configuration_completed uint32 uint32 bcmolt_result bcmolt_activation_state
  | Receive_eth_packet bcmolt_interface_type uint32 "uint32 option" parsed_packet "int list"
  | Complete_members_update uint32 bcmolt_result
  | Other_msg

definition empty_ind :: indication where
  "empty_ind = Other_ind [] []"

definition ids :: "uint32 \<Rightarrow> uint32 \<Rightarrow> fields" where
  "ids pon onu = [(''intf_id'', Num (uint pon)), (''onu_id'', Num (uint onu))]"

definition status_field :: "string \<Rightarrow> bcmolt_status \<Rightarrow> string \<times> field_value" where
  "status_field f st = (f, Txt (alarm_status_to_string st))"

text \<open>Four bytes are the vendor id; eight are copied from the array of the four vendor specific ones.\<close>

definition serial_number_field :: "platform \<Rightarrow> bcmolt_serial_number \<Rightarrow> olt \<Rightarrow> string \<times> field_value" where
  "serial_number_field P sn s =
     (''serial_number'', Flds
        [(''vendor_id'', Bytes (map uint (take 4 (sn_vendor_id sn)))),
         (''vendor_specific'', Bytes (take 8 (map uint (take 4 (sn_vendor_specific sn)) @
                                         replicate 4 (uninit_u P s ''memory''))))])"

section \<open>The device and its interfaces\<close>

definition oper_state_name :: "bcmolt_interface_state \<Rightarrow> string" where
  "oper_state_name st = (if st = BCMOLT_INTERFACE_STATE_ACTIVE_WORKING then ''up'' else ''down'')"

definition OltOperIndication :: "platform \<Rightarrow> bal_msg \<Rightarrow> olt \<Rightarrow> olt" where
  "OltOperIndication P m s =
     (let oper = (if m = Device_connection_complete then ''up''
                  else if m = Device_disconnection_complete then ''down''
                  else if m = Device_connection_failure then ''failure'' else []);
          s = (if m = Device_connection_complete
               then activate (snd (bal_err P (Ind_subscribe ''onu.omci_packet'') s))
               else deactivate s)
      in push_ind (Olt_ind oper) s)"

definition LosIndication :: "bal_msg \<Rightarrow> olt \<Rightarrow> olt" where
  "LosIndication m =
     push_ind (case m of
       Pon_los pon st \<Rightarrow> Other_ind ''alarm.los''
         [(''intf_id'', Num (uint (interface_key_to_port_no pon BCMOLT_INTERFACE_TYPE_PON))),
          status_field ''status'' st]
     | _ \<Rightarrow> empty_ind)"

definition IfIndication :: "bal_msg \<Rightarrow> olt \<Rightarrow> olt" where
  "IfIndication m =
     push_ind (case m of
       Pon_state_change_completed i st \<Rightarrow>
         Other_ind ''intf'' [(''intf_id'', Num (uint i)), (''oper_state'', Txt (oper_state_name st))]
     | Nni_state_change i st \<Rightarrow>
         Other_ind ''intf'' [(''intf_id'', Num (uint i)), (''oper_state'', Txt (oper_state_name st))]
     | _ \<Rightarrow> empty_ind)"

text \<open>
  The case of the PON interface has no \<open>break\<close>, so the subgroup of its messages is also compared with
  that of the NNI interface; were the two numbers equal, the same allocated message would be handed
  over twice (\<open>None\<close>).
\<close>

definition IfOperIndication :: "platform \<Rightarrow> bal_msg \<Rightarrow> olt \<Rightarrow> olt option" where
  "IfOperIndication P m s =
     (case m of
        Pon_state_change_completed i st \<Rightarrow>
          if enum_value P ''BCMOLT_PON_INTERFACE_AUTO_SUBGROUP_STATE_CHANGE_COMPLETED'' =
             enum_value P ''BCMOLT_NNI_INTERFACE_AUTO_SUBGROUP_STATE_CHANGE'' then None
          else Some (push_ind (Intf_oper_ind (bcmolt_to_grpc_intf_type BCMOLT_INTERFACE_TYPE_PON) i
                                 (oper_state_name st) 0) s)
      | Nni_state_change i st \<Rightarrow>
          Some (push_ind (Intf_oper_ind (bcmolt_to_grpc_intf_type BCMOLT_INTERFACE_TYPE_NNI) i
                            (oper_state_name st) 0) s)
      | _ \<Rightarrow> Some (push_ind empty_ind s))"

section \<open>ONUs\<close>

definition OnuDisableIndication :: "platform \<Rightarrow> bal_msg \<Rightarrow> olt \<Rightarrow> olt" where
  "OnuDisableIndication P m s =
     push_ind (case m of
       Onu_disable_completed pon onu sn \<Rightarrow>
         Other_ind ''onu_disabled'' (ids pon onu @ [serial_number_field P sn s])
     | _ \<Rightarrow> empty_ind) s"

definition OnuEnableIndication :: "platform \<Rightarrow> bal_msg \<Rightarrow> olt \<Rightarrow> olt" where
  "OnuEnableIndication P m s =
     push_ind (case m of
       Onu_enable_completed pon onu sn \<Rightarrow>
         Other_ind ''onu_enabled'' (ids pon onu @ [serial_number_field P sn s])
     | _ \<Rightarrow> empty_ind) s"

definition OnuAlarmIndication :: "bal_msg \<Rightarrow> olt \<Rightarrow> olt" where
  "OnuAlarmIndication m =
     push_ind (case m of
       Onu_xgpon_alarm pon onu losi lobi miss mic \<Rightarrow> Other_ind ''alarm.onu_alarm''
         ([status_field ''los_status'' losi, status_field ''lob_status'' lobi,
           status_field ''lopc_miss_status'' miss, status_field ''lopc_mic_error_status'' mic] @ ids pon onu)
     | Onu_gpon_alarm pon onu losi lofi loami \<Rightarrow> Other_ind ''alarm.onu_alarm''
         ([status_field ''los_status'' losi, status_field ''lofi_status'' lofi,
           status_field ''loami_status'' loami] @ ids pon onu)
     | _ \<Rightarrow> empty_ind)"

definition OnuDyingGaspIndication :: "bal_msg \<Rightarrow> olt \<Rightarrow> olt" where
  "OnuDyingGaspIndication m =
     push_ind (case m of
       Onu_dgi pon onu st \<Rightarrow> Other_ind ''alarm.dying_gasp'' (status_field ''status'' st # ids pon onu)
     | _ \<Rightarrow> empty_ind)"

definition OnuDiscoveryIndication :: "platform \<Rightarrow> bal_msg \<Rightarrow> olt \<Rightarrow> olt" where
  "OnuDiscoveryIndication P m s =
     (if \<not> is_connected s then s
      else push_ind (case m of
        Onu_discovered pon sn \<Rightarrow>
          Other_ind ''onu_disc'' [(''intf_id'', Num (uint pon)), serial_number_field P sn s]
      | _ \<Rightarrow> empty_ind) s)"

definition OmciIndication :: "bal_msg \<Rightarrow> olt \<Rightarrow> olt" where
  "OmciIndication m =
     push_ind (case m of
       Onu_omci_packet pon onu pkt \<Rightarrow> Other_ind ''omci'' (ids pon onu @ [(''pkt'', Bytes pkt)])
     | _ \<Rightarrow> empty_ind)"

definition OnuStartupFailureIndication :: "bal_msg \<Rightarrow> olt \<Rightarrow> olt" where
  "OnuStartupFailureIndication m =
     push_ind (case m of
       Onu_sufi pon onu st \<Rightarrow>
         Other_ind ''alarm.onu_startup_fail'' (ids pon onu @ [status_field ''status'' st])
     | _ \<Rightarrow> empty_ind)"

definition OnuSignalDegradeIndication :: "bal_msg \<Rightarrow> olt \<Rightarrow> olt" where
  "OnuSignalDegradeIndication m =
     push_ind (case m of
       Onu_sdi pon onu st ber \<Rightarrow> Other_ind ''alarm.onu_signal_degrade''
         (ids pon onu @ [status_field ''status'' st, (''inverse_bit_error_rate'', Num (uint ber))])
     | _ \<Rightarrow> empty_ind)"

definition OnuDriftOfWindowIndication :: "bal_msg \<Rightarrow> olt \<Rightarrow> olt" where
  "OnuDriftOfWindowIndication m =
     push_ind (case m of
       Onu_dowi pon onu st drift eqd \<Rightarrow> Other_ind ''alarm.onu_drift_of_window''
         (ids pon onu @ [status_field ''status'' st, (''drift'', Num (uint drift)), (''new_eqd'', Num (uint eqd))])
     | _ \<Rightarrow> empty_ind)"

definition OnuLossOfOmciChannelIndication :: "bal_msg \<Rightarrow> olt \<Rightarrow> olt" where
  "OnuLossOfOmciChannelIndication m =
     push_ind (case m of
       Onu_looci pon onu st \<Rightarrow> Other_ind ''alarm.onu_loss_omci'' (ids pon onu @ [status_field ''status'' st])
     | _ \<Rightarrow> empty_ind)"

definition OnuSignalsFailureIndication :: "bal_msg \<Rightarrow> olt \<Rightarrow> olt" where
  "OnuSignalsFailureIndication m =
     push_ind (case m of
       Onu_sfi pon onu st ber \<Rightarrow> Other_ind ''alarm.onu_signals_fail''
         (ids pon onu @ [status_field ''status'' st, (''inverse_bit_error_rate'', Num (uint ber))])
     | _ \<Rightarrow> empty_ind)"

definition OnuTransmissionInterferenceWarningIndication :: "bal_msg \<Rightarrow> olt \<Rightarrow> olt" where
  "OnuTransmissionInterferenceWarningIndication m =
     push_ind (case m of
       Onu_tiwi pon onu st drift \<Rightarrow> Other_ind ''alarm.onu_tiwi''
         (ids pon onu @ [status_field ''status'' st, (''drift'', Num (uint drift))])
     | _ \<Rightarrow> empty_ind)"

definition OnuLossOfKeySyncFailureIndication :: "bal_msg \<Rightarrow> olt \<Rightarrow> olt" where
  "OnuLossOfKeySyncFailureIndication m =
     push_ind (case m of
       Onu_loki pon onu st \<Rightarrow>
         Other_ind ''alarm.onu_loss_of_sync_fail'' (ids pon onu @ [status_field ''status'' st])
     | _ \<Rightarrow> empty_ind)"

text \<open>The failure reason is set on success too: only the operational state is under the condition.\<close>

fun fail_reason_name :: "activation_fail_reason \<Rightarrow> string" where
  "fail_reason_name FAIL_REASON_RANGING = ''ONU_ACTIVATION_FAIL_REASON_RANGING''"
| "fail_reason_name FAIL_REASON_PASSWORD_AUTHENTICATION = ''ONU_ACTIVATION_FAIL_REASON_PASSWORD_AUTHENTICATION''"
| "fail_reason_name FAIL_REASON_LOS = ''ONU_ACTIVATION_FAIL_REASON_LOS''"
| "fail_reason_name FAIL_REASON_ONU_ALARM = ''ONU_ACTIVATION_FAIL_ONU_ALARM''"
| "fail_reason_name FAIL_REASON_SWITCH_OVER = ''ONU_ACTIVATION_FAIL_SWITCH_OVER''"
| "fail_reason_name _ = ''ONU_ACTIVATION_FAIL_REASON_NONE''"

definition OnuActivationCompletedIndication :: "bal_msg \<Rightarrow> olt \<Rightarrow> olt" where
  "OnuActivationCompletedIndication m =
     push_ind (case m of
       Onu_activation_completed pon onu status reason \<Rightarrow> Other_ind ''onu''
         (ids pon onu @
          [(''oper_state'', Txt (if status = BCMOLT_RESULT_SUCCESS then ''up'' else ''down'')),
           (''fail_reason'', Txt (fail_reason_name reason)),
           (''admin_state'', Txt (if onu \<noteq> 0 then ''up'' else ''down''))])
     | _ \<Rightarrow> empty_ind)"

text \<open>A failed query of the counter yields the error number as the count.\<close>

definition get_pon_stats_alarms_data :: "platform \<Rightarrow> uint32 \<Rightarrow> uint32 \<Rightarrow> string \<Rightarrow> olt \<Rightarrow> uint64 \<times> olt" where
  "get_pon_stats_alarms_data P pon onu stat s =
     (if stat = ''BCMOLT_ONU_ITU_PON_STATS_DATA_ID_RDI_ERRORS'' then
        let (rsp, s) = bal_call P (Stat_get (onu_obj (uint pon) (uint onu))) s
        in (word_of_int (if r_err rsp \<noteq> BCM_ERR_OK then errno_value P (r_err rsp)
                         else r_num rsp ''rdi_errors''), s)
      else (word_of_int (errno_value P BCM_ERR_INTERNAL), s))"

text \<open>The alarm of a present statistic; the switch knows one kind only.\<close>

definition stats_alarm :: "platform \<Rightarrow> string \<Rightarrow> uint32 \<Rightarrow> uint32 \<Rightarrow> string option \<Rightarrow> olt \<Rightarrow> olt" where
  "stats_alarm P on_off pon onu stat s =
     (case stat of
        None \<Rightarrow> push_ind empty_ind s
      | Some st \<Rightarrow>
          if st = ''BCMOLT_ONU_ITU_PON_STATS_DATA_ID_RDI_ERRORS'' then
            let (n, s) = get_pon_stats_alarms_data P pon onu st s
            in push_ind (Other_ind ''alarm.onu_itu_pon_stats'' (ids pon onu @
                  [(''rdi_error_ind'', Flds [(''rdi_error_count'', Num (uint n)), (''status'', Txt on_off)])])) s
          else push_ind (Other_ind ''alarm'' []) s)"

definition OnuItuPonStatsAlarmRaisedIndication :: "platform \<Rightarrow> bal_msg \<Rightarrow> olt \<Rightarrow> olt" where
  "OnuItuPonStatsAlarmRaisedIndication P m s =
     (case m of
        Onu_itu_pon_stats_alarm_raised pon onu stat \<Rightarrow> stats_alarm P ''on'' pon onu stat s
      | _ \<Rightarrow> push_ind empty_ind s)"

definition OnuItuPonStatsAlarmClearedIndication :: "platform \<Rightarrow> bal_msg \<Rightarrow> olt \<Rightarrow> olt" where
  "OnuItuPonStatsAlarmClearedIndication P m s =
     (case m of
        Onu_itu_pon_stats_alarm_cleared pon onu stat \<Rightarrow> stats_alarm P ''off'' pon onu stat s
      | _ \<Rightarrow> push_ind empty_ind s)"

section \<open>Completions\<close>

text \<open>
  What a completion callback pushes: the key whose entry it found with a live queue, and the result.
  An entry that is missing or \<open>NULL\<close> gets nothing.
\<close>

definition deliver :: "(cfg_compltd_key \<rightharpoonup> bool) \<Rightarrow> cfg_compltd_key \<Rightarrow> 'r \<Rightarrow> (cfg_compltd_key \<times> 'r) option" where
  "deliver waiting k r = (if waiting k = Some True then Some (k, r) else None)"

fun completed_state :: "bcmolt_activation_state \<Rightarrow> obj_state" where
  "completed_state BCMOLT_ACTIVATION_STATE_NOT_CONFIGURED = OBJECT_STATE_NOT_CONFIGURED"
| "completed_state BCMOLT_ACTIVATION_STATE_INACTIVE = OBJECT_STATE_INACTIVE"
| "completed_state BCMOLT_ACTIVATION_STATE_PROCESSING = OBJECT_STATE_PROCESSING"
| "completed_state BCMOLT_ACTIVATION_STATE_ACTIVE = OBJECT_STATE_ACTIVE"
| "completed_state _ = OBJECT_STATE_NOT_CONFIGURED"

definition cfg_result :: "bcmolt_result \<Rightarrow> bcmolt_activation_state \<Rightarrow> cfg_complete_result" where
  "cfg_result status st =
     \<lparr>res_state = completed_state st,
      res_status = (if status = BCMOLT_RESULT_SUCCESS then CFG_STATUS_SUCCESS else CFG_STATUS_FAIL)\<rparr>"

definition ItuPonAllocConfigCompletedInd :: "bal_msg \<Rightarrow> olt \<Rightarrow> (cfg_compltd_key \<times> cfg_complete_result) option" where
  "ItuPonAllocConfigCompletedInd m s =
     (case m of
        Alloc_configuration_completed pon alloc status st \<Rightarrow>
          deliver (alloc_cfg_compltd_map s) (pon, alloc) (cfg_result status st)
      | _ \<Rightarrow> None)"

definition MAX_GEM_CFG_KEY_CHECK :: nat where "MAX_GEM_CFG_KEY_CHECK = 5"

text \<open>
  The GEM callback looks for the key up to five times and sleeps in between: \<open>seen i\<close> is the map it
  sees the \<open>i\<close>-th time.  \<open>gem_key_check seen k i n\<close> is the check at which the key is found, with \<open>n\<close>
  more to come; the entry is read again after the lock was released, from the map \<open>seen (Suc i)\<close>.
\<close>

fun gem_key_check :: "(nat \<Rightarrow> cfg_compltd_key \<rightharpoonup> bool) \<Rightarrow> cfg_compltd_key \<Rightarrow> nat \<Rightarrow> nat \<Rightarrow> nat option" where
  "gem_key_check seen k i 0 = None"
| "gem_key_check seen k i (Suc n) =
     (if seen i k \<noteq> None then Some i else gem_key_check seen k (Suc i) n)"

definition ItuPonGemConfigCompletedInd ::
    "bal_msg \<Rightarrow> (nat \<Rightarrow> cfg_compltd_key \<rightharpoonup> bool) \<Rightarrow> (cfg_compltd_key \<times> cfg_complete_result) option option" where
  "ItuPonGemConfigCompletedInd m seen =
     (case m of
        Gem_configuration_completed pon gem status st \<Rightarrow>
          (case gem_key_check seen (pon, gem) 0 MAX_GEM_CFG_KEY_CHECK of
             None \<Rightarrow> Some None
           | Some i \<Rightarrow>
               if seen (Suc i) (pon, gem) = None then None
               else Some (deliver (seen (Suc i)) (pon, gem) (cfg_result status st)))
      | _ \<Rightarrow> Some None)"

definition OnuDeactivationCompletedIndication ::
    "bal_msg \<Rightarrow> olt \<Rightarrow> (cfg_compltd_key \<times> bcmolt_result) option \<times> olt" where
  "OnuDeactivationCompletedIndication m s =
     (case m of
        Onu_deactivation_completed pon onu status \<Rightarrow>
          (deliver (onu_deact_compltd_map s) (pon, onu) status,
           push_ind (Other_ind ''onu'' (ids pon onu @
             [(''oper_state'', Txt ''down''), (''admin_state'', Txt ''down'')])) s)
      | _ \<Rightarrow> (None, push_ind empty_ind s))"

text \<open>Callbacks that only log.\<close>

definition GroupIndication :: "bal_msg \<Rightarrow> olt \<Rightarrow> olt" where
  "GroupIndication m s = s"

definition FlowOperIndication :: "bal_msg \<Rightarrow> olt \<Rightarrow> olt" where "FlowOperIndication m s = s"
definition FlowIndication :: "bal_msg \<Rightarrow> olt \<Rightarrow> olt" where "FlowIndication m s = s"
definition TmQIndication :: "bal_msg \<Rightarrow> olt \<Rightarrow> olt" where "TmQIndication m s = s"
definition TmSchedIndication :: "bal_msg \<Rightarrow> olt \<Rightarrow> olt" where "TmSchedIndication m s = s"
definition McastGroupIndication :: "bal_msg \<Rightarrow> olt \<Rightarrow> olt" where "McastGroupIndication m s = s"

section \<open>Subscription\<close>

definition interface_subscriptions :: "(string \<times> string) list" where
  "interface_subscriptions =
     [(''device.connection_complete'', ''Olt connection complete state indication subscribe failed''),
      (''device.disconnection_complete'', ''Olt disconnection complete state indication subscribe failed''),
      (''device.connection_failure'', ''Olt connection failure state indication subscribe failed''),
      (''pon_interface.los'', ''LOS indication subscribe failed''),
      (''pon_interface.state_change_completed'',
       ''PON Interface operations state change indication subscribe failed''),
      (''nni_interface.state_change'', ''NNI Interface operations state change indication subscribe failed''),
      (''onu.xgpon_alarm'', ''onu alarm indication subscribe failed''),
      (''onu.gpon_alarm'', ''onu alarm indication subscribe failed''),
      (''onu.dgi'', ''onu dying-gasp indication subscribe failed''),
      (''onu.onu_disable_completed'', ''onu disable indication subscribe failed''),
      (''onu.onu_enable_completed'', ''onu enable indication subscribe failed''),
      (''pon_interface.onu_discovered'', ''onu discovery indication subscribe failed''),
      (''onu.sufi'', ''onu startup failure indication subscribe failed'')]"

definition onu_subscriptions :: "(string \<times> string) list" where
  "onu_subscriptions =
     [(''onu.sdi'', ''onu sdi indication subscribe failed''),
      (''onu.dowi'', ''onu dowi indication subscribe failed''),
      (''onu.looci'', ''onu looci indication subscribe failed''),
      (''onu.sfi'', ''onu sfi indication subscribe failed''),
      (''onu.tiwi'', ''onu tiwi indication subscribe failed''),
      (''onu.onu_activation_completed'', ''onu activation completed indication subscribe failed''),
      (''onu.onu_deactivation_completed'', ''onu deactivation indication subscribe failed''),
      (''onu.loki'', ''onu loss of key sync indication subscribe failed''),
      (''onu.itu_pon_stats_alarm_raised'', ''onu itu-pon raised stats indication subscribe failed''),
      (''onu.itu_pon_stats_alarm_cleared'', ''onu itu-pon cleared stats indication subscribe failed''),
      (''access_control.receive_eth_packet'', ''Packet indication subscribe failed''),
      (''itupon_alloc.configuration_completed'',
       ''ITU PON Alloc Configuration Complete Indication subscribe failed''),
      (''itupon_gem.configuration_completed'',
       ''ITU PON Gem Configuration Complete Indication subscribe failed''),
      (''group.complete_members_update'', ''Complete members update indication subscribe failed''),
      (''onu.rssi_measurement_completed'', ''ONU RSSI Measurement indication subscription failed'')]"

definition subscriptions :: "(string \<times> string) list" where
  "subscriptions = interface_subscriptions @ onu_subscriptions"

fun subscribe_all :: "platform \<Rightarrow> (string \<times> string) list \<Rightarrow> olt \<Rightarrow> status \<times> olt" where
  "subscribe_all P [] s = (Status_OK, s\<lparr>subscribed := True\<rparr>)"
| "subscribe_all P ((g, e) # gs) s =
     (let (err, s) = bal_err P (Ind_subscribe g) s
      in if err \<noteq> BCM_ERR_OK then (Status_of INTERNAL e, s) else subscribe_all P gs s)"

definition SubscribeIndication :: "platform \<Rightarrow> olt \<Rightarrow> status \<times> olt" where
  "SubscribeIndication P s =
     (if subscribed s then (Status_OK, s) else subscribe_all P subscriptions s)"

section \<open>The dispatch of the messages\<close>

text \<open>The callback BAL calls for a message: the subscription of its object type and subgroup.\<close>

definition callback :: "platform \<Rightarrow> bal_msg \<Rightarrow> olt \<Rightarrow> olt option" where
  "callback P m s =
     (case m of
        Device_connection_complete \<Rightarrow> Some (OltOperIndication P m s)
      | Device_disconnection_complete \<Rightarrow> Some (OltOperIndication P m s)
      | Device_connection_failure \<Rightarrow> Some (OltOperIndication P m s)
      | Pon_los _ _ \<Rightarrow> Some (LosIndication m s)
      | Pon_state_change_completed _ _ \<Rightarrow> IfOperIndication P m s
      | Nni_state_change _ _ \<Rightarrow> IfOperIndication P m s
      | Onu_discovered _ _ \<Rightarrow> Some (OnuDiscoveryIndication P m s)
      | Onu_disable_completed _ _ _ \<Rightarrow> Some (OnuDisableIndication P m s)
      | Onu_enable_completed _ _ _ \<Rightarrow> Some (OnuEnableIndication P m s)
      | Onu_xgpon_alarm _ _ _ _ _ _ \<Rightarrow> Some (OnuAlarmIndication m s)
      | Onu_gpon_alarm _ _ _ _ _ \<Rightarrow> Some (OnuAlarmIndication m s)
      | Onu_dgi _ _ _ \<Rightarrow> Some (OnuDyingGaspIndication m s)
      | Onu_omci_packet _ _ _ \<Rightarrow> Some (OmciIndication m s)
      | Onu_sufi _ _ _ \<Rightarrow> Some (OnuStartupFailureIndication m s)
      | Onu_sdi _ _ _ _ \<Rightarrow> Some (OnuSignalDegradeIndication m s)
      | Onu_dowi _ _ _ _ _ \<Rightarrow> Some (OnuDriftOfWindowIndication m s)
      | Onu_looci _ _ _ \<Rightarrow> Some (OnuLossOfOmciChannelIndication m s)
      | Onu_sfi _ _ _ _ \<Rightarrow> Some (OnuSignalsFailureIndication m s)
      | Onu_tiwi _ _ _ _ \<Rightarrow> Some (OnuTransmissionInterferenceWarningIndication m s)
      | Onu_loki _ _ _ \<Rightarrow> Some (OnuLossOfKeySyncFailureIndication m s)
      | Onu_activation_completed _ _ _ _ \<Rightarrow> Some (OnuActivationCompletedIndication m s)
      | Onu_deactivation_completed _ _ _ \<Rightarrow> Some (snd (OnuDeactivationCompletedIndication m s))
      | Onu_itu_pon_stats_alarm_raised _ _ _ \<Rightarrow> Some (OnuItuPonStatsAlarmRaisedIndication P m s)
      | Onu_itu_pon_stats_alarm_cleared _ _ _ \<Rightarrow> Some (OnuItuPonStatsAlarmClearedIndication P m s)
      | Receive_eth_packet t i svc pkt bytes \<Rightarrow> PacketIndication t i svc pkt bytes s
      | Alloc_configuration_completed _ _ _ _ \<Rightarrow> Some s
      | Gem_configuration_completed _ _ _ _ \<Rightarrow> Some s
      | Complete_members_update _ _ \<Rightarrow> Some (GroupIndication m s)
      | Other_msg \<Rightarrow> Some s)"


text \<open>The state but for the trace, the activity and the queue of indications.\<close>

definition ind_rest :: "olt \<Rightarrow> olt" where
  "ind_rest s = s\<lparr>bal_trace := [], activated := False, oltIndQ := []\<rparr>"

definition queues_at_most_one :: "olt \<Rightarrow> olt \<Rightarrow> bool" where
  "queues_at_most_one s s' \<longleftrightarrow>
     ind_rest s' = ind_rest s \<and> (oltIndQ s' = oltIndQ s \<or> (\<exists>i. oltIndQ s' = oltIndQ s @ [i]))"

lemma queues_at_most_one_intros [simp]:
  "queues_at_most_one s s" "queues_at_most_one s (push_ind i s)"
  "queues_at_most_one s (push_ind i (s\<lparr>bal_trace := t\<rparr>))"
  "queues_at_most_one s (push_ind i (activate (s\<lparr>bal_trace := t\<rparr>)))"
  "queues_at_most_one s (push_ind i (deactivate s))"
  by (auto simp: queues_at_most_one_def ind_rest_def push_ind_def activate_def deactivate_def)

lemma push_ind_sel [simp]: "activated (push_ind i s) = activated s"
  by (simp add: push_ind_def)

lemma stats_alarm_frame:
  "queues_at_most_one s (stats_alarm P on_off pon onu stat s) \<and>
   activated (stats_alarm P on_off pon onu stat s) = activated s"
  by (simp add: stats_alarm_def get_pon_stats_alarms_data_def bal_call_def Let_def split: option.split)

lemma PacketIndication_frame:
  "PacketIndication t i svc pkt bytes s = Some s' \<Longrightarrow> queues_at_most_one s s' \<and> activated s' = activated s"
  by (auto simp: PacketIndication_def bind_eq_Some_conv split: if_splits option.splits)

lemmas single_push_defs [handler_defs] = LosIndication_def OnuDisableIndication_def OnuEnableIndication_def
  OnuAlarmIndication_def OnuDyingGaspIndication_def OnuDiscoveryIndication_def OmciIndication_def
  OnuStartupFailureIndication_def OnuSignalDegradeIndication_def OnuDriftOfWindowIndication_def
  OnuLossOfOmciChannelIndication_def OnuSignalsFailureIndication_def
  OnuTransmissionInterferenceWarningIndication_def OnuLossOfKeySyncFailureIndication_def
  OnuActivationCompletedIndication_def OnuDeactivationCompletedIndication_def GroupIndication_def

lemma callback_frame:
  assumes "callback P m s = Some s'"
  shows "queues_at_most_one s s' \<and> (activated s' \<longleftrightarrow>
       (if m = Device_connection_complete then True
        else if m = Device_disconnection_complete \<or> m = Device_connection_failure then False
        else activated s))"
proof (cases m)
  case (Receive_eth_packet t i svc pkt bytes)
  then show ?thesis using PacketIndication_frame [of t i svc pkt bytes s s'] assms by (simp add: callback_def)
next
  case (Onu_itu_pon_stats_alarm_raised pon onu stat)
  then have "s' = stats_alarm P ''on'' pon onu stat s"
    using assms by (simp add: callback_def OnuItuPonStatsAlarmRaisedIndication_def)
  then show ?thesis using stats_alarm_frame Onu_itu_pon_stats_alarm_raised by simp
next
  case (Onu_itu_pon_stats_alarm_cleared pon onu stat)
  then have "s' = stats_alarm P ''off'' pon onu stat s"
    using assms by (simp add: callback_def OnuItuPonStatsAlarmClearedIndication_def)
  then show ?thesis using stats_alarm_frame Onu_itu_pon_stats_alarm_cleared by simp
qed (use assms in \<open>auto simp: callback_def OltOperIndication_def IfOperIndication_def handler_defs
       bal_err_def bal_call_def activate_def deactivate_def push_ind_def queues_at_most_one_def
       ind_rest_def Let_def split: if_splits\<close>)

text \<open>
  A message of BAL touches nothing the requests of VOLTHA rely on (schedulers, queue profiles, GEM
  ports, ACLs, flows and the entries of the waiting requests): it queues at most one indication behind
  those queued before, and changes the activity of the agent only when it reports the connection of
  the device completed, closed or failed.
\<close>

theorem indication_frame:
  assumes "callback P m s = Some s'"
  shows "ind_rest s' = ind_rest s \<and>
    (oltIndQ s' = oltIndQ s \<or> (\<exists>i. oltIndQ s' = oltIndQ s @ [i])) \<and>
    (is_activated s' \<longleftrightarrow>
       (if m = Device_connection_complete then True
        else if m = Device_disconnection_complete \<or> m = Device_connection_failure then False
        else is_activated s))"
  using callback_frame [OF assms] by (simp add: queues_at_most_one_def is_activated_def)

theorem indication_frame_witness:
  "\<exists>s'. callback (const_platform ok_rsp) Device_connection_complete init_olt = Some s' \<and>
     is_activated s' \<and> ind_rest s' = ind_rest init_olt"
  using indication_frame [of "const_platform ok_rsp" Device_connection_complete init_olt]
  by (auto simp: callback_def)

lemma gem_key_check_first:
  "seen (i + d) k \<noteq> None \<Longrightarrow> d < n \<Longrightarrow> \<forall>j<d. seen (i + j) k = None \<Longrightarrow>
     gem_key_check seen k i n = Some (i + d)"
proof (induction n arbitrary: i d)
  case (Suc n)
  show ?case
  proof (cases d)
    case 0
    then show ?thesis using Suc.prems by simp
  next
    case (Suc e)
    have "seen (Suc i + e) k \<noteq> None" "e < n" "\<forall>j<e. seen (Suc i + j) k = None"
      using Suc.prems Suc by (auto dest: spec [of _ "Suc _"])
    from Suc.IH [OF this] show ?thesis using Suc.prems(3) Suc by (auto dest: spec [of _ 0])
  qed
qed simp

lemma gem_key_check_none: "\<forall>d<n. seen (i + d) k = None \<Longrightarrow> gem_key_check seen k i n = None"
proof (induction n arbitrary: i)
  case (Suc n)
  have "\<forall>d<n. seen (Suc i + d) k = None" using Suc.prems by (auto dest: spec [of _ "Suc _"])
  from Suc.IH [OF this] show ?case using Suc.prems by (auto dest: spec [of _ 0])
qed simp

text \<open>
  The completion of a GEM port configuration.  The callback looks for the waiting request at most
  five times and takes the first time \<open>i\<close> it sees the key; a key not seen by then loses the result.
  It delivers the result to the queue the entry holds when it is read again, unless that is
  \<open>NULL\<close>; if the entry was erased in between, the callback reads through an invalid iterator.
\<close>

theorem gem_completion_outcome:
  assumes "m = Gem_configuration_completed pon gem status st"
  shows "((\<forall>i<5. seen i (pon, gem) = None) \<longrightarrow> ItuPonGemConfigCompletedInd m seen = Some None) \<and>
    (\<forall>i<5. seen i (pon, gem) \<noteq> None \<longrightarrow> (\<forall>j<i. seen j (pon, gem) = None) \<longrightarrow>
       ItuPonGemConfigCompletedInd m seen =
         (case seen (Suc i) (pon, gem) of
            None \<Rightarrow> None
          | Some live \<Rightarrow> Some (if live then Some ((pon, gem), cfg_result status st) else None)))"
proof -
  have none: "gem_key_check seen (pon, gem) 0 5 = None" if "\<forall>i<5. seen i (pon, gem) = None"
    using that by (intro gem_key_check_none) simp
  have some: "gem_key_check seen (pon, gem) 0 5 = Some i"
    if "i < 5" "seen i (pon, gem) \<noteq> None" "\<forall>j<i. seen j (pon, gem) = None" for i
    using gem_key_check_first [of seen 0 i "(pon, gem)" 5] that by simp
  have "ItuPonGemConfigCompletedInd m seen = Some None" if "\<forall>i<5. seen i (pon, gem) = None"
    using none [OF that] assms by (simp add: ItuPonGemConfigCompletedInd_def MAX_GEM_CFG_KEY_CHECK_def)
  moreover have "ItuPonGemConfigCompletedInd m seen =
         (case seen (Suc i) (pon, gem) of
            None \<Rightarrow> None
          | Some live \<Rightarrow> Some (if live then Some ((pon, gem), cfg_result status st) else None))"
    if "i < 5" "seen i (pon, gem) \<noteq> None" "\<forall>j<i. seen j (pon, gem) = None" for i
    using some [OF that] assms
    by (simp add: ItuPonGemConfigCompletedInd_def MAX_GEM_CFG_KEY_CHECK_def deliver_def split: option.split)
  ultimately show ?thesis by blast
qed

theorem gem_completion_outcome_witness:
  "ItuPonGemConfigCompletedInd (Gem_configuration_completed 0 1024 BCMOLT_RESULT_SUCCESS BCMOLT_ACTIVATION_STATE_ACTIVE)
     (\<lambda>i. if i = 3 then [(0, 1024) \<mapsto> True] else Map.empty) = None"
proof -
  have "(3 :: nat) < 5" "\<forall>j<3. (if j = (3 :: nat) then [(0 :: uint32, 1024 :: uint32) \<mapsto> True] else Map.empty) (0, 1024) = None"
    by auto
  then show ?thesis
    using gem_completion_outcome [OF refl, of "\<lambda>i. if i = 3 then [(0, 1024) \<mapsto> True] else Map.empty" 0 1024
        BCMOLT_RESULT_SUCCESS BCMOLT_ACTIVATION_STATE_ACTIVE] by (auto dest!: spec [of _ 3])
qed

lemma subscribe_all_outcome:
  "subscribe_all P gs s = (st, s') \<Longrightarrow>
     (code st = OK \<longrightarrow> subscribed s' \<and> bal_trace s' = rev (map (Ind_subscribe \<circ> fst) gs) @ bal_trace s) \<and>
     (code st \<noteq> OK \<longrightarrow> code st = INTERNAL \<and> subscribed s' = subscribed s) \<and>
     ind_rest s' = ind_rest (s\<lparr>subscribed := subscribed s'\<rparr>) \<and> oltIndQ s' = oltIndQ s"
proof (induction gs arbitrary: s)
  case Nil
  then show ?case by (auto simp: Status_OK_def ind_rest_def)
next
  case (Cons g gs)
  obtain n e where g: "g = (n, e)" by fastforce
  let ?t = "s\<lparr>bal_trace := Ind_subscribe n # bal_trace s\<rparr>"
  show ?case
  proof (cases "r_err (bal_rsp_of P (Ind_subscribe n) s) = BCM_ERR_OK")
    case True
    then have "subscribe_all P gs ?t = (st, s')" using Cons.prems by (simp add: g bal_err_def bal_call_def)
    from Cons.IH [OF this] show ?thesis by (auto simp: g ind_rest_def)
  next
    case False
    then have "st = Status_of INTERNAL e" "s' = ?t" using Cons.prems by (auto simp: g bal_err_def bal_call_def)
    then show ?thesis by (simp add: ind_rest_def)
  qed
qed

text \<open>
  Subscribing to the indications.  The agent counts as subscribed exactly when the call is answered
  OK, which takes all 28 subscriptions in their order the first time and nothing afterwards; a refused
  subscription stops the call as INTERNAL, and the next call starts again from the first.
\<close>

theorem subscribe_outcome:
  assumes "SubscribeIndication P s = (st, s')"
  shows "(code st = OK \<longleftrightarrow> subscribed s') \<and> (code st \<noteq> OK \<longrightarrow> code st = INTERNAL) \<and>
    (\<not> subscribed s \<longrightarrow> code st = OK \<longrightarrow>
       bal_trace s' = rev (map (Ind_subscribe \<circ> fst) subscriptions) @ bal_trace s) \<and>
    (code st = OK \<longrightarrow> SubscribeIndication P s' = (Status_OK, s')) \<and>
    ind_rest s' = ind_rest (s\<lparr>subscribed := subscribed s'\<rparr>)"
proof (cases "subscribed s")
  case True
  have "s\<lparr>subscribed := subscribed s\<rparr> = s" by simp
  then have "ind_rest (s\<lparr>subscribed := True\<rparr>) = ind_rest s" using True by (simp only:)
  then show ?thesis using True assms by (auto simp: SubscribeIndication_def Status_OK_def)
next
  case False
  then have "subscribe_all P subscriptions s = (st, s')" using assms by (simp add: SubscribeIndication_def)
  from subscribe_all_outcome [OF this] show ?thesis using False by (auto simp: SubscribeIndication_def)
qed

theorem subscribe_outcome_witness:
  "bal_trace (snd (SubscribeIndication (const_platform ok_rsp) init_olt)) =
     rev (map (Ind_subscribe \<circ> fst) subscriptions)"
proof -
  have "code (fst (subscribe_all (const_platform ok_rsp) gs s)) = OK" for gs s
    by (induction gs arbitrary: s) (auto simp: bal_err_def bal_call_def Status_OK_def)
  then have "code (fst (SubscribeIndication (const_platform ok_rsp) init_olt)) = OK"
    by (simp add: SubscribeIndication_def)
  then show ?thesis using subscribe_outcome [OF prod.collapse [symmetric], of "const_platform ok_rsp" init_olt]
    by simp
qed

end
