(* ===== verification/Device.thy ===== *)
theory Device
  imports Indications
begin

text \<open>
  The OLT as a whole (\<open>agent/src/core_api_handler.cc\<close>): bringing it up, disabling and re-enabling it,
  its PON and NNI interfaces, the probe of its capabilities and the description it gives of itself,
  with the two bounded waits of \<open>agent/src/core_utils.cc\<close>.

  A function from device ids is the choice of the system mode: constantly the default one in a build
  without \<open>DYNAMIC_PON_TRX_SUPPORT\<close>, that of \<open>PonTrx::get_mac_system_mode\<close> (\<open>None\<close> when it fails) in
  one with it.  The result \<open>None\<close> of an operation is an abort (\<open>BUG_ON\<close>) or a write outside an array.
\<close>

section \<open>Bounded waits\<close>

definition bal_ready :: "platform \<Rightarrow> int \<Rightarrow> bool" where
  "bal_ready P st \<longleftrightarrow> st = enum_value P ''BCMOLT_BAL_STATE_BAL_AND_SWITCH_READY''"

text \<open>\<open>n\<close> more queries may follow; a failed one leaves what the message buffer holds.\<close>

fun bal_ready_tries :: "platform \<Rightarrow> nat \<Rightarrow> int \<Rightarrow> olt \<Rightarrow> status \<times> olt" where
  "bal_ready_tries P 0 st s =
     (if bal_ready P st then (Status_OK, s) else (Status_of UNAVAILABLE ''check bal ready failed'', s))"
| "bal_ready_tries P (Suc n) st s =
     (if bal_ready P st then (Status_OK, s)
      else let (rsp, s) = bal_call P (Cfg_get (Obj ''olt'' [])) s
           in bal_ready_tries P n (r_num rsp ''bal_state'') s)"

definition check_bal_ready :: "platform \<Rightarrow> olt \<Rightarrow> status \<times> olt" where
  "check_bal_ready P s = bal_ready_tries P 29 0 s"

fun connection_tries :: "platform \<Rightarrow> nat \<Rightarrow> olt \<Rightarrow> status \<times> olt" where
  "connection_tries P 0 s = (Status_of UNAVAILABLE ''check connection failed'', s)"
| "connection_tries P (Suc n) s =
     (let (rsp, s) = bal_call P (Host_call ''bcmolt_api_conn_mgr_is_connected'') s
      in if r_num rsp ''is_connected'' \<noteq> 0 then (Status_OK, s) else connection_tries P n s)"

definition check_connection :: "platform \<Rightarrow> olt \<Rightarrow> status \<times> olt" where
  "check_connection P s = connection_tries P 60 s"

section \<open>Bringing the device up\<close>

definition device_obj :: "nat \<Rightarrow> obj_key" where
  "device_obj dev = Obj ''device'' [int dev]"

definition reset_pon_device :: "platform \<Rightarrow> nat \<Rightarrow> olt \<Rightarrow> olt" where
  "reset_pon_device P dev s = snd (bal_err P (Oper_submit (device_obj dev) ''reset'' []) s)"

definition connect_fields :: "platform \<Rightarrow> nat \<Rightarrow> string \<Rightarrow> fields" where
  "connect_fields P dev sm =
     (''system_mode'', Sym sm) #
     (let xfi = (''inni_config.mode'', Sym ''BCMOLT_INNI_MODE_ALL_10_G_XFI'');
          ddr = (''ras_ddr_mode'', Sym ''BCMOLT_RAS_DDR_USAGE_MODE_TWO_DDRS'');
          mux = (\<lambda>m. (''inni_config.mux'', Sym m))
      in if model_id P = ''asfvolt16'' then [xfi]
         else if model_id P = ''asgvolt64'' then [xfi, mux ''BCMOLT_INNI_MUX_FOUR_TO_ONE'']
         else if model_id P = ''rlt-3200g-w'' \<or> model_id P = ''rlt-1600g-w''
         then [mux (if dev = 1 then ''BCMOLT_INNI_MUX_FOUR_TO_ONE'' else ''BCMOLT_INNI_MUX_NONE''), ddr, xfi]
         else if model_id P = ''rlt-1600x-w'' then [mux ''BCMOLT_INNI_MUX_NONE'', ddr, xfi]
         else if model_id P = ''sda3016ss''
         then [(''inni_config.mode'', Sym ''BCMOLT_INNI_MODE_ALL_12_P_5_G''),
               mux ''BCMOLT_INNI_MUX_TWO_TO_ONE'', ddr]
         else [])"

definition skipped_device :: "platform \<Rightarrow> nat \<Rightarrow> bool" where
  "skipped_device P dev \<longleftrightarrow> dev = 1 \<and> (model_id P = ''rlt-1600g-w'' \<or> model_id P = ''rlt-1600x-w'')"

fun enable_devices :: "platform \<Rightarrow> (nat \<Rightarrow> string option) \<Rightarrow> nat list \<Rightarrow> nat \<Rightarrow> olt \<Rightarrow> status \<times> olt" where
  "enable_devices P mac_mode [] failed s = (Status_OK, s)"
| "enable_devices P mac_mode (dev # devs) failed s =
     (if skipped_device P dev then enable_devices P mac_mode devs failed s
      else let (err, s) = bal_err P (Cfg_get (device_obj dev)) s
      in if err = BCM_ERR_NOT_CONNECTED then
           let s = reset_pon_device P dev s
           in case mac_mode dev of
                None \<Rightarrow> enable_devices P mac_mode devs failed s
              | Some sm \<Rightarrow>
                  let (err, s) = bal_err P (Oper_submit (device_obj dev) ''connect'' (connect_fields P dev sm)) s
                  in if err = BCM_ERR_OK then enable_devices P mac_mode devs failed s
                     else if failed + 1 = max_devs P
                     then (Status_of INTERNAL ''Failed to activate all PON ports'', s)
                     else enable_devices P mac_mode devs (failed + 1) s
         else enable_devices P mac_mode devs failed (activate s))"

definition Enable :: "platform \<Rightarrow> (nat \<Rightarrow> string option) \<Rightarrow> olt \<Rightarrow> (status \<times> olt) option" where
  "Enable P mac_mode s =
     (if is_activated s then Some (Status_OK, s)
      else
        let (err, s) = bal_err P (Host_call ''bcmolt_host_init'') s
        in if err \<noteq> BCM_ERR_OK then Some (bcm_to_grpc_err P err ''Failed to init OLT'', s)
        else
          let (rc, s) = bal_err P (Host_call ''bcmcli_session_open'') s
          in if rc \<noteq> BCM_ERR_OK then None
          else
            let (err, s) = bal_err P (Host_call ''bcmolt_apiend_cli_init'') s
            in if err \<noteq> BCM_ERR_OK then Some (bcm_to_grpc_err P err ''Failed to add apiend init'', s)
            else
              let (st, s) = check_connection P s
              in if code st \<noteq> OK then Some (st, s)
              else
                let (st, s) = SubscribeIndication P s
                in if code st \<noteq> OK then Some (st, s)
                else
                  let (st, s) = check_bal_ready P s
                  in if code st \<noteq> OK then Some (st, s)
                     else Some (enable_devices P mac_mode [0..<max_devs P] 0 s))"

section \<open>Interfaces\<close>

definition pon_obj :: "int \<Rightarrow> obj_key" where "pon_obj i = Obj ''pon_interface'' [i]"
definition nni_obj :: "int \<Rightarrow> obj_key" where "nni_obj i = Obj ''nni_interface'' [i]"

definition pon_interface_fields :: "string \<Rightarrow> fields" where
  "pon_interface_fields technology =
     [(''discovery.control'', Sym ''BCMOLT_CONTROL_STATE_ENABLE''), (''discovery.interval'', Num 5000),
      (''discovery.onu_post_discovery_mode'', Sym ''BCMOLT_ONU_POST_DISCOVERY_MODE_NONE''),
      (''itu.automatic_onu_deactivation.los'', Num 1), (''itu.automatic_onu_deactivation.onu_alarms'', Num 1),
      (''itu.automatic_onu_deactivation.tiwi'', Num 1), (''itu.automatic_onu_deactivation.ack_timeout'', Num 1),
      (''itu.automatic_onu_deactivation.sfi'', Num 1), (''itu.automatic_onu_deactivation.loki'', Num 1)] @
     (if technology = ''GPON''
      then [(''itu.gpon.power_level.pls_maximum_allocation_size'',
             Sym ''BCMOLT_PON_POWER_LEVEL_PLS_MAXIMUM_ALLOCATION_SIZE_DEFAULT''),
            (''itu.gpon.power_level.mode'', Sym ''BCMOLT_PON_POWER_LEVEL_MODE_DEFAULT''),
            (''itu.gpon.onu_alarms_thresholds.losi'', Num 14),
            (''itu.gpon.onu_alarms_thresholds.lofi'', Num 14),
            (''itu.gpon.onu_alarms_thresholds.loami'', Num 14)]
      else []) @
     [(''itu.onu_activation.key_exchange'', Sym ''BCMOLT_CONTROL_STATE_ENABLE''),
      (''itu.onu_activation.authentication'', Sym ''BCMOLT_CONTROL_STATE_ENABLE''),
      (''itu.onu_activation.fail_due_to_authentication_failure'', Sym ''BCMOLT_CONTROL_STATE_ENABLE''),
      (''los_wait_timeout'', Num 500)]"

definition EnablePonIf :: "platform \<Rightarrow> uint32 \<Rightarrow> olt \<Rightarrow> status \<times> olt" where
  "EnablePonIf P intf s =
     (let ((err, st, los), s) = get_pon_interface_status P (uint intf) s
      in if err = BCM_ERR_OK \<and> st = BCMOLT_INTERFACE_STATE_ACTIVE_WORKING then (Status_OK, s)
         else
           let (err, s) = bal_err P (Cfg_set (pon_obj (uint intf))
                  (pon_interface_fields (intf_technologies s (unat intf)))) s
           in if err \<noteq> BCM_ERR_OK then (bcm_to_grpc_err P err ''Failed to enable discovery onu'', s)
           else
             let (err, s) = bal_err P (Oper_submit (pon_obj (uint intf)) ''set_pon_interface_state''
                    [(''operation'', Sym ''BCMOLT_INTERFACE_OPERATION_ACTIVE_WORKING'')]) s
             in if err \<noteq> BCM_ERR_OK then (bcm_to_grpc_err P err ''Failed to enable PON interface'', s)
                else (Status_OK, snd (CreateDefaultQueue P intf downstream
                                        (snd (CreateDefaultSched P intf downstream s)))))"

definition DisablePonIf :: "platform \<Rightarrow> uint32 \<Rightarrow> olt \<Rightarrow> status \<times> olt" where
  "DisablePonIf P intf s =
     (let (rsp, s) = bal_call P (Cfg_get (pon_obj (uint intf))) s
      in if r_err rsp \<noteq> BCM_ERR_OK
         then (bcm_to_grpc_err P (r_err rsp) ''Failed to fetch pon port state'', s)
         else if r_if_state rsp = BCMOLT_INTERFACE_STATE_INACTIVE then (Status_OK, s)
         else
           let (err, s) = bal_err P (Cfg_set (pon_obj (uint intf))
                  [(''discovery.control'', Sym ''BCMOLT_CONTROL_STATE_DISABLE'')]) s
           in if err \<noteq> BCM_ERR_OK then (bcm_to_grpc_err P err ''Failed to disable discovery of onu'', s)
           else
             let (err, s) = bal_err P (Oper_submit (pon_obj (uint intf)) ''set_pon_interface_state''
                    [(''operation'', Sym ''BCMOLT_INTERFACE_OPERATION_INACTIVE'')]) s
             in if err \<noteq> BCM_ERR_OK then (bcm_to_grpc_err P err ''Failed to disable PON interface'', s)
                else (Status_OK, s))"

definition default_uplink :: "platform \<Rightarrow> uint32 \<Rightarrow> olt \<Rightarrow> olt" where
  "default_uplink P intf s =
     snd (CreateDefaultQueue P intf upstream (snd (CreateDefaultSched P intf upstream s)))"

definition SetStateUplinkIf :: "platform \<Rightarrow> uint32 \<Rightarrow> bool \<Rightarrow> olt \<Rightarrow> status \<times> olt" where
  "SetStateUplinkIf P intf set_state s =
     (let ((err, st), s) = get_nni_interface_status P (uint intf) s
      in if err = BCM_ERR_OK \<and> set_state \<and> st = BCMOLT_INTERFACE_STATE_ACTIVE_WORKING
         then (Status_OK, default_uplink P intf s)
         else if err = BCM_ERR_OK \<and> \<not> set_state \<and> st = BCMOLT_INTERFACE_STATE_INACTIVE
         then (Status_OK, s)
         else
           let (err, s) = bal_err P (Oper_submit (nni_obj (uint intf)) ''set_nni_state''
                  [(''nni_state'', Sym (if set_state then ''BCMOLT_INTERFACE_OPERATION_ACTIVE_WORKING''
                                        else ''BCMOLT_INTERFACE_OPERATION_INACTIVE''))]) s
           in if err \<noteq> BCM_ERR_OK then (bcm_to_grpc_err P err ''Failed to enable NNI interface'', s)
              else (Status_OK, if set_state then default_uplink P intf s else s))"

definition GetNniSpeed :: "platform \<Rightarrow> uint32 \<Rightarrow> olt \<Rightarrow> uint32 \<times> olt" where
  "GetNniSpeed P intf s =
     (let ((err, speed), s) = get_nni_interface_speed P (uint intf) s
      in (if err \<noteq> BCM_ERR_OK then 0 else speed, s))"

section \<open>Disabling and re-enabling the OLT\<close>

text \<open>Every PON interface in turn, and how many refused.\<close>

fun each_pon :: "(uint32 \<Rightarrow> olt \<Rightarrow> status \<times> olt) \<Rightarrow> nat list \<Rightarrow> nat \<Rightarrow> olt \<Rightarrow> nat \<times> olt" where
  "each_pon f [] failed s = (failed, s)"
| "each_pon f (i # is) failed s =
     (let (st, s) = f (of_nat i) s
      in each_pon f is (if code st \<noteq> OK then failed + 1 else failed) s)"

definition Disable :: "platform \<Rightarrow> olt \<Rightarrow> status \<times> olt" where
  "Disable P s =
     (let (failed, s) = each_pon (DisablePonIf P) [0..<unat (num_of_pon_ports s)] 0 s
      in if failed = 0 then (Status_OK, push_ind (Olt_ind ''down'') (deactivate s))
         else if failed = unat (num_of_pon_ports s)
         then (Status_of INTERNAL ''failed to disable olt ,all the PON ports are still in enabled state'', s)
         else (Status_of UNKNOWN ''failed to disable olt ,few PON ports are still in enabled state'', s))"

definition Reenable :: "platform \<Rightarrow> olt \<Rightarrow> status \<times> olt" where
  "Reenable P s =
     (let (failed, s) = each_pon (EnablePonIf P) [0..<unat (num_of_pon_ports s)] 0 s
      in if failed = 0 then (Status_OK, push_ind (Olt_ind ''up'') (activate s))
         else if failed = unat (num_of_pon_ports s)
         then (Status_of INTERNAL ''failed to re-enable olt ,all the PON ports are still in disabled state'', s)
         else (Status_of UNKNOWN ''failed to re-enable olt ,few PON ports are still in disabled state'', s))"

section \<open>The capabilities of the board\<close>

text \<open>The decimal numeral of \<open>std::to_string\<close>.\<close>

fun nat_to_string :: "nat \<Rightarrow> string" where
  "nat_to_string n =
     (if n < 10 then [char_of (48 + n)] else nat_to_string (n div 10) @ [char_of (48 + n mod 10)])"

declare nat_to_string.simps [simp del]

definition int_to_string :: "int \<Rightarrow> string" where
  "int_to_string i = (if i < 0 then ''-'' @ nat_to_string (nat (- i)) else nat_to_string (nat i))"

text \<open>The assignments to an array of \<open>n\<close> elements; \<open>None\<close> when one is outside.\<close>

definition fill_array ::
    "nat \<Rightarrow> nat list \<Rightarrow> string \<Rightarrow> (nat \<Rightarrow> string) \<Rightarrow> (nat \<Rightarrow> string) option" where
  "fill_array n is v a =
     (if \<forall>i\<in>set is. i < n then Some (\<lambda>i. if i \<in> set is then v else a i) else None)"

definition MIXED_TECH :: string where "MIXED_TECH = ''mixed''"

text \<open>The technology of a system mode and the number of ports per device it fills.\<close>

definition mode_technology :: "int \<Rightarrow> (string \<times> nat) option" where
  "mode_technology mode = map_of
     [(10, (''GPON'', 4)), (11, (''GPON'', 8)), (12, (''GPON'', 16)),
      (13, (''XGPON'', 2)), (14, (''XGPON'', 4)), (15, (''XGPON'', 8)), (16, (''XGPON'', 16)),
      (18, (''XGS-PON'', 2)), (19, (''XGS-PON'', 16)), (20, (MIXED_TECH, 2))] mode"

definition set_technologies :: "platform \<Rightarrow> int \<Rightarrow> nat \<Rightarrow> olt \<Rightarrow> olt option" where
  "set_technologies P mode dev s =
     (if mode = 38 then
        do {
          a \<leftarrow> fill_array (max_supported_pon P) (map (\<lambda>i. dev * 16 + 2 * i) [0..<8]) ''XGS-PON''
                 (intf_technologies s);
          a \<leftarrow> fill_array (max_supported_pon P) (map (\<lambda>i. dev * 16 + 1 + 2 * i) [0..<8]) ''GPON'' a;
          Some (s\<lparr>board_technology := ''XGS-PON'', intf_technologies := a\<rparr>)
        }
      else case mode_technology mode of
        None \<Rightarrow> Some s
      | Some (tech, n) \<Rightarrow>
          map_option (\<lambda>a. s\<lparr>board_technology := tech, intf_technologies := a\<rparr>)
            (fill_array (max_supported_pon P) [dev * n..<(dev + 1) * n] tech (intf_technologies s)))"

definition set_chip_family :: "platform \<Rightarrow> int \<Rightarrow> olt \<Rightarrow> olt" where
  "set_chip_family P family s =
     (if family = enum_value P ''BCMOLT_CHIP_FAMILY_CHIP_FAMILY_6862_X'' then s\<lparr>chip_family := ''Maple''\<rparr>
      else if family = enum_value P ''BCMOLT_CHIP_FAMILY_CHIP_FAMILY_6865_X'' then s\<lparr>chip_family := ''Aspen''\<rparr>
      else s)"

definition bal_version :: "bal_rsp \<Rightarrow> string" where
  "bal_version rsp = int_to_string (r_num rsp ''firmware_sw_version.major'') @ ''.'' @
     int_to_string (r_num rsp ''firmware_sw_version.minor'') @ ''.'' @
     int_to_string (r_num rsp ''firmware_sw_version.revision'')"

text \<open>The devices in turn; how many queries failed, and the error of the last.\<close>

fun probe_devices ::
    "platform \<Rightarrow> string \<Rightarrow> nat list \<Rightarrow> nat \<Rightarrow> bcmos_errno \<Rightarrow> olt \<Rightarrow> ((nat \<times> bcmos_errno) \<times> olt) option" where
  "probe_devices P version [] failed err s = Some ((failed, err), s)"
| "probe_devices P version (dev # devs) failed err s =
     (let (rsp, s) = bcmolt_cfg_get_mult_retry P (device_obj dev) s
      in if r_err rsp \<noteq> BCM_ERR_OK then probe_devices P version devs (failed + 1) (r_err rsp) s
         else do {
           s \<leftarrow> set_technologies P (r_num rsp ''system_mode'') dev
                 (s\<lparr>firmware_version := ''BAL.'' @ bal_version rsp @ ''__'' @ version\<rparr>);
           probe_devices P version devs failed (r_err rsp)
             (set_chip_family P (r_num rsp ''chip_family'') s)
         })"

text \<open>\<open>openolt_version\<close> is a static variable: the first call fixes it.\<close>

definition ProbeDeviceCapabilities :: "platform \<Rightarrow> olt \<Rightarrow> (status \<times> olt) option" where
  "ProbeDeviceCapabilities P s =
     (let (rsp, s) = bcmolt_cfg_get_mult_retry P (Obj ''olt'' []) s
      in if r_err rsp \<noteq> BCM_ERR_OK
         then Some (bcm_to_grpc_err P (r_err rsp) ''cfg: Failed to query OLT topology'', s)
         else
           let version = (case openolt_version s of Some v \<Rightarrow> v | None \<Rightarrow> firmware_version s);
               s = s\<lparr>num_of_nni_ports := word_of_int (r_num rsp ''topology.num_switch_ports''),
                     num_of_pon_ports := word_of_int (r_num rsp ''topology.topology_maps.len''),
                     openolt_version := Some version\<rparr>
           in map_option (\<lambda>((failed, err), s).
                  if failed = max_devs P
                  then (bcm_to_grpc_err P err ''device: All devices failed query'', s) else (Status_OK, s))
                (probe_devices P version [0..<max_devs P] 0 (r_err rsp) s))"

section \<open>The description of the device\<close>

record resource_pool =
  pool_type :: string
  pool_sharing :: string
  pool_start :: int
  pool_end :: int

record resource_range =
  rr_technology :: string
  rr_pools :: "resource_pool list"
  rr_intf_ids :: "nat list"

record device_info =
  di_vendor :: string
  di_model :: string
  di_hardware_version :: string
  di_firmware_version :: string
  di_pon_ports :: uint32
  di_nni_ports :: uint32
  di_device_serial_number :: string
  di_previously_connected :: bool
  di_device_id :: string
  di_ranges :: "resource_range list"

definition resource_pools :: "platform \<Rightarrow> resource_pool list" where
  "resource_pools P = map
     (\<lambda>(n, shared). \<lparr>pool_type = n,
        pool_sharing = (if shared then ''SHARED_BY_ALL_INTF_ALL_TECH'' else ''DEDICATED_PER_INTF''),
        pool_start = (if n = ''ONU_ID'' then ONU_ID_START
                      else if n = ''GEMPORT_ID'' then GEM_PORT_ID_START P
                      else vendor_const P (n @ ''_START'')),
        pool_end = vendor_const P (if n = ''GEMPORT_ID'' then ''GEM_PORT_ID_END'' else n @ ''_END'')\<rparr>)
     [(''ONU_ID'', False), (''ALLOC_ID'', False), (''GEMPORT_ID'', False), (''FLOW_ID'', True)]"

text \<open>An interface joins the range of its technology, which is made on its first use.\<close>

fun add_to_range :: "platform \<Rightarrow> string \<Rightarrow> nat \<Rightarrow> resource_range list \<Rightarrow> resource_range list" where
  "add_to_range P tech i [] = [\<lparr>rr_technology = tech, rr_pools = resource_pools P, rr_intf_ids = [i]\<rparr>]"
| "add_to_range P tech i (r # rs) =
     (if rr_technology r = tech then r\<lparr>rr_intf_ids := rr_intf_ids r @ [i]\<rparr> # rs
      else r # add_to_range P tech i rs)"

definition resource_ranges :: "platform \<Rightarrow> nat \<Rightarrow> (nat \<Rightarrow> string) \<Rightarrow> resource_range list" where
  "resource_ranges P n technologies =
     foldl (\<lambda>rs i. add_to_range P (technologies i) i rs) [] [0..<n]"

definition GetDeviceInfo :: "platform \<Rightarrow> olt \<Rightarrow> device_info" where
  "GetDeviceInfo P s =
     \<lparr>di_vendor = vendor_name P, di_model = model_id P, di_hardware_version = [],
      di_firmware_version = firmware_version s, di_pon_ports = num_of_pon_ports s,
      di_nni_ports = num_of_nni_ports s, di_device_serial_number = sysinfo P ''Serial Number'',
      di_previously_connected = previously_connected s,
      di_device_id = (case grpc_interface_mac P of
          Some mac \<Rightarrow> (case mac of Some m \<Rightarrow> m | None \<Rightarrow> [])
        | None \<Rightarrow> sysinfo P ''MAC''),
      di_ranges = resource_ranges P (unat (num_of_pon_ports s)) (intf_technologies s)\<rparr>"

section \<open>Distances\<close>

text \<open>
  The query asks for the distance in a copy of \<open>pon_distance\<close>; the value returned is that of the local
  variable, which no answer changes.  The distances are \<open>double\<close>s: a response holds the two operands
  of \<open>LOGICAL_DISTANCE\<close>, the maximum distance in metres and the equalization delay.
\<close>

definition getOnuMaxLogicalDistance :: "platform \<Rightarrow> uint32 \<Rightarrow> olt \<Rightarrow> (bcmos_errno \<times> uint32) \<times> olt" where
  "getOnuMaxLogicalDistance P intf s =
     (let max_log_distance = 0; mld = 0
      in if \<not> is_activated s then ((BCM_ERR_STATE, mld), s)
         else let (rsp, s) = bal_call P (Cfg_get (pon_obj (uint intf))) s
              in if r_err rsp \<noteq> BCM_ERR_OK then ((r_err rsp, mld), s)
                 else ((BCM_ERR_OK, max_log_distance), s))"

record onu_logical_distance =
  ld_intf_id :: uint32
  ld_onu_id :: uint32
  ld_operands :: "uint32 \<times> int"

definition GetLogicalOnuDistanceZero ::
    "platform \<Rightarrow> uint32 \<Rightarrow> olt \<Rightarrow> (status \<times> onu_logical_distance option) \<times> olt" where
  "GetLogicalOnuDistanceZero P intf s =
     (let ((err, mld), s) = getOnuMaxLogicalDistance P intf s
      in if err \<noteq> BCM_ERR_OK
         then ((bcm_to_grpc_err P err ''Failed to retrieve ONU maximum logical distance'', None), s)
         else ((Status_OK, Some \<lparr>ld_intf_id = intf, ld_onu_id = 0,
                  ld_operands = (mld * 1000, vendor_const P ''MINIMUM_ONU_RESPONSE_RANGING_TIME'')\<rparr>), s))"

definition GetLogicalOnuDistance ::
    "platform \<Rightarrow> uint32 \<Rightarrow> uint32 \<Rightarrow> olt \<Rightarrow> (status \<times> onu_logical_distance option) \<times> olt" where
  "GetLogicalOnuDistance P intf onu s =
     (let ((err, mld), s) = getOnuMaxLogicalDistance P intf s
      in if err \<noteq> BCM_ERR_OK
         then ((bcm_to_grpc_err P err ''Failed to retrieve ONU maximum logical distance'', None), s)
         else
           let (rsp, s) = bal_call P (Cfg_get (onu_obj (uint intf) (uint onu))) s
           in if r_err rsp \<noteq> BCM_ERR_OK
              then ((bcm_to_grpc_err P (r_err rsp) ''Failed to retrieve ONU ranging time'', None), s)
              else if r_onu_state rsp \<noteq> BCMOLT_ONU_STATE_ACTIVE
              then ((bcm_to_grpc_err P BCM_ERR_PARM (''ONU is not yet activated'' @ [CHR 0x0A]), None), s)
              else ((Status_OK, Some \<lparr>ld_intf_id = intf, ld_onu_id = onu,
                       ld_operands = (mld * 1000, r_num rsp ''itu.ranging_time'')\<rparr>), s))"

section \<open>Lemmas\<close>

text \<open>The operations of this theory extend the trace; what else most of them leave alone.\<close>

definition extends :: "olt \<Rightarrow> olt \<Rightarrow> bool" where
  "extends s s' \<longleftrightarrow> (\<exists>t. bal_trace s' = t @ bal_trace s)"

lemma extends_refl [simp]: "extends s s"
  by (simp add: extends_def)

lemma extends_trans: "extends s t \<Longrightarrow> extends t u \<Longrightarrow> extends s u"
  by (auto simp: extends_def)

lemma extends_trace: "s' = s\<lparr>bal_trace := t @ bal_trace s\<rparr> \<Longrightarrow> extends s s'"
  by (auto simp: extends_def)

text \<open>Only messages were sent.\<close>

definition only_sent :: "olt \<Rightarrow> olt \<Rightarrow> bool" where
  "only_sent s s' \<longleftrightarrow> (\<exists>t. s' = s\<lparr>bal_trace := t @ bal_trace s\<rparr>)"

lemma only_sent_refl [simp]: "only_sent s s"
  by (auto simp: only_sent_def intro: exI [of _ "[]"])

lemma only_sent_trans:
  assumes "only_sent s t" "only_sent t u"
  shows "only_sent s u"
proof -
  obtain a b where "t = s\<lparr>bal_trace := a @ bal_trace s\<rparr>" "u = t\<lparr>bal_trace := b @ bal_trace t\<rparr>"
    using assms by (auto simp: only_sent_def)
  then have "u = s\<lparr>bal_trace := (b @ a) @ bal_trace s\<rparr>" by simp
  then show ?thesis unfolding only_sent_def by blast
qed

lemma only_sent_cons [simp]:
  "only_sent s (s\<lparr>bal_trace := [a] @ bal_trace s\<rparr>)"
  "only_sent s (s\<lparr>bal_trace := a # bal_trace s\<rparr>)"
  "only_sent s (s\<lparr>bal_trace := b # a # bal_trace s\<rparr>)"
  "only_sent s (s\<lparr>bal_trace := c # b # a # bal_trace s\<rparr>)"
proof -
  have *: "only_sent s (s\<lparr>bal_trace := t @ bal_trace s\<rparr>)" for t by (auto simp: only_sent_def)
  show "only_sent s (s\<lparr>bal_trace := [a] @ bal_trace s\<rparr>)" by (rule *)
  show "only_sent s (s\<lparr>bal_trace := a # bal_trace s\<rparr>)" using * [of "[a]"] by simp
  show "only_sent s (s\<lparr>bal_trace := b # a # bal_trace s\<rparr>)" using * [of "[b, a]"] by simp
  show "only_sent s (s\<lparr>bal_trace := c # b # a # bal_trace s\<rparr>)" using * [of "[c, b, a]"] by simp
qed

lemma only_sent_bal [simp]:
  "only_sent s (snd (bal_call P q s))" "only_sent s (snd (bal_err P q s))"
  by (simp_all add: bal_call_def bal_err_def)

lemma only_sent_extends: "only_sent s s' \<Longrightarrow> extends s s'"
  by (auto simp: only_sent_def extends_def)

lemma only_sentD:
  assumes "only_sent s s'"
  shows "activated s' = activated s" "oltIndQ s' = oltIndQ s" "subscribed s' = subscribed s"
    "num_of_pon_ports s' = num_of_pon_ports s" "intf_technologies s' = intf_technologies s"
    "agent_part s' = agent_part s" "tm_inv s' = tm_inv s"
  using assms by (auto simp: only_sent_def)

lemma only_sent_default_sched: "only_sent s (snd (CreateDefaultSched P intf d s))"
  by (simp add: CreateDefaultSched_def bal_call_def bal_err_def Let_def)

lemma only_sent_default_queues: "only_sent s (snd (create_default_queues P i qs s))"
proof (induction qs arbitrary: s)
  case (Cons q qs)
  show ?case
    using only_sent_trans [OF only_sent_bal(2) Cons.IH] only_sent_bal(2)
    by (simp add: case_prod_beta)
qed simp

lemma only_sent_default_queue: "only_sent s (snd (CreateDefaultQueue P intf d s))"
  by (simp add: CreateDefaultQueue_def only_sent_default_queues)

lemma only_sent_then_default [simp]:
  "only_sent s t \<Longrightarrow> only_sent s (snd (CreateDefaultQueue P intf d t))"
  "only_sent s t \<Longrightarrow> only_sent s (snd (CreateDefaultSched P intf d t))"
  using only_sent_trans only_sent_default_queue only_sent_default_sched by blast+

lemma only_sent_EnablePonIf: "only_sent s (snd (EnablePonIf P intf s))"
  by (simp add: EnablePonIf_def get_pon_interface_status_def bal_err_def bal_call_def Let_def)

lemma only_sent_DisablePonIf: "only_sent s (snd (DisablePonIf P intf s))"
  by (simp add: DisablePonIf_def bal_err_def bal_call_def Let_def)

lemma only_sent_SetStateUplinkIf: "only_sent s (snd (SetStateUplinkIf P intf b s))"
  by (simp add: SetStateUplinkIf_def default_uplink_def get_nni_interface_status_def bal_err_def
      bal_call_def Let_def)

text \<open>The answers of the interfaces, in the states in which they are asked.\<close>

fun pon_answers :: "(uint32 \<Rightarrow> olt \<Rightarrow> status \<times> olt) \<Rightarrow> nat list \<Rightarrow> olt \<Rightarrow> status_code list" where
  "pon_answers f [] s = []"
| "pon_answers f (i # is) s = code (fst (f (of_nat i) s)) # pon_answers f is (snd (f (of_nat i) s))"

lemma each_pon_failed: "fst (each_pon f is n s) = n + length (filter (\<lambda>c. c \<noteq> OK) (pon_answers f is s))"
  by (induction "is" arbitrary: n s) (auto simp: Let_def split: prod.split)

lemma each_pon_only_sent:
  "(\<And>i s. only_sent s (snd (f i s))) \<Longrightarrow> only_sent s (snd (each_pon f is n s))"
proof (induction "is" arbitrary: n s)
  case (Cons i "is")
  show ?case using only_sent_trans [OF Cons.prems Cons.IH [OF Cons.prems]] by (simp add: case_prod_beta)
qed simp

lemma length_pon_answers [simp]: "length (pon_answers f is s) = length is"
  by (induction "is" arbitrary: s) auto

text \<open>An accepted or answered message between two states.\<close>

definition sent_between :: "olt \<Rightarrow> olt \<Rightarrow> bal_req \<Rightarrow> bal_req list \<Rightarrow> bool" where
  "sent_between s s' q pre \<longleftrightarrow>
     (\<exists>t u. bal_trace s' = t @ q # pre \<and> pre = u @ bal_trace s)"

lemma sent_between_mono:
  "extends s s1 \<Longrightarrow> extends s2 s3 \<Longrightarrow> sent_between s1 s2 q pre \<Longrightarrow> sent_between s s3 q pre"
  by (force simp: extends_def sent_between_def)

text \<open>BAL reported the interface inactive, or accepted to make it so.\<close>

definition pon_down :: "platform \<Rightarrow> olt \<Rightarrow> olt \<Rightarrow> uint32 \<Rightarrow> bool" where
  "pon_down P s s' intf \<longleftrightarrow>
     (\<exists>pre. let q = Cfg_get (pon_obj (uint intf)) in sent_between s s' q pre \<and>
        r_err (bal_respond P pre q) = BCM_ERR_OK \<and>
        r_if_state (bal_respond P pre q) = BCMOLT_INTERFACE_STATE_INACTIVE) \<or>
     (\<exists>pre. let q = Oper_submit (pon_obj (uint intf)) ''set_pon_interface_state''
                      [(''operation'', Sym ''BCMOLT_INTERFACE_OPERATION_INACTIVE'')]
            in sent_between s s' q pre \<and> r_err (bal_respond P pre q) = BCM_ERR_OK)"

lemma pon_down_mono:
  "extends s s1 \<Longrightarrow> extends s2 s3 \<Longrightarrow> pon_down P s1 s2 intf \<Longrightarrow> pon_down P s s3 intf"
  unfolding pon_down_def Let_def using sent_between_mono by blast

lemma sent_between_latest: "bal_trace s' = q # u @ bal_trace s \<Longrightarrow> sent_between s s' q (u @ bal_trace s)"
  by (auto simp: sent_between_def)

lemma DisablePonIf_down:
  assumes "DisablePonIf P intf s = (st, s')" "code st = OK"
  shows "pon_down P s s' intf"
proof -
  let ?q = "Cfg_get (pon_obj (uint intf))"
  let ?c = "Cfg_set (pon_obj (uint intf)) [(''discovery.control'', Sym ''BCMOLT_CONTROL_STATE_DISABLE'')]"
  let ?o = "Oper_submit (pon_obj (uint intf)) ''set_pon_interface_state''
              [(''operation'', Sym ''BCMOLT_INTERFACE_OPERATION_INACTIVE'')]"
  consider "r_err (bal_rsp_of P ?q s) = BCM_ERR_OK"
      "r_if_state (bal_rsp_of P ?q s) = BCMOLT_INTERFACE_STATE_INACTIVE" "bal_trace s' = ?q # bal_trace s"
    | "r_err (bal_respond P (?c # ?q # bal_trace s) ?o) = BCM_ERR_OK" "bal_trace s' = ?o # ?c # ?q # bal_trace s"
    using assms by (auto simp: DisablePonIf_def bal_err_def bal_call_def Let_def split: if_splits)
  then show ?thesis
  proof cases
    case 1
    then show ?thesis using sent_between_latest [of s' ?q "[]" s] by (auto simp: pon_down_def Let_def)
  next
    case 2
    then show ?thesis using sent_between_latest [of s' ?o "[?c, ?q]" s] by (auto simp: pon_down_def Let_def)
  qed
qed

lemma each_pon_down:
  "\<forall>c\<in>set (pon_answers (DisablePonIf P) is s). c = OK \<Longrightarrow> i \<in> set is \<Longrightarrow>
     pon_down P s (snd (each_pon (DisablePonIf P) is n s)) (of_nat i)"
proof (induction "is" arbitrary: n s)
  case (Cons j "is")
  obtain st t where d: "DisablePonIf P (of_nat j) s = (st, t)" by fastforce
  then have st: "code st = OK" and rest: "\<forall>c\<in>set (pon_answers (DisablePonIf P) is t). c = OK"
    using Cons.prems(1) by auto
  have e: "extends s t" using only_sent_DisablePonIf [of s P "of_nat j"] d only_sent_extends by simp
  have e': "extends t (snd (each_pon (DisablePonIf P) is n t))"
    by (intro only_sent_extends each_pon_only_sent only_sent_DisablePonIf)
  show ?case
  proof (cases "i = j")
    case True
    then show ?thesis using pon_down_mono [OF extends_refl e' DisablePonIf_down [OF d st]] d st by simp
  next
    case False
    then show ?thesis using pon_down_mono [OF e extends_refl Cons.IH [OF rest, of n]] Cons.prems(2) d st by simp
  qed
qed simp

text \<open>
  C21: disabling the OLT.  It is answered OK exactly when every PON interface answered OK; then BAL
  reported each of them inactive or accepted to make it so, the agent is no longer active and one
  indication that the OLT is down is queued.  Otherwise the agent stays as active as it was, nothing
  is queued, and the answer tells whether all interfaces refused (INTERNAL) or some (UNKNOWN).
\<close>

theorem disable_olt_outcome:
  assumes "Disable P s = (st, s')"
    and "as = pon_answers (DisablePonIf P) [0..<unat (num_of_pon_ports s)] s"
  shows "(code st = OK \<longleftrightarrow> (\<forall>c\<in>set as. c = OK)) \<and>
    (code st = OK \<longrightarrow> (\<forall>i < unat (num_of_pon_ports s). pon_down P s s' (of_nat i)) \<and>
       \<not> is_activated s' \<and> oltIndQ s' = oltIndQ s @ [Olt_ind ''down'']) \<and>
    (code st \<noteq> OK \<longrightarrow> is_activated s' = is_activated s \<and> oltIndQ s' = oltIndQ s \<and>
       code st = (if OK \<notin> set as then INTERNAL else UNKNOWN))"
proof -
  let ?is = "[0..<unat (num_of_pon_ports s)]"
  obtain failed t where e: "each_pon (DisablePonIf P) ?is 0 s = (failed, t)" by fastforce
  have failed: "failed = length (filter (\<lambda>c. c \<noteq> OK) as)"
    using each_pon_failed [of "DisablePonIf P" ?is 0 s] e assms(2) by simp
  have len: "length as = unat (num_of_pon_ports s)" using assms(2) by simp
  have only: "only_sent s t"
    using each_pon_only_sent [of "DisablePonIf P" s ?is 0] only_sent_DisablePonIf e by simp
  have zero: "failed = 0 \<longleftrightarrow> (\<forall>c\<in>set as. c = OK)"
    unfolding failed by (simp add: filter_empty_conv)
  have all: "failed = unat (num_of_pon_ports s) \<longleftrightarrow> OK \<notin> set as"
    unfolding failed len [symmetric] using length_filter_less [of OK as "\<lambda>c. c \<noteq> OK"]
    by (metis (mono_tags, lifting) filter_True less_irrefl)
  have res: "st = (if failed = 0 then Status_OK else if failed = unat (num_of_pon_ports s)
       then Status_of INTERNAL ''failed to disable olt ,all the PON ports are still in enabled state''
       else Status_of UNKNOWN ''failed to disable olt ,few PON ports are still in enabled state'')"
    "s' = (if failed = 0 then push_ind (Olt_ind ''down'') (deactivate t) else t)"
    using assms(1) e only_sentD(4) [OF only] by (auto simp: Disable_def split: if_splits)
  have down: "pon_down P s s' (of_nat i)" if "failed = 0" "i < unat (num_of_pon_ports s)" for i
  proof -
    have "pon_down P s t (of_nat i)"
      using each_pon_down [of P ?is s i 0] zero that e assms(2) by simp
    then show ?thesis using res(2) that(1) by (simp add: pon_down_def sent_between_def push_ind_def deactivate_def)
  qed
  show ?thesis using res zero all down only_sentD [OF only]
    by (auto simp: is_activated_def deactivate_def push_ind_def)
qed

theorem disable_olt_outcome_witness:
  "is_activated (snd (Disable (const_platform ok_rsp) (init_olt\<lparr>num_of_pon_ports := 2, activated := True\<rparr>))) = False"
proof -
  let ?s = "init_olt\<lparr>num_of_pon_ports := 2, activated := True\<rparr>"
  have u: "[0..<2 :: nat] = [0, 1]" by (simp add: upt_rec)
  have "\<forall>c\<in>set (pon_answers (DisablePonIf (const_platform ok_rsp)) [0..<unat (num_of_pon_ports ?s)] ?s). c = OK"
    by (simp add: u DisablePonIf_def bal_call_def Let_def)
  then show ?thesis using disable_olt_outcome [OF prod.collapse [symmetric] refl, of "const_platform ok_rsp" ?s]
    by blast
qed

text \<open>
  C22: the wait for BAL to become ready asks at most 29 times: it stops with OK at the first answer
  that says ready (at once, were the zero the buffer starts with the number of that state), and with
  UNAVAILABLE after 29 answers that do not, whatever their error numbers are.
\<close>

theorem check_bal_ready_outcome:
  assumes "q = Cfg_get (Obj ''olt'' [])"
    and "reply = (\<lambda>k. if k = 0 then 0
                  else r_num (bal_respond P (replicate (k - 1) q @ bal_trace s) q) ''bal_state'')"
  shows "check_bal_ready P s =
    (if \<exists>k\<le>29. bal_ready P (reply k)
     then (Status_OK, s\<lparr>bal_trace := replicate (LEAST k. bal_ready P (reply k)) q @ bal_trace s\<rparr>)
     else (Status_of UNAVAILABLE ''check bal ready failed'', s\<lparr>bal_trace := replicate 29 q @ bal_trace s\<rparr>))"
proof -
  have "bal_ready_tries P n (reply j) (s\<lparr>bal_trace := replicate j q @ bal_trace s\<rparr>) =
    (if \<exists>k. j \<le> k \<and> k \<le> j + n \<and> bal_ready P (reply k)
     then (Status_OK, s\<lparr>bal_trace := replicate (LEAST k. bal_ready P (reply k)) q @ bal_trace s\<rparr>)
     else (Status_of UNAVAILABLE ''check bal ready failed'',
           s\<lparr>bal_trace := replicate (j + n) q @ bal_trace s\<rparr>))"
    if "\<forall>k<j. \<not> bal_ready P (reply k)" for n j
    using that
  proof (induction n arbitrary: j)
    case 0
    have "bal_ready P (reply j) \<Longrightarrow> (LEAST k. bal_ready P (reply k)) = j"
      using 0 by (intro Least_equality) (auto simp: not_less [symmetric])
    then show ?case by (auto simp: le_antisym)
  next
    case (Suc n)
    show ?case
    proof (cases "bal_ready P (reply j)")
      case True
      then have "(LEAST k. bal_ready P (reply k)) = j"
        using Suc.prems by (intro Least_equality) (auto simp: not_less [symmetric])
      moreover have "\<exists>k. j \<le> k \<and> k \<le> j + Suc n \<and> bal_ready P (reply k)"
        using True by (intro exI [of _ j]) simp
      ultimately show ?thesis using True by simp
    next
      case False
      have "\<forall>k<Suc j. \<not> bal_ready P (reply k)" using Suc.prems False less_Suc_eq by auto
      note IH = Suc.IH [OF this]
      have "(Suc j \<le> k \<and> k \<le> Suc j + n \<and> bal_ready P (reply k)) =
            (j \<le> k \<and> k \<le> j + Suc n \<and> bal_ready P (reply k))" for k
        using False by (cases "k = j") auto
      moreover have "reply (Suc j) =
          r_num (bal_respond P (replicate j q @ bal_trace s) q) ''bal_state''"
        using assms(2) by simp
      ultimately show ?thesis using IH False assms(1) by (simp add: bal_call_def) blast
    qed
  qed
  from this [of 0 29] have "bal_ready_tries P 29 (reply 0) s =
    (if \<exists>k\<le>29. bal_ready P (reply k)
     then (Status_OK, s\<lparr>bal_trace := replicate (LEAST k. bal_ready P (reply k)) q @ bal_trace s\<rparr>)
     else (Status_of UNAVAILABLE ''check bal ready failed'', s\<lparr>bal_trace := replicate 29 q @ bal_trace s\<rparr>))"
    by (cases "\<exists>k\<le>29. bal_ready P (reply k)") simp_all
  moreover have "reply 0 = 0" by (simp add: assms(2))
  ultimately show ?thesis by (simp only: check_bal_ready_def)
qed

theorem check_bal_ready_outcome_witness:
  "length (bal_trace (snd (check_bal_ready ((const_platform ok_rsp)\<lparr>enum_value := \<lambda>_. 3\<rparr>) init_olt))) = 29"
proof -
  let ?P = "(const_platform ok_rsp)\<lparr>enum_value := \<lambda>_. 3\<rparr>"
  have "bal_respond ?P t r = ok_rsp" for t r by (simp add: const_platform_def)
  then show ?thesis using check_bal_ready_outcome [OF refl refl, of ?P init_olt]
    by (simp add: bal_ready_def)
qed

text \<open>A device query answered otherwise than \<open>BCM_ERR_NOT_CONNECTED\<close>.\<close>

definition device_answered :: "platform \<Rightarrow> olt \<Rightarrow> olt \<Rightarrow> bool" where
  "device_answered P s s' \<longleftrightarrow>
     (\<exists>dev pre. sent_between s s' (Cfg_get (device_obj dev)) pre \<and>
        r_err (bal_respond P pre (Cfg_get (device_obj dev))) \<noteq> BCM_ERR_NOT_CONNECTED)"

text \<open>The activity of the agent as the messages of a phase decide it.\<close>

definition activity :: "platform \<Rightarrow> olt \<Rightarrow> olt \<Rightarrow> bool" where
  "activity P s s' \<longleftrightarrow> extends s s' \<and> (activated s' \<longleftrightarrow> activated s \<or> device_answered P s s')"

lemma sent_between_append:
  assumes "extends s t" "extends t u"
  shows "sent_between s u q pre \<longleftrightarrow> sent_between s t q pre \<or> sent_between t u q pre"
proof -
  obtain a b where a: "bal_trace t = a @ bal_trace s" and b: "bal_trace u = b @ bal_trace t"
    using assms by (auto simp: extends_def)
  have conv: "sent_between v w q pre \<longleftrightarrow> (\<exists>x y. c = x @ q # y \<and> pre = y @ bal_trace v)"
    if "bal_trace w = c @ bal_trace v" for v w c
  proof -
    have "c @ bal_trace v = x @ q # y @ bal_trace v \<longleftrightarrow> c = x @ q # y" for x y
      using append_same_eq [of c "bal_trace v" "x @ q # y"] by simp
    then show ?thesis unfolding sent_between_def that by auto
  qed
  have u: "bal_trace u = (b @ a) @ bal_trace s" using a b by simp
  show ?thesis
  proof
    assume "sent_between s u q pre"
    then obtain x y where xy: "b @ a = x @ q # y" "pre = y @ bal_trace s" unfolding conv [OF u] by blast
    then obtain w where "b = x @ w \<and> w @ a = q # y \<or> b @ w = x \<and> a = w @ q # y"
      unfolding append_eq_append_conv2 by blast
    then consider "a = w @ q # y" | "w = []" "a = q # y" | w' where "b = x @ q # w'" "y = w' @ a"
      by (auto simp: append_eq_Cons_conv)
    then show "sent_between s t q pre \<or> sent_between t u q pre"
    proof cases
      case 1
      then show ?thesis using xy(2) unfolding conv [OF a] by blast
    next
      case 2
      then have "a = [] @ q # y" by simp
      then show ?thesis using xy(2) unfolding conv [OF a] by blast
    next
      case 3
      then have "pre = w' @ bal_trace t" using xy(2) a by simp
      then show ?thesis using 3(1) unfolding conv [OF b] by blast
    qed
  next
    assume "sent_between s t q pre \<or> sent_between t u q pre"
    then show "sent_between s u q pre" unfolding conv [OF a] conv [OF b] conv [OF u] a
      by (metis append_Cons append_assoc)
  qed
qed

lemma activity_trans: "activity P s t \<Longrightarrow> activity P t u \<Longrightarrow> activity P s u"
  unfolding activity_def device_answered_def
  using sent_between_append extends_trans by metis

lemma sent_between_same [simp]: "\<not> sent_between s s q pre"
  by (auto simp: sent_between_def)

lemma activity_refl [simp]: "activity P s s"
  by (simp add: activity_def device_answered_def)

lemma sent_between_quiet: "bal_trace s' = bal_trace s \<Longrightarrow> \<not> sent_between s s' q pre"
  by (auto simp: sent_between_def)

lemma activity_quiet: "bal_trace s' = bal_trace s \<Longrightarrow> activated s' = activated s \<Longrightarrow> activity P s s'"
  by (simp add: activity_def device_answered_def extends_def sent_between_quiet)

lemma sent_between_one: "bal_trace s' = r # bal_trace s \<Longrightarrow> sent_between s s' q pre \<longleftrightarrow> q = r \<and> pre = bal_trace s"
  by (auto simp: sent_between_def Cons_eq_append_conv)

lemma activity_other:
  assumes "bal_trace s' = r # bal_trace s" "activated s' = activated s" "\<forall>dev. r \<noteq> Cfg_get (device_obj dev)"
  shows "activity P s s'"
  using assms(2,3) sent_between_one [OF assms(1)] assms(1)
  by (auto simp: activity_def device_answered_def extends_def)

lemma device_obj_eq [simp]: "device_obj a = device_obj b \<longleftrightarrow> a = b"
  by (simp add: device_obj_def)

lemma activity_query:
  assumes "bal_trace s' = Cfg_get (device_obj dev) # bal_trace s"
    and "activated s' \<longleftrightarrow> activated s \<or> r_err (bal_rsp_of P (Cfg_get (device_obj dev)) s) \<noteq> BCM_ERR_NOT_CONNECTED"
  shows "activity P s s'"
  using assms(2) sent_between_one [OF assms(1)] assms(1)
  by (auto simp: activity_def device_answered_def extends_def)

lemma activity_enable_devices: "activity P s (snd (enable_devices P m devs failed s))"
proof (induction devs arbitrary: failed s)
  case (Cons dev devs)
  let ?q = "Cfg_get (device_obj dev)"
  let ?t = "s\<lparr>bal_trace := ?q # bal_trace s\<rparr>"
  let ?u = "?t\<lparr>bal_trace := Oper_submit (device_obj dev) ''reset'' [] # bal_trace ?t\<rparr>"
  show ?case
  proof (cases "skipped_device P dev")
    case True
    then show ?thesis using Cons.IH by simp
  next
    case go: False
    show ?thesis
    proof (cases "r_err (bal_rsp_of P ?q s) = BCM_ERR_NOT_CONNECTED")
      case False
      have "activity P s (activate ?t)"
        using False by (intro activity_query [of _ dev]) (simp_all add: activate_def)
      then show ?thesis using activity_trans Cons.IH go False by (simp add: bal_err_def bal_call_def)
    next
      case True
      have t: "activity P s ?t" using True by (intro activity_query [of _ dev]) simp_all
      have "activity P ?t ?u" by (rule activity_other [of _ "Oper_submit (device_obj dev) ''reset'' []"]) simp_all
      then have u: "activity P s ?u" using t activity_trans by blast
      have c: "activity P s (?u\<lparr>bal_trace := Oper_submit (device_obj dev) n fs # bal_trace ?u\<rparr>)" for n fs
        by (rule activity_trans [OF u], rule activity_other [of _ "Oper_submit (device_obj dev) n fs"]) simp_all
      show ?thesis using go True u c activity_trans [OF u Cons.IH] activity_trans [OF c Cons.IH]
        by (simp add: bal_err_def bal_call_def reset_pon_device_def Let_def split: option.split)
    qed
  qed
qed simp

lemma activity_connection_tries: "activity P s (snd (connection_tries P n s))"
proof (induction n arbitrary: s)
  case (Suc n)
  let ?q = "Host_call ''bcmolt_api_conn_mgr_is_connected''"
  have "activity P s (s\<lparr>bal_trace := ?q # bal_trace s\<rparr>)" by (rule activity_other [of _ ?q]) simp_all
  then show ?case using activity_trans Suc.IH by (simp add: bal_call_def)
qed simp

lemma activity_bal_ready_tries: "activity P s (snd (bal_ready_tries P n st s))"
proof (induction n arbitrary: s st)
  case (Suc n)
  let ?q = "Cfg_get (Obj ''olt'' [])"
  have "activity P s (s\<lparr>bal_trace := ?q # bal_trace s\<rparr>)"
    by (rule activity_other [of _ ?q]) (simp_all add: device_obj_def)
  then show ?case using activity_trans Suc.IH by (simp add: bal_call_def)
qed simp

lemma activity_subscribe_all: "activity P s (snd (subscribe_all P gs s))"
proof (induction gs arbitrary: s)
  case Nil
  show ?case by (simp add: activity_quiet)
next
  case (Cons g gs)
  obtain n e where g: "g = (n, e)" by fastforce
  have "activity P s (s\<lparr>bal_trace := Ind_subscribe n # bal_trace s\<rparr>)"
    by (rule activity_other [of _ "Ind_subscribe n"]) simp_all
  then show ?case using activity_trans Cons.IH by (simp add: g bal_err_def bal_call_def)
qed

lemma activity_host: "activity P s (snd (bal_err P (Host_call c) s))"
  by (rule activity_other [of _ "Host_call c"]) (simp_all add: bal_err_def bal_call_def)

text \<open>
  C30: bringing the OLT up activates the agent exactly when BAL answered some device query with
  anything but \<open>BCM_ERR_NOT_CONNECTED\<close>: also with any other error.
\<close>

theorem enable_activates_on_answer:
  assumes "Enable P mac_mode s = Some (st, s')"
  shows "is_activated s' \<longleftrightarrow> is_activated s \<or> device_answered P s s'"
proof -
  let ?a = "snd (bal_err P (Host_call ''bcmolt_host_init'') s)"
  let ?b = "snd (bal_err P (Host_call ''bcmcli_session_open'') ?a)"
  let ?c = "snd (bal_err P (Host_call ''bcmolt_apiend_cli_init'') ?b)"
  let ?d = "snd (check_connection P ?c)"
  let ?e = "snd (SubscribeIndication P ?d)"
  let ?f = "snd (check_bal_ready P ?e)"
  have a: "activity P s ?a" by (rule activity_host)
  have b: "activity P s ?b" using a activity_host activity_trans by blast
  have c: "activity P s ?c" using b activity_host activity_trans by blast
  have d: "activity P s ?d" using c activity_trans activity_connection_tries by (simp add: check_connection_def)
  have e: "activity P s ?e"
    using d activity_trans activity_subscribe_all by (simp add: SubscribeIndication_def)
  have f: "activity P s ?f" using e activity_trans activity_bal_ready_tries by (simp add: check_bal_ready_def)
  have "activity P s (snd (enable_devices P mac_mode [0..<max_devs P] 0 ?f))"
    using f activity_trans activity_enable_devices by blast
  then have "activity P s s'" using assms a b c d e f
    by (auto simp: Enable_def Let_def split: if_splits prod.splits)
  then show ?thesis by (simp add: activity_def is_activated_def)
qed

lemma enable_devices_all_refuse:
  assumes "\<And>dev t. r_err (bal_respond P t (Cfg_get (device_obj dev))) = BCM_ERR_NOT_CONNECTED"
    and "\<And>dev t fs. r_err (bal_respond P t (Oper_submit (device_obj dev) ''connect'' fs)) \<noteq> BCM_ERR_OK"
    and "\<And>dev. mac_mode dev \<noteq> None"
  shows "failed < max_devs P \<Longrightarrow>
    code (fst (enable_devices P mac_mode devs failed s)) =
      (if max_devs P \<le> failed + length (filter (\<lambda>d. \<not> skipped_device P d) devs) then INTERNAL else OK)"
proof (induction devs arbitrary: failed s)
  case Nil
  then show ?case by simp
next
  case (Cons dev devs)
  obtain sm where sm: "mac_mode dev = Some sm" using assms(3) by blast
  show ?case
  proof (cases "skipped_device P dev")
    case True
    then show ?thesis using Cons by simp
  next
    case False
    let ?t = "snd (bal_err P (Oper_submit (device_obj dev) ''connect'' (connect_fields P dev sm))
                (reset_pon_device P dev (snd (bal_err P (Cfg_get (device_obj dev)) s))))"
    have step: "enable_devices P mac_mode (dev # devs) failed s =
        (if failed + 1 = max_devs P then (Status_of INTERNAL ''Failed to activate all PON ports'', ?t)
         else enable_devices P mac_mode devs (failed + 1) ?t)"
      using False sm assms(1,2) by (simp add: bal_err_def bal_call_def Let_def)
    show ?thesis
    proof (cases "failed + 1 = max_devs P")
      case True
      then show ?thesis using step False by simp
    next
      case more: False
      then have "failed + 1 < max_devs P" using Cons.prems by simp
      then show ?thesis using step Cons.IH [of "failed + 1" ?t] more False by simp
    qed
  qed
qed

lemma length_filter_all: "length (filter Q xs) = length xs \<longleftrightarrow> (\<forall>x\<in>set xs. Q x)"
proof (induction xs)
  case (Cons x xs)
  have "length (filter Q xs) \<noteq> Suc (length xs)" using length_filter_le [of Q xs] by linarith
  then show ?case using Cons by auto
qed simp



theorem enable_activates_on_answer_witness:
  "\<exists>s'. Enable (const_platform (ok_rsp\<lparr>r_num := \<lambda>_. 1\<rparr>)) (\<lambda>_. None) init_olt = Some (Status_OK, s') \<and>
     is_activated s' \<and> device_answered (const_platform (ok_rsp\<lparr>r_num := \<lambda>_. 1\<rparr>)) init_olt s'"
proof -
  let ?P = "const_platform (ok_rsp\<lparr>r_num := \<lambda>_. 1\<rparr>)"
  have sub: "code (fst (subscribe_all ?P gs s)) = OK" for gs s
    by (induction gs arbitrary: s) (auto simp: bal_err_def bal_call_def)
  have conn: "check_connection ?P s = (Status_OK, s\<lparr>bal_trace := Host_call ''bcmolt_api_conn_mgr_is_connected'' # bal_trace s\<rparr>)" for s
    using connection_tries.simps(2) [of ?P 59 s] by (simp add: check_connection_def bal_call_def)
  have ready: "check_bal_ready ?P s = (Status_OK, s)" for s
    using bal_ready_tries.simps(2) [of ?P 28 0 s]
    by (simp add: check_bal_ready_def bal_ready_def const_platform_def)
  have en: "\<exists>u. enable_devices ?P m [0..<2] n s = (Status_OK, u) \<and> activated u" for m n s
    by (simp add: upt_rec bal_err_def bal_call_def skipped_device_def activate_def)
  obtain w where w: "Enable ?P (\<lambda>_. None) init_olt = Some (enable_devices ?P (\<lambda>_. None) [0..<2] 0 w)"
    using sub conn ready
    by (simp add: Enable_def is_activated_def SubscribeIndication_def bal_err_def bal_call_def case_prod_beta Let_def)
  obtain s' where s': "Enable ?P (\<lambda>_. None) init_olt = Some (Status_OK, s')" "activated s'"
    using en [of "\<lambda>_. None" 0 w] w by auto
  then show ?thesis using enable_activates_on_answer [OF s'(1)] by (auto simp: is_activated_def)
qed

text \<open>The ports that a system mode fills for a device are all in the array.\<close>

definition mode_fits :: "platform \<Rightarrow> int \<Rightarrow> nat \<Rightarrow> bool" where
  "mode_fits P mode dev \<longleftrightarrow>
     (if mode = 38 then (dev + 1) * 16 \<le> max_supported_pon P
      else case mode_technology mode of
             None \<Rightarrow> True | Some (tech, n) \<Rightarrow> (dev + 1) * n \<le> max_supported_pon P)"

lemma fill_array_None: "fill_array n is v a = None \<longleftrightarrow> (\<exists>i\<in>set is. n \<le> i)"
  by (auto simp: fill_array_def not_less)

lemma fill_range_None: "0 < n \<Longrightarrow> fill_array m [dev * n..<(dev + 1) * n] v a = None \<longleftrightarrow> m < (dev + 1) * n"
proof -
  assume n: "0 < n"
  have "(\<exists>i\<in>set [dev * n..<(dev + 1) * n]. m \<le> i) \<longleftrightarrow> m < (dev + 1) * n"
  proof
    assume "m < (dev + 1) * n"
    moreover have "dev * n \<le> (dev + 1) * n - 1" "(dev + 1) * n - 1 < (dev + 1) * n" using n by auto
    ultimately show "\<exists>i\<in>set [dev * n..<(dev + 1) * n]. m \<le> i"
      by (intro bexI [of _ "(dev + 1) * n - 1"]) auto
  qed auto
  then show ?thesis by (simp only: fill_array_None)
qed

lemma mode_technology_ports: "mode_technology mode = Some (tech, n) \<Longrightarrow> 0 < n"
  by (auto simp: mode_technology_def split: if_splits)

lemma set_technologies_None: "set_technologies P mode dev s = None \<longleftrightarrow> \<not> mode_fits P mode dev"
proof (cases "mode = 38")
  case True
  let ?m = "max_supported_pon P"
  have xs: "fill_array ?m (map (\<lambda>i. dev * 16 + 2 * i) [0..<8]) v a = None \<longleftrightarrow> ?m \<le> dev * 16 + 14" for v a
    unfolding fill_array_None by (auto intro!: bexI [of _ 7])
  have g: "fill_array ?m (map (\<lambda>i. dev * 16 + 1 + 2 * i) [0..<8]) v a = None \<longleftrightarrow> ?m \<le> dev * 16 + 15" for v a
    unfolding fill_array_None by (auto intro!: bexI [of _ 7])
  have "set_technologies P mode dev s = None \<longleftrightarrow> ?m \<le> dev * 16 + 14 \<or> ?m \<le> dev * 16 + 15"
    using True xs [of "''XGS-PON''" "intf_technologies s"] g
    by (simp only: set_technologies_def bind_eq_None_conv if_True) (auto simp: bind_eq_None_conv)
  then show ?thesis using True by (auto simp: mode_fits_def)
next
  case False
  then show ?thesis
    using fill_range_None [OF mode_technology_ports]
    by (auto simp: set_technologies_def mode_fits_def not_le split: option.split)
qed

text \<open>A BAL that answers every query of an object alike.\<close>

lemma cfg_get_tries_const:
  "(\<And>t. bal_respond P t (Cfg_get k) = rsp) \<Longrightarrow> fst (cfg_get_tries P k n s) = rsp"
  by (induction n arbitrary: s) (auto simp: bal_call_def)

lemma probe_devices_None:
  assumes "\<And>dev t. bal_respond P t (Cfg_get (device_obj dev)) = a dev"
  shows "probe_devices P version devs failed err s = None \<longleftrightarrow>
    (\<exists>dev\<in>set devs. r_err (a dev) = BCM_ERR_OK \<and> \<not> mode_fits P (r_num (a dev) ''system_mode'') dev)"
proof (induction devs arbitrary: failed err s)
  case (Cons dev devs)
  obtain t where "bcmolt_cfg_get_mult_retry P (device_obj dev) s = (a dev, t)"
    using cfg_get_tries_const [of P "device_obj dev" "a dev"] assms
    by (metis bcmolt_cfg_get_mult_retry_def prod.collapse)
  then show ?case using Cons.IH set_technologies_None
    by (auto simp: bind_eq_None_conv)
qed simp

text \<open>
  C32: the probe of the board writes outside the array of the ports' technologies exactly when some
  device that answers reports a system mode whose ports, for that device and all before it, are more
  than the board has; each device is assumed to answer its query alike every time.
\<close>

theorem probe_in_bounds:
  assumes "\<And>dev t. bal_respond P t (Cfg_get (device_obj dev)) = a dev"
    and "\<And>t. r_err (bal_respond P t (Cfg_get (Obj ''olt'' []))) = BCM_ERR_OK"
  shows "ProbeDeviceCapabilities P s \<noteq> None \<longleftrightarrow>
    (\<forall>dev < max_devs P. r_err (a dev) = BCM_ERR_OK \<longrightarrow> mode_fits P (r_num (a dev) ''system_mode'') dev)"
proof -
  obtain rsp t where r: "bcmolt_cfg_get_mult_retry P (Obj ''olt'' []) s = (rsp, t)" by fastforce
  have "r_err (fst (cfg_get_tries P (Obj ''olt'' []) n s)) = BCM_ERR_OK" for n s
    using assms(2) by (induction n arbitrary: s) (auto simp: bal_call_def)
  then have "r_err rsp = BCM_ERR_OK" using r by (metis bcmolt_cfg_get_mult_retry_def fst_conv)
  then have "ProbeDeviceCapabilities P s = None \<longleftrightarrow>
      (\<exists>dev\<in>set [0..<max_devs P]. r_err (a dev) = BCM_ERR_OK \<and> \<not> mode_fits P (r_num (a dev) ''system_mode'') dev)"
    using r probe_devices_None [OF assms(1)] by (simp add: ProbeDeviceCapabilities_def Let_def)
  then show ?thesis by auto
qed

theorem probe_in_bounds_witness:
  "ProbeDeviceCapabilities (const_platform (ok_rsp\<lparr>r_num := \<lambda>_. 19\<rparr>)) init_olt = None"
  using probe_in_bounds [of "const_platform (ok_rsp\<lparr>r_num := \<lambda>_. 19\<rparr>)" "\<lambda>_. ok_rsp\<lparr>r_num := \<lambda>_. 19\<rparr>" init_olt]
  by (auto simp: mode_fits_def mode_technology_def dest: spec [of _ "1 :: nat"])

section \<open>The resource ranges\<close>

text \<open>Every interface is in exactly one range, that of its technology, in increasing order.\<close>

definition ranges_of :: "nat \<Rightarrow> (nat \<Rightarrow> string) \<Rightarrow> resource_range list \<Rightarrow> bool" where
  "ranges_of n technologies rs \<longleftrightarrow>
     distinct (map rr_technology rs) \<and>
     (\<forall>r\<in>set rs. rr_intf_ids r = filter (\<lambda>i. technologies i = rr_technology r) [0..<n]) \<and>
     rr_technology ` set rs = technologies ` {0..<n}"

lemma add_to_range_technologies:
  "map rr_technology (add_to_range P tech i rs) =
     map rr_technology rs @ (if tech \<in> rr_technology ` set rs then [] else [tech])"
  by (induction rs) auto

lemma add_to_range_member:
  "distinct (map rr_technology rs) \<Longrightarrow> r' \<in> set (add_to_range P tech i rs) \<Longrightarrow>
     (\<exists>r\<in>set rs. rr_technology r = rr_technology r' \<and>
        rr_intf_ids r' = rr_intf_ids r @ (if rr_technology r = tech then [i] else [])) \<or>
     tech \<notin> rr_technology ` set rs \<and> rr_technology r' = tech \<and> rr_intf_ids r' = [i]"
proof (induction rs)
  case (Cons a rs)
  show ?case
  proof (cases "rr_technology a = tech")
    case True
    then consider "r' = a\<lparr>rr_intf_ids := rr_intf_ids a @ [i]\<rparr>" | "r' \<in> set rs" using Cons.prems(2) by auto
    then show ?thesis
    proof cases
      case 1
      then show ?thesis using True by simp
    next
      case 2
      then have "rr_technology r' \<noteq> tech" using Cons.prems(1) True by (force simp: image_iff)
      then show ?thesis using 2 by auto
    qed
  next
    case False
    then have "r' = a \<or> r' \<in> set (add_to_range P tech i rs)" using Cons.prems(2) by auto
    then show ?thesis
    proof
      assume "r' = a"
      then show ?thesis using False by simp
    next
      assume "r' \<in> set (add_to_range P tech i rs)"
      moreover have "distinct (map rr_technology rs)" using Cons.prems(1) by simp
      ultimately show ?thesis using Cons.IH False
        unfolding list.set bex_simps image_insert insert_iff by blast
    qed
  qed
qed simp

lemma resource_ranges_of: "ranges_of n technologies (resource_ranges P n technologies)"
proof (induction n)
  case 0
  show ?case by (simp add: ranges_of_def resource_ranges_def)
next
  case (Suc n)
  let ?rs = "resource_ranges P n technologies"
  have step: "resource_ranges P (Suc n) technologies = add_to_range P (technologies n) n ?rs"
    by (simp add: resource_ranges_def)
  have d: "distinct (map rr_technology ?rs)"
    and ids: "\<And>r. r \<in> set ?rs \<Longrightarrow> rr_intf_ids r = filter (\<lambda>i. technologies i = rr_technology r) [0..<n]"
    and techs: "rr_technology ` set ?rs = technologies ` {0..<n}"
    using Suc.IH by (auto simp: ranges_of_def)
  let ?rs' = "add_to_range P (technologies n) n ?rs"
  have "distinct (map rr_technology ?rs')" using d by (auto simp: add_to_range_technologies)
  moreover have "rr_technology ` set ?rs' = technologies ` {0..<Suc n}"
    using techs arg_cong [OF add_to_range_technologies [of P "technologies n" n ?rs], of set]
    by (auto simp: atLeastLessThanSuc)
  moreover have "rr_intf_ids r' = filter (\<lambda>i. technologies i = rr_technology r') [0..<Suc n]"
    if mem: "r' \<in> set ?rs'" for r'
  proof -
    consider r where "r \<in> set ?rs" "rr_technology r = rr_technology r'"
        "rr_intf_ids r' = rr_intf_ids r @ (if rr_technology r = technologies n then [n] else [])"
      | "technologies n \<notin> rr_technology ` set ?rs" "rr_technology r' = technologies n" "rr_intf_ids r' = [n]"
      using add_to_range_member [OF d mem] by blast
    then show ?thesis
    proof cases
      case 1
      then show ?thesis using ids [OF 1(1)] by auto
    next
      case 2
      have "filter (\<lambda>i. technologies i = technologies n) [0..<n] = []"
        using 2(1) unfolding techs image_iff by (auto simp: filter_empty_conv)
      then show ?thesis using 2 by simp
    qed
  qed
  ultimately show ?case unfolding step ranges_of_def by blast
qed

text \<open>
  The description of the device sorts its PON interfaces by technology: there is one resource range
  for each technology in use and no other, and it lists exactly the interfaces of that technology, in
  increasing order.
\<close>

theorem device_info_ranges:
  "ranges_of (unat (num_of_pon_ports s)) (intf_technologies s) (di_ranges (GetDeviceInfo P s)) \<and>
   mset (concat (map rr_intf_ids (di_ranges (GetDeviceInfo P s)))) = mset [0..<unat (num_of_pon_ports s)]"
proof -
  let ?n = "unat (num_of_pon_ports s)"
  let ?rs = "di_ranges (GetDeviceInfo P s)"
  have r: "ranges_of ?n (intf_technologies s) ?rs"
    using resource_ranges_of by (simp add: GetDeviceInfo_def)
  have ids: "i \<in> set (rr_intf_ids r) \<longleftrightarrow> i < ?n \<and> intf_technologies s i = rr_technology r" if "r \<in> set ?rs" for r i
    using r that by (auto simp: ranges_of_def)
  have "distinct (concat (map rr_intf_ids ?rs))"
  proof (rule distinct_concat)
    show "distinct (map rr_intf_ids ?rs)"
    proof (rule distinct_map [THEN iffD2], intro conjI inj_onI)
      show "distinct ?rs" using r by (auto simp: ranges_of_def distinct_map)
      fix x y assume xy: "x \<in> set ?rs" "y \<in> set ?rs" "rr_intf_ids x = rr_intf_ids y"
      have "rr_technology x \<in> intf_technologies s ` {0..<?n}" using r xy(1) by (auto simp: ranges_of_def)
      then obtain i where "i < ?n" "intf_technologies s i = rr_technology x" by auto
      then have "i \<in> set (rr_intf_ids y)" using ids [OF xy(1)] xy(3) by auto
      then have "rr_technology x = rr_technology y" using ids [OF xy(2)] \<open>intf_technologies s i = _\<close> by auto
      then show "x = y" using r xy by (auto simp: ranges_of_def distinct_map inj_on_def)
    qed
  next
    fix ys assume "ys \<in> set (map rr_intf_ids ?rs)"
    then show "distinct ys" using r by (auto simp: ranges_of_def)
  next
    fix ys zs assume "ys \<in> set (map rr_intf_ids ?rs)" "zs \<in> set (map rr_intf_ids ?rs)" "ys \<noteq> zs"
    then obtain x y where xy: "x \<in> set ?rs" "y \<in> set ?rs" "ys = rr_intf_ids x" "zs = rr_intf_ids y" by auto
    then have "rr_technology x \<noteq> rr_technology y"
      using r \<open>ys \<noteq> zs\<close> by (auto simp: ranges_of_def)
    then show "set ys \<inter> set zs = {}" using ids xy by auto
  qed
  moreover have "set (concat (map rr_intf_ids ?rs)) = {0..<?n}"
    using r ids by (fastforce simp: ranges_of_def)
  ultimately have "mset (concat (map rr_intf_ids ?rs)) = mset [0..<?n]"
    using set_eq_iff_mset_eq_distinct [of "concat (map rr_intf_ids ?rs)" "[0..<?n]"] by simp
  with r show ?thesis ..
qed

text \<open>
  The maximum logical distance a PON interface reports never reaches the answer: the first operand
  of every logical distance returned is zero, whatever BAL answers.
\<close>

theorem logical_distance_ignores_maximum:
  assumes "GetLogicalOnuDistance P intf onu s = ((st, r), s')"
  shows "(code st = OK \<longleftrightarrow> r \<noteq> None) \<and> (case r of Some d \<Rightarrow> fst (ld_operands d) = 0 | None \<Rightarrow> True) \<and>
    (case snd (fst (GetLogicalOnuDistanceZero P intf s)) of
       Some d \<Rightarrow> fst (ld_operands d) = 0 | None \<Rightarrow> True)"
  using assms
  by (auto simp: GetLogicalOnuDistance_def GetLogicalOnuDistanceZero_def getOnuMaxLogicalDistance_def
      bal_call_def Let_def split: if_splits)

theorem logical_distance_ignores_maximum_witness:
  "\<exists>st d s'. GetLogicalOnuDistance (const_platform (ok_rsp\<lparr>r_onu_state := BCMOLT_ONU_STATE_ACTIVE, r_num := \<lambda>_. 40\<rparr>))
     0 1 (init_olt\<lparr>activated := True\<rparr>) = ((st, Some d), s') \<and> fst (ld_operands d) = 0"
proof -
  let ?P = "const_platform (ok_rsp\<lparr>r_onu_state := BCMOLT_ONU_STATE_ACTIVE, r_num := \<lambda>_. 40\<rparr>)"
  obtain st d s' where r: "GetLogicalOnuDistance ?P 0 1 (init_olt\<lparr>activated := True\<rparr>) = ((st, Some d), s')"
    by (simp add: GetLogicalOnuDistance_def getOnuMaxLogicalDistance_def is_activated_def bal_call_def)
  then show ?thesis using logical_distance_ignores_maximum [OF r] by auto
qed

end
