(* ===== verification/Monitoring.thy ===== *)
theory Monitoring
  imports Device "HOL-Library.AList"
begin

text \<open>
  What the agent reports of the device on request and periodically: the statistics of ports, ONUs, GEM
  ports and allocs (\<open>agent/src/stats_collection.cc\<close>), and the alarm configuration, the received power
  and the state of ONUs and PON interfaces (\<open>agent/src/core_api_handler.cc\<close>).

  A report is the association list of the fields set, with the number passed to the setter; in the
  tables of fields a pair is the field of the report and the field of BAL's answer it is taken from.
\<close>

type_synonym report = "(string \<times> int) list"

section \<open>Fields\<close>

definition port_stat_names :: "string list" where
  "port_stat_names =
     [''intf_id'', ''rx_bytes'', ''rx_packets'', ''rx_ucast_packets'', ''rx_mcast_packets'',
      ''rx_bcast_packets'', ''rx_error_packets'', ''rx_crc_errors'', ''rx_frames'',
      ''rx_frames_64'', ''rx_frames_65_127'', ''rx_frames_128_255'', ''rx_frames_256_511'',
      ''rx_frames_512_1023'', ''rx_frames_1024_1518'', ''rx_frames_1519_2047'',
      ''rx_frames_2048_4095'', ''rx_frames_4096_9216'', ''rx_frames_9217_16383'', ''tx_bytes'',
      ''tx_packets'', ''tx_ucast_packets'', ''tx_mcast_packets'', ''tx_bcast_packets'',
      ''tx_error_packets'', ''tx_frames'', ''tx_frames_64'', ''tx_frames_65_127'',
      ''tx_frames_128_255'', ''tx_frames_256_511'', ''tx_frames_512_1023'',
      ''tx_frames_1024_1518'', ''tx_frames_1519_2047'', ''tx_frames_2048_4095'',
      ''tx_frames_4096_9216'', ''tx_frames_9217_16383'', ''bip_errors'', ''bip_units'', ''rxgem'',
      ''rxgemdropped'', ''rxgemidle'', ''rxgemcorrected'', ''rxfragmenterror'',
      ''rxpacketsdropped'', ''rxcpuomcipacketsdropped'', ''rxcpu'', ''rxomci'',
      ''rxomcipacketscrcerror'', ''rxgemillegal'', ''txgem'', ''txcpu'', ''txomci'',
      ''txdroppedillegallength'', ''txdroppedtpidmiss'', ''txdroppedvidmiss'', ''txdroppedtotal'',
      ''rxfcserrorpackets'', ''rxundersizepackets'', ''rxoversizepackets'', ''txundersizepackets'',
      ''txoversizepackets'']"

definition onu_stat_names :: "string list" where
  "onu_stat_names =
     [''positive_drift'', ''negative_drift'', ''delimiter_miss_detection'', ''bip_errors'',
      ''bip_units'', ''fec_corrected_symbols'', ''fec_codewords_corrected'',
      ''fec_codewords_uncorrectable'', ''fec_codewords'', ''fec_corrected_units'',
      ''xgem_key_errors'', ''xgem_loss'', ''rx_ploams_error'', ''rx_ploams_non_idle'', ''rx_omci'',
      ''rx_omci_packets_crc_error'', ''rx_bytes'', ''rx_packets'', ''tx_bytes'', ''tx_packets'',
      ''ber_reported'', ''lcdg_errors'', ''rdi_errors'']"

definition gemport_stat_names :: "string list" where
  "gemport_stat_names =
     [''intf_id'', ''gemport_id'', ''rx_packets'', ''rx_bytes'', ''tx_packets'', ''tx_bytes'']"

definition alloc_stat_names :: "string list" where
  "alloc_stat_names =
     [''intfid'', ''allocid'', ''rxbytes'']"

definition collect_nni_fields :: "(string \<times> string) list" where
  "collect_nni_fields =
     [(''rx_bytes'', ''rx_bytes''), (''rx_frames'', ''rx_packets''),
      (''rx_ucast_frames'', ''rx_ucast_packets''), (''rx_mcast_frames'', ''rx_mcast_packets''),
      (''rx_bcast_frames'', ''rx_bcast_packets''), (''rx_error_frames'', ''rx_error_packets''),
      (''tx_bytes'', ''tx_bytes''), (''tx_frames'', ''tx_packets''),
      (''tx_ucast_frames'', ''tx_ucast_packets''), (''tx_mcast_frames'', ''tx_mcast_packets''),
      (''tx_bcast_frames'', ''tx_bcast_packets''), (''tx_error_frames'', ''tx_error_packets'')]"

definition collect_pon_fields :: "(string \<times> string) list" where
  "collect_pon_fields =
     [(''tx_packets'', ''tx_packets''), (''bip_errors'', ''bip_errors''),
      (''rx_crc_errors'', ''rx_crc_error'')]"

definition collect_onu_fields :: "(string \<times> string) list" where
  "collect_onu_fields =
     [(''rx_bytes'', ''rx_bytes''), (''rx_packets'', ''rx_packets''), (''tx_bytes'', ''tx_bytes'')]"

definition get_nni_fields :: "(string \<times> string) list" where
  "get_nni_fields =
     [(''rx_bytes'', ''rx_bytes''), (''rx_frames'', ''rx_packets''),
      (''rx_ucast_frames'', ''rx_ucast_packets''), (''rx_mcast_frames'', ''rx_mcast_packets''),
      (''rx_bcast_frames'', ''rx_bcast_packets''), (''rx_error_frames'', ''rx_error_packets''),
      (''rxfcserrorpackets'', ''rx_fcs_error_packets''),
      (''rxundersizepackets'', ''rx_undersize_packets''),
      (''rxoversizepackets'', ''rx_oversize_packets''), (''tx_bytes'', ''tx_bytes''),
      (''tx_frames'', ''tx_packets''), (''tx_ucast_frames'', ''tx_ucast_packets''),
      (''tx_mcast_frames'', ''tx_mcast_packets''), (''tx_bcast_frames'', ''tx_bcast_packets''),
      (''tx_error_frames'', ''tx_error_packets''),
      (''txundersizepackets'', ''tx_undersize_packets''),
      (''txoversizepackets'', ''tx_oversize_packets'')]"

definition get_pon_fields :: "(string \<times> string) list" where
  "get_pon_fields =
     [(''bip_units'', ''bip_units''), (''bip_errors'', ''bip_errors''),
      (''rx_packets'', ''rx_packets''), (''rxgem'', ''rx_gem''),
      (''rxgemdropped'', ''rx_gem_dropped''), (''rxgemidle'', ''rx_gem_idle''),
      (''rxgemcorrected'', ''rx_gem_corrected''), (''rx_crc_errors'', ''rx_crc_error''),
      (''rxfragmenterror'', ''rx_fragment_error''), (''rxpacketsdropped'', ''rx_packets_dropped''),
      (''rxcpuomcipacketsdropped'', ''rx_cpu_omci_packets_dropped''), (''rxcpu'', ''rx_cpu''),
      (''rxomci'', ''rx_omci''), (''rxomcipacketscrcerror'', ''rx_omci_packets_crc_error''),
      (''rxgemillegal'', ''rx_gem_illegal''), (''tx_packets'', ''tx_packets''),
      (''txgem'', ''tx_gem''), (''txcpu'', ''tx_cpu''), (''txomci'', ''tx_omci''),
      (''txdroppedillegallength'', ''tx_dropped_illegal_length''),
      (''txdroppedtpidmiss'', ''tx_dropped_tpid_miss''),
      (''txdroppedvidmiss'', ''tx_dropped_vid_miss''), (''txdroppedtotal'', ''tx_dropped_total'')]"

definition get_onu_fields :: "(string \<times> string) list" where
  "get_onu_fields =
     [(''positive_drift'', ''positive_drift''), (''negative_drift'', ''negative_drift''),
      (''delimiter_miss_detection'', ''delimiter_miss_detection''),
      (''bip_errors'', ''bip_errors''), (''bip_units'', ''bip_units''),
      (''fec_corrected_symbols'', ''fec_corrected_symbols''),
      (''fec_codewords_corrected'', ''fec_codewords_corrected''),
      (''fec_codewords_uncorrectable'', ''fec_codewords_uncorrectable''),
      (''fec_codewords'', ''fec_codewords''), (''fec_corrected_units'', ''fec_corrected_units''),
      (''xgem_key_errors'', ''xgem_key_errors''), (''xgem_loss'', ''xgem_loss''),
      (''rx_ploams_error'', ''rx_ploams_error''), (''rx_ploams_non_idle'', ''rx_ploams_non_idle''),
      (''rx_omci'', ''rx_omci''), (''rx_omci_packets_crc_error'', ''rx_omci_packets_crc_error''),
      (''rx_bytes'', ''rx_bytes''), (''rx_packets'', ''rx_packets''), (''tx_bytes'', ''tx_bytes''),
      (''tx_packets'', ''tx_packets''), (''ber_reported'', ''ber_reported''),
      (''lcdg_errors'', ''lcdg_errors''), (''rdi_errors'', ''rdi_errors'')]"

definition get_gemport_fields :: "(string \<times> string) list" where
  "get_gemport_fields =
     [(''rx_packets'', ''rx_packets''), (''rx_bytes'', ''rx_bytes''),
      (''tx_packets'', ''tx_packets''), (''tx_bytes'', ''tx_bytes'')]"

section \<open>Reports\<close>

text \<open>Every field of a fresh report is set to \<open>-1\<close>.\<close>

definition default_report :: "string list \<Rightarrow> report" where
  "default_report names = map (\<lambda>f. (f, -1)) names"

definition get_default_port_statistics :: report where
  "get_default_port_statistics = default_report port_stat_names"

definition get_default_onu_statistics :: report where
  "get_default_onu_statistics = default_report onu_stat_names"

definition get_default_gemport_statistics :: report where
  "get_default_gemport_statistics = default_report gemport_stat_names"

definition get_default_alloc_statistics :: report where
  "get_default_alloc_statistics = default_report alloc_stat_names"

fun set_fields :: "(string \<times> string) list \<Rightarrow> bal_rsp \<Rightarrow> report \<Rightarrow> report" where
  "set_fields [] rsp r = r"
| "set_fields ((f, g) # fs) rsp r = set_fields fs rsp (AList.update f (r_num rsp g) r)"

definition set_timestamp :: "platform \<Rightarrow> report \<Rightarrow> olt \<Rightarrow> report \<times> olt" where
  "set_timestamp P r s =
     (let (rsp, s) = bal_call P (Host_call ''time'') s
      in (AList.update ''timestamp'' (i32_of_u32 (word_of_int (r_num rsp ''now''))) r, s))"

section \<open>Collected statistics\<close>

definition collect_nni :: "platform \<Rightarrow> uint32 \<Rightarrow> report \<Rightarrow> olt \<Rightarrow> report \<times> olt" where
  "collect_nni P intf r s =
     (let (rsp, s) = bal_call P (Stat_get (nni_obj (uint intf))) s
      in (if r_err rsp = BCM_ERR_OK then set_fields collect_nni_fields rsp r else r, s))"

text \<open>The ONU of the second query of a PON port is not initialised.\<close>

definition collect_pon :: "platform \<Rightarrow> uint32 \<Rightarrow> report \<Rightarrow> olt \<Rightarrow> report \<times> olt" where
  "collect_pon P intf r s =
     (let (rsp, s) = bal_call P (Stat_get (pon_obj (uint intf))) s;
          r = (if r_err rsp = BCM_ERR_OK then set_fields collect_pon_fields rsp r else r);
          (rsp, s) = bal_call P (Stat_get (onu_obj (uint intf) (uninit_u P s ''key.onu_id''))) s
      in (if r_err rsp = BCM_ERR_OK then set_fields collect_onu_fields rsp r else r, s))"

definition collectPortStatistics :: "platform \<Rightarrow> bcmolt_interface_type \<Rightarrow> uint32 \<Rightarrow> olt \<Rightarrow> report \<times> olt" where
  "collectPortStatistics P t intf s =
     (let r = get_default_port_statistics;
          (r, s) = (if t = BCMOLT_INTERFACE_TYPE_NNI then collect_nni P intf r s
                    else if t = BCMOLT_INTERFACE_TYPE_PON then collect_pon P intf r s else (r, s))
      in set_timestamp P (AList.update ''intf_id'' (uint (interface_key_to_port_no intf t)) r) s)"

definition port_stats_ind :: "report \<Rightarrow> indication" where
  "port_stats_ind r = Other_ind ''port_stats'' (map (\<lambda>(f, v). (f, Num v)) r)"

fun collect_ports :: "platform \<Rightarrow> bcmolt_interface_type \<Rightarrow> nat list \<Rightarrow> olt \<Rightarrow> olt" where
  "collect_ports P t [] s = s"
| "collect_ports P t (i # is) s =
     (let (r, s) = collectPortStatistics P t (of_nat i) s
      in collect_ports P t is (push_ind (port_stats_ind r) s))"

definition stats_collection :: "platform \<Rightarrow> olt \<Rightarrow> olt" where
  "stats_collection P s =
     (if \<not> is_connected s then s
      else if \<not> is_activated s then s
      else collect_ports P BCMOLT_INTERFACE_TYPE_PON [0..<unat (num_of_pon_ports s)]
             (collect_ports P BCMOLT_INTERFACE_TYPE_NNI [0..<unat (num_of_nni_ports s)] s))"

section \<open>Requested statistics\<close>

text \<open>One query of a port; an interface of another type is answered without one.\<close>

definition get_port_statistics ::
    "platform \<Rightarrow> bcmolt_interface_type \<Rightarrow> uint32 \<Rightarrow> olt \<Rightarrow> (bcmos_errno \<times> report) \<times> olt" where
  "get_port_statistics P t intf s =
     (let r = get_default_port_statistics;
          ((err, r), s) =
            (if t = BCMOLT_INTERFACE_TYPE_NNI \<or> t = BCMOLT_INTERFACE_TYPE_PON then
               let nni = (t = BCMOLT_INTERFACE_TYPE_NNI);
                   (rsp, s) = bal_call P (Stat_get (if nni then nni_obj (uint intf) else pon_obj (uint intf))) s
               in ((r_err rsp, if r_err rsp = BCM_ERR_OK
                               then set_fields (if nni then get_nni_fields else get_pon_fields) rsp r else r), s)
             else ((BCM_ERR_OK, r), s))
      in if err \<noteq> BCM_ERR_OK then ((err, r), s)
         else let (r, s) = set_timestamp P (AList.update ''intf_id'' (uint (interface_key_to_port_no intf t)) r) s
              in ((BCM_ERR_OK, r), s))"

definition get_onu_statistics :: "platform \<Rightarrow> uint32 \<Rightarrow> uint32 \<Rightarrow> olt \<Rightarrow> (bcmos_errno \<times> report) \<times> olt" where
  "get_onu_statistics P intf onu s =
     (let r = get_default_onu_statistics;
          (rsp, s) = bal_call P (Stat_get (onu_obj (uint intf) (uint onu))) s
      in if r_err rsp \<noteq> BCM_ERR_OK then ((r_err rsp, r), s)
         else let r = set_fields get_onu_fields rsp r;
                  r = AList.update ''onu_id'' (uint onu) (AList.update ''intf_id'' (uint intf) r);
                  (r, s) = set_timestamp P r s
              in ((BCM_ERR_OK, r), s))"

definition get_gemport_statistics :: "platform \<Rightarrow> uint32 \<Rightarrow> uint32 \<Rightarrow> olt \<Rightarrow> (bcmos_errno \<times> report) \<times> olt" where
  "get_gemport_statistics P intf gem s =
     (let r = get_default_gemport_statistics;
          (rsp, s) = bal_call P (Stat_get (gem_obj (uint intf) (uint gem))) s
      in if r_err rsp \<noteq> BCM_ERR_OK then ((r_err rsp, r), s)
         else let r = set_fields get_gemport_fields rsp r;
                  r = AList.update ''gemport_id'' (uint gem) (AList.update ''intf_id'' (uint intf) r);
                  (r, s) = set_timestamp P r s
              in ((BCM_ERR_OK, r), s))"

definition set_collect_alloc_stats ::
    "platform \<Rightarrow> uint32 \<Rightarrow> uint32 \<Rightarrow> bool \<Rightarrow> olt \<Rightarrow> bcmos_errno \<times> olt" where
  "set_collect_alloc_stats P intf alloc on s =
     bal_err P (Cfg_set (alloc_obj (uint intf) (uint alloc))
                  [(''collect_stats'', Sym (if on then ''BCMOS_TRUE'' else ''BCMOS_FALSE''))]) s"

definition get_alloc_statistics :: "platform \<Rightarrow> uint32 \<Rightarrow> uint32 \<Rightarrow> olt \<Rightarrow> (bcmos_errno \<times> report) \<times> olt" where
  "get_alloc_statistics P intf alloc s =
     (let (err1, s) = set_collect_alloc_stats P intf alloc True s
      in if err1 \<noteq> BCM_ERR_OK then ((err1, []), s)
         else
           let r = get_default_alloc_statistics;
               (rsp, s) = bal_call P (Stat_get (alloc_obj (uint intf) (uint alloc))) s
           in if r_err rsp \<noteq> BCM_ERR_OK
              then ((r_err rsp, r), snd (set_collect_alloc_stats P intf alloc False s))
              else
                let r = AList.update ''allocid'' (uint alloc) (AList.update ''intfid'' (uint intf)
                          (AList.update ''rxbytes'' (r_num rsp ''rx_bytes'') r));
                    (err1, s) = set_collect_alloc_stats P intf alloc False s
                in ((err1, r), s))"

definition GetOnuStatistics :: "platform \<Rightarrow> uint32 \<Rightarrow> uint32 \<Rightarrow> olt \<Rightarrow> (status \<times> report) \<times> olt" where
  "GetOnuStatistics P intf onu s =
     (let ((err, r), s) = get_onu_statistics P intf onu s
      in if err \<noteq> BCM_ERR_OK then ((Status_of INTERNAL ''retrieval of ONU statistics failed'', r), s)
         else ((Status_OK, r), s))"

definition GetGemPortStatistics :: "platform \<Rightarrow> uint32 \<Rightarrow> uint32 \<Rightarrow> olt \<Rightarrow> (status \<times> report) \<times> olt" where
  "GetGemPortStatistics P intf gem s =
     (let ((err, r), s) = get_gemport_statistics P intf gem s
      in if err \<noteq> BCM_ERR_OK then ((Status_of INTERNAL ''retrieval of GEMPORT statistics failed'', r), s)
         else ((Status_OK, r), s))"

definition GetPonPortStatistics :: "platform \<Rightarrow> uint32 \<Rightarrow> olt \<Rightarrow> (status \<times> report) \<times> olt" where
  "GetPonPortStatistics P intf s =
     (let ((err, r), s) = get_port_statistics P BCMOLT_INTERFACE_TYPE_PON intf s
      in if err \<noteq> BCM_ERR_OK then ((Status_of INTERNAL ''retrieval of Pon port statistics failed'', r), s)
         else ((Status_OK, r), s))"

definition GetNniPortStatistics :: "platform \<Rightarrow> uint32 \<Rightarrow> olt \<Rightarrow> (status \<times> report) \<times> olt" where
  "GetNniPortStatistics P intf s =
     (let ((err, r), s) = get_port_statistics P BCMOLT_INTERFACE_TYPE_NNI intf s
      in if err \<noteq> BCM_ERR_OK then ((Status_of INTERNAL ''retrieval of Nni port statistics failed'', r), s)
         else ((Status_OK, r), s))"

definition GetAllocIdStatistics :: "platform \<Rightarrow> uint32 \<Rightarrow> uint32 \<Rightarrow> olt \<Rightarrow> (status \<times> report) \<times> olt" where
  "GetAllocIdStatistics P intf alloc s =
     (let ((err, r), s) = get_alloc_statistics P intf alloc s
      in if err \<noteq> BCM_ERR_OK then ((Status_of INTERNAL ''retrieval of ALLOC_ID statistics failed'', r), s)
         else ((Status_OK, r), s))"

section \<open>States of ONUs and PON interfaces\<close>

fun alarm_state :: "bcmolt_status \<Rightarrow> bool option" where
  "alarm_state BCMOLT_STATUS_ON = Some True"
| "alarm_state BCMOLT_STATUS_OFF = Some False"
| "alarm_state _ = None"

fun onu_info_state :: "bcmolt_onu_state \<Rightarrow> string option" where
  "onu_info_state BCMOLT_ONU_STATE_ACTIVE = Some ''ACTIVE''"
| "onu_info_state BCMOLT_ONU_STATE_INACTIVE = Some ''INACTIVE''"
| "onu_info_state BCMOLT_ONU_STATE_UNAWARE = Some ''UNKNOWN''"
| "onu_info_state BCMOLT_ONU_STATE_NOT_CONFIGURED = Some ''NOT_CONFIGURED''"
| "onu_info_state BCMOLT_ONU_STATE_DISABLED = Some ''DISABLED''"
| "onu_info_state (ONU_STATE_OTHER _) = None"

fun pon_info_state :: "bcmolt_interface_state \<Rightarrow> string" where
  "pon_info_state BCMOLT_INTERFACE_STATE_ACTIVE_WORKING = ''ACTIVE_WORKING''"
| "pon_info_state BCMOLT_INTERFACE_STATE_ACTIVE_STANDBY = ''ACTIVE_STANDBY''"
| "pon_info_state BCMOLT_INTERFACE_STATE_DISABLED = ''DISABLED''"
| "pon_info_state BCMOLT_INTERFACE_STATE_INACTIVE = ''INACTIVE''"
| "pon_info_state _ = ''UNKNOWN''"

text \<open>A field that stays \<open>None\<close> is not set.\<close>

record onu_info =
  oi_onu_id :: uint32
  oi_state :: "string option"
  oi_losi :: "bool option"
  oi_lofi :: "bool option"
  oi_loami :: "bool option"

record pon_intf_info =
  pi_intf_id :: uint32
  pi_los :: "bool option"
  pi_state :: string

definition GetOnuInfo :: "platform \<Rightarrow> uint32 \<Rightarrow> uint32 \<Rightarrow> olt \<Rightarrow> (status \<times> onu_info option) \<times> olt" where
  "GetOnuInfo P intf onu s =
     (let ((err, st, losi, lofi, loami), s) = get_gpon_onu_info P (uint intf) (uint onu) s
      in if err = BCM_ERR_OK
         then ((Status_OK, Some \<lparr>oi_onu_id = onu, oi_state = onu_info_state st, oi_losi = alarm_state losi,
                  oi_lofi = alarm_state lofi, oi_loami = alarm_state loami\<rparr>), s)
         else ((bcm_to_grpc_err P err ''Failed to fetch Onu status'', None), s))"

definition GetPonInterfaceInfo :: "platform \<Rightarrow> uint32 \<Rightarrow> olt \<Rightarrow> (status \<times> pon_intf_info option) \<times> olt" where
  "GetPonInterfaceInfo P intf s =
     (let ((err, st, los), s) = get_pon_interface_status P (uint intf) s
      in if err = BCM_ERR_OK
         then ((Status_OK, Some \<lparr>pi_intf_id = intf, pi_los = alarm_state los, pi_state = pon_info_state st\<rparr>), s)
         else ((bcm_to_grpc_err P err ''Failed to fetch PON interface los status intf_id'', None), s))"

text \<open>
  The measured power comes with the completion indication; the entry is inserted only when the key has
  none.
\<close>

definition GetPonRxPower :: "platform \<Rightarrow> uint32 \<Rightarrow> uint32 \<Rightarrow> olt \<Rightarrow> status \<times> olt" where
  "GetPonRxPower P intf onu s =
     (if max_supported_pon P \<le> unat intf then (bcm_to_grpc_err P BCM_ERR_PARM ''invalid pon intf_id'', s)
      else
        let (err, s) = bal_err P (Oper_submit (onu_obj (uint intf) (uint onu)) ''rssi_measurement'' []) s
        in if err \<noteq> BCM_ERR_OK then (bcm_to_grpc_err P err ''failed to measure rssi rx power'', s)
        else
          let k = (intf, onu);
              s = (if onu_rssi_compltd_map s k = None
                   then s\<lparr>onu_rssi_compltd_map := (onu_rssi_compltd_map s)(k \<mapsto> True)\<rparr> else s);
              (rsp, s) = bal_call P (Pop_wait (onu_obj (uint intf) (uint onu))) s;
              (err, s) = (if r_rssi_ok rsp = None
                          then (BCM_ERR_TIMEOUT, s\<lparr>onu_rssi_compltd_map := (onu_rssi_compltd_map s)(k \<mapsto> False)\<rparr>)
                          else (BCM_ERR_OK, s));
              s = s\<lparr>onu_rssi_compltd_map := (onu_rssi_compltd_map s)(k := None)\<rparr>
          in if err = BCM_ERR_OK then (Status_OK, s)
             else (bcm_to_grpc_err P err ''timeout waiting for pon rssi measurement complete indication'', s))"

section \<open>The alarm of a statistic\<close>

datatype alarm_condition =
    RATE_THRESHOLD uint64 uint64 uint32 uint32
  | RATE_RANGE uint64 uint64 uint32 uint32
  | VALUE_THRESHOLD uint64 uint32 uint32
  | CONDITION_OTHER int

datatype onu_alarm_id = RDI_ERRORS | ALARM_ID_OTHER int

record onu_itu_pon_alarm =
  al_pon_ni :: uint32
  al_onu_id :: uint32
  al_alarm_id :: onu_alarm_id
  al_condition :: alarm_condition

definition soak_fields :: "uint32 \<Rightarrow> uint32 \<Rightarrow> fields" where
  "soak_fields active clear =
     [(''active_soak_time'', Num (uint active)), (''clear_soak_time'', Num (uint clear))]"

definition set_stat_alarm_config :: "alarm_condition \<Rightarrow> fields" where
  "set_stat_alarm_config c =
     (let (trigger, soak) =
        (case c of
           RATE_THRESHOLD rising falling active clear \<Rightarrow>
             ([(''type'', Sym ''BCMOLT_STAT_CONDITION_TYPE_RATE_THRESHOLD''),
               (''u.rate_threshold.rising'', Num (uint rising)),
               (''u.rate_threshold.falling'', Num (uint falling))], soak_fields active clear)
         | RATE_RANGE upper lower active clear \<Rightarrow>
             ([(''type'', Sym ''BCMOLT_STAT_CONDITION_TYPE_RATE_RANGE''),
               (''u.rate_range.upper'', Num (uint upper)),
               (''u.rate_range.lower'', Num (uint lower))], soak_fields active clear)
         | VALUE_THRESHOLD limit active clear \<Rightarrow>
             ([(''type'', Sym ''BCMOLT_STAT_CONDITION_TYPE_VALUE_THRESHOLD''),
               (''u.value_threshold.limit'', Num (uint limit))], soak_fields active clear)
         | CONDITION_OTHER _ \<Rightarrow> ([], []))
      in [(''trigger'', Flds trigger), (''soak'', Flds soak)])"

definition OnuItuPonAlarmSet :: "platform \<Rightarrow> onu_itu_pon_alarm \<Rightarrow> olt \<Rightarrow> status \<times> olt" where
  "OnuItuPonAlarmSet P a s =
     (case al_alarm_id a of
        ALARM_ID_OTHER _ \<Rightarrow> (bcm_to_grpc_err P BCM_ERR_PARM ''the alarm id is wrong'', s)
      | RDI_ERRORS \<Rightarrow>
          let (err, s) = bal_err P (Stat_cfg_set (onu_obj (uint (al_pon_ni a)) (uint (al_onu_id a)))
                 [(''rdi_errors'', Flds (set_stat_alarm_config (al_condition a)))]) s
          in if err \<noteq> BCM_ERR_OK then (bcm_to_grpc_err P err ''set Onu ITU PON stats alarm faild'', s)
             else (Status_OK, s))"

section \<open>Properties\<close>

lemma set_fields_other: "f \<notin> fst ` set fs \<Longrightarrow> map_of (set_fields fs rsp r) f = map_of r f"
  by (induction fs arbitrary: r) (auto simp: AList.update_conv)

lemma set_fields_map:
  "distinct (map fst fs) \<Longrightarrow> (f, g) \<in> set fs \<Longrightarrow> map_of (set_fields fs rsp r) f = Some (r_num rsp g)"
  by (induction fs arbitrary: r) (auto simp: AList.update_conv set_fields_other image_iff)

lemma collect_ports_queue:
  "\<exists>rs. length rs = length is \<and> oltIndQ (collect_ports P t is s) = oltIndQ s @ map port_stats_ind rs \<and>
     (\<forall>j<length is. map_of (rs ! j) ''intf_id'' = Some (uint (interface_key_to_port_no (of_nat (is ! j)) t))) \<and>
     ind_rest (collect_ports P t is s) = ind_rest s \<and> activated (collect_ports P t is s) = activated s"
proof (induction "is" arbitrary: s)
  case Nil
  show ?case by simp
next
  case (Cons i "is")
  obtain r u where c: "collectPortStatistics P t (of_nat i) s = (r, u)" by fastforce
  have u: "oltIndQ u = oltIndQ s" "ind_rest u = ind_rest s" "activated u = activated s"
    and r: "map_of r ''intf_id'' = Some (uint (interface_key_to_port_no (of_nat i) t))"
    using c by (auto simp: collectPortStatistics_def collect_nni_def collect_pon_def set_timestamp_def
        bal_call_def ind_rest_def Let_def AList.update_conv split: if_splits)
  obtain rs where rs: "length rs = length is"
      "oltIndQ (collect_ports P t is (push_ind (port_stats_ind r) u)) =
         oltIndQ (push_ind (port_stats_ind r) u) @ map port_stats_ind rs"
      "\<forall>j<length is. map_of (rs ! j) ''intf_id'' = Some (uint (interface_key_to_port_no (of_nat (is ! j)) t))"
      "ind_rest (collect_ports P t is (push_ind (port_stats_ind r) u)) = ind_rest (push_ind (port_stats_ind r) u)"
      "activated (collect_ports P t is (push_ind (port_stats_ind r) u)) = activated (push_ind (port_stats_ind r) u)"
    using Cons.IH [of "push_ind (port_stats_ind r) u"] by blast
  show ?case using rs u r c
    by (intro exI [of _ "r # rs"]) (auto simp: push_ind_def ind_rest_def nth_Cons split: nat.split)
qed

text \<open>
  A round of statistics.  While VOLTHA is connected and the OLT is up it queues exactly one report
  for each NNI port and then one for each PON port, in their order and under their port numbers, even
  when BAL answers no query; otherwise it does nothing at all.
\<close>

theorem stats_collection_outcome:
  assumes "nni = unat (num_of_nni_ports s)" "pon = unat (num_of_pon_ports s)"
    and "ports = map (\<lambda>i. interface_key_to_port_no (of_nat i) BCMOLT_INTERFACE_TYPE_NNI) [0..<nni] @
                 map (\<lambda>i. interface_key_to_port_no (of_nat i) BCMOLT_INTERFACE_TYPE_PON) [0..<pon]"
  shows "(\<not> (is_connected s \<and> is_activated s) \<longrightarrow> stats_collection P s = s) \<and>
    (is_connected s \<and> is_activated s \<longrightarrow>
       (\<exists>rs. oltIndQ (stats_collection P s) = oltIndQ s @ map port_stats_ind rs \<and>
          map (\<lambda>r. map_of r ''intf_id'') rs = map (Some \<circ> uint) ports \<and>
          ind_rest (stats_collection P s) = ind_rest s))"
proof -
  let ?t = "collect_ports P BCMOLT_INTERFACE_TYPE_NNI [0..<nni] s"
  obtain rn where n: "length rn = nni" "oltIndQ ?t = oltIndQ s @ map port_stats_ind rn"
      "\<forall>j<nni. map_of (rn ! j) ''intf_id'' =
         Some (uint (interface_key_to_port_no (of_nat ([0..<nni] ! j)) BCMOLT_INTERFACE_TYPE_NNI))"
      "ind_rest ?t = ind_rest s"
    using collect_ports_queue [of "[0..<nni]" P BCMOLT_INTERFACE_TYPE_NNI s] by auto
  let ?u = "collect_ports P BCMOLT_INTERFACE_TYPE_PON [0..<pon] ?t"
  obtain rp where p: "length rp = pon" "oltIndQ ?u = oltIndQ ?t @ map port_stats_ind rp"
      "\<forall>j<pon. map_of (rp ! j) ''intf_id'' =
         Some (uint (interface_key_to_port_no (of_nat ([0..<pon] ! j)) BCMOLT_INTERFACE_TYPE_PON))"
      "ind_rest ?u = ind_rest ?t"
    using collect_ports_queue [of "[0..<pon]" P BCMOLT_INTERFACE_TYPE_PON ?t] by auto
  have "map (\<lambda>r. map_of r ''intf_id'') (rn @ rp) = map (Some \<circ> uint) ports"
    using n(1,3) p(1,3) unfolding assms(3) map_append by (intro arg_cong2 [of _ _ _ _ append] nth_equalityI) auto
  then show ?thesis using n p assms(1,2) by (auto simp: stats_collection_def intro: exI [of _ "rn @ rp"])
qed

theorem stats_collection_outcome_witness:
  "length (oltIndQ (stats_collection (const_platform (ok_rsp\<lparr>r_err := BCM_ERR_TIMEOUT\<rparr>))
     (init_olt\<lparr>num_of_nni_ports := 1, num_of_pon_ports := 2, connected_to_voltha := True, activated := True\<rparr>))) = 3"
proof -
  let ?s = "init_olt\<lparr>num_of_nni_ports := 1, num_of_pon_ports := 2, connected_to_voltha := True, activated := True\<rparr>"
  let ?u = "stats_collection (const_platform (ok_rsp\<lparr>r_err := BCM_ERR_TIMEOUT\<rparr>)) ?s"
  have up: "is_connected ?s \<and> is_activated ?s" by (simp add: is_connected_def is_activated_def)
  let ?ports = "map (\<lambda>i. interface_key_to_port_no (of_nat i) BCMOLT_INTERFACE_TYPE_NNI)
                  [0..<unat (num_of_nni_ports ?s)] @
                map (\<lambda>i. interface_key_to_port_no (of_nat i) BCMOLT_INTERFACE_TYPE_PON)
                  [0..<unat (num_of_pon_ports ?s)]"
  obtain rs where rs: "oltIndQ ?u = oltIndQ ?s @ map port_stats_ind rs"
      "map (\<lambda>r. map_of r ''intf_id'') rs = map (Some \<circ> uint) ?ports"
    using stats_collection_outcome [OF refl refl refl, of ?s "const_platform (ok_rsp\<lparr>r_err := BCM_ERR_TIMEOUT\<rparr>)"] up
    by blast
  from arg_cong [OF rs(2), of length] have "length rs = 3" by simp
  then show ?thesis using rs(1) by simp
qed

lemma get_onu_fields_distinct: "distinct (map fst get_onu_fields)"
  by (simp add: get_onu_fields_def)

text \<open>
  The statistics of an ONU are answered OK exactly when BAL answers its query; then every one of
  the 23 counters is the number BAL gave under its name, and the report names the interface and the ONU
  asked for.  The query is the only message about the ONU, and any refusal is INTERNAL.
\<close>

theorem onu_statistics_report:
  assumes "GetOnuStatistics P intf onu s = ((st, r), s')"
    and "rsp = bal_rsp_of P (Stat_get (onu_obj (uint intf) (uint onu))) s"
  shows "(code st = (if r_err rsp = BCM_ERR_OK then OK else INTERNAL)) \<and>
    (code st = OK \<longrightarrow> (\<forall>(f, g)\<in>set get_onu_fields. map_of r f = Some (r_num rsp g)) \<and>
       map_of r ''intf_id'' = Some (uint intf) \<and> map_of r ''onu_id'' = Some (uint onu)) \<and>
    only_sent s s'"
proof (cases "r_err rsp = BCM_ERR_OK")
  case False
  then show ?thesis using assms
    by (auto simp: GetOnuStatistics_def get_onu_statistics_def bal_call_def)
next
  case True
  have notin: "''intf_id'' \<notin> fst ` set get_onu_fields" "''onu_id'' \<notin> fst ` set get_onu_fields"
      "''timestamp'' \<notin> fst ` set get_onu_fields"
    by (simp_all add: get_onu_fields_def)
  let ?r = "set_fields get_onu_fields rsp get_default_onu_statistics"
  obtain t where r: "r = AList.update ''timestamp'' t
      (AList.update ''onu_id'' (uint onu) (AList.update ''intf_id'' (uint intf) ?r))" "code st = OK" "only_sent s s'"
    using assms True
    by (auto simp: GetOnuStatistics_def get_onu_statistics_def set_timestamp_def bal_call_def Let_def)
  have "map_of r f = Some (r_num rsp g)" if "(f, g) \<in> set get_onu_fields" for f g
  proof -
    have "f \<noteq> ''intf_id'' \<and> f \<noteq> ''onu_id'' \<and> f \<noteq> ''timestamp''"
      using notin that by (metis fst_conv image_eqI)
    then show ?thesis using set_fields_map [OF get_onu_fields_distinct that] by (simp add: r(1) AList.update_conv)
  qed
  then show ?thesis using r True by (auto simp: AList.update_conv)
qed

theorem onu_statistics_report_witness:
  "\<exists>st r s'. GetOnuStatistics (const_platform (ok_rsp\<lparr>r_num := \<lambda>_. 7\<rparr>)) 0 3 init_olt = ((st, r), s') \<and>
     map_of r ''rdi_errors'' = Some 7 \<and> map_of r ''onu_id'' = Some 3"
proof -
  obtain st r s' where g: "GetOnuStatistics (const_platform (ok_rsp\<lparr>r_num := \<lambda>_. 7\<rparr>)) 0 3 init_olt = ((st, r), s')"
    by (metis prod.exhaust)
  have "(''rdi_errors'', ''rdi_errors'') \<in> set get_onu_fields" by (simp add: get_onu_fields_def)
  with onu_statistics_report [OF g refl] g show ?thesis by fastforce
qed

text \<open>After a request for the received power no entry waits for the key.\<close>

lemma GetPonRxPower_entry:
  assumes "onu_rssi_compltd_map s (intf, onu) = None"
  shows "onu_rssi_compltd_map (snd (GetPonRxPower P intf onu s)) (intf, onu) = None"
  using assms by (simp add: GetPonRxPower_def bal_err_def bal_call_def Let_def)

lemma agent_part_rssi [simp]: "agent_part (s\<lparr>onu_rssi_compltd_map := c\<rparr>) = agent_part s"
  by (simp add: agent_part_def)

lemma GetPonRxPower_agent_part: "agent_part (snd (GetPonRxPower P intf onu s)) = agent_part s"
  by (simp add: GetPonRxPower_def bal_err_def bal_call_def Let_def)

end
