(* ===== verification/Server.thy ===== *)
theory Server
  imports Monitoring "HOL-Library.Sublist"
begin

text \<open>
  The gRPC server (\<open>agent/common/server.cc\<close>), the queue of indications (\<open>agent/common/Queue.h\<close>) and the
  start-up of the agent (\<open>agent/common/main.cc\<close>).  The threads that stream the indications to VOLTHA
  are a step relation; what BAL sends while the agent sleeps and what the host offers (interfaces and
  files) are parameters.
\<close>

section \<open>Popping with a timeout\<close>

text \<open>
  \<open>Queue::pop(int timeout, int granularity)\<close>.  A wait of the condition variable is a pair: whether it
  timed out, and what was pushed during it.  The accumulated duration is a static variable, so it is
  part of the state; \<open>None\<close> says that the call still waits after the given waits.
\<close>

fun pop_waits ::
    "nat \<Rightarrow> nat \<Rightarrow> (bool \<times> indication list) list \<Rightarrow> indication list \<Rightarrow> nat \<Rightarrow>
     (indication option \<times> indication list \<times> nat) option" where
  "pop_waits timeout gran waits (i # q) duration = Some (Some i, q, duration)"
| "pop_waits timeout gran [] [] duration = None"
| "pop_waits timeout gran ((timed_out, pushed) # waits) [] duration =
     (if timed_out then
        if duration + gran > timeout then Some (None, pushed, 0)
        else pop_waits timeout gran waits pushed (duration + gran)
      else pop_waits timeout gran waits pushed duration)"

definition queue_pop ::
    "nat \<Rightarrow> nat \<Rightarrow> (bool \<times> indication list) list \<Rightarrow> indication list \<Rightarrow> nat \<Rightarrow>
     (indication option \<times> indication list \<times> nat) option" where
  "queue_pop timeout wait_granularity = pop_waits timeout (min timeout wait_granularity)"

text \<open>
  The pop of the waits for a completion, whose remaining time is a variable of its own, and the pop without a
  timeout.  After the last interval the queue is not looked at again.
\<close>

fun pop_for :: "int \<Rightarrow> int \<Rightarrow> (bool \<times> 'a list) list \<Rightarrow> 'a list \<Rightarrow> ('a option \<times> 'a list) option" where
  "pop_for timeout_duration check_interval waits (i # q) = Some (Some i, q)"
| "pop_for timeout_duration check_interval [] [] = None"
| "pop_for timeout_duration check_interval ((timed_out, pushed) # waits) [] =
     (if timed_out then
        if timeout_duration - check_interval \<le> 0 then Some (None, pushed)
        else pop_for (timeout_duration - check_interval) check_interval waits pushed
      else pop_for timeout_duration check_interval waits pushed)"

fun pop_blocking :: "'a list list \<Rightarrow> 'a list \<Rightarrow> ('a \<times> 'a list) option" where
  "pop_blocking waits (i # q) = Some (i, q)"
| "pop_blocking [] [] = None"
| "pop_blocking (pushed # waits) [] = pop_blocking waits pushed"

definition push_back :: "'a \<Rightarrow> 'a list \<Rightarrow> 'a list" where "push_back i q = q @ [i]"

definition COLLECTION_PERIOD :: nat where "COLLECTION_PERIOD = 15"

section \<open>The stream of indications\<close>

text \<open>
  Every call of \<open>EnableIndication\<close> is a thread of its own: at the head of its loop, waiting in the
  pop, writing the indication it took, or returned.
\<close>

datatype stream_phase = At_loop | In_pop | Writing (taken: indication) | Returned

record service =
  agent :: olt
  streams :: "stream_phase list"
  delivered :: "(nat \<times> indication) list"

text \<open>What \<open>EnableIndication\<close> does before its loop.\<close>

definition enable_indication :: "olt \<Rightarrow> olt" where
  "enable_indication s =
     connect (if previously_connected s \<and> is_activated s then push_ind (Olt_ind ''up'') s else s)"

abbreviation move :: "nat \<Rightarrow> stream_phase \<Rightarrow> olt \<Rightarrow> service \<Rightarrow> service" where
  "move i ph s sv \<equiv> sv\<lparr>agent := s, streams := (streams sv)[i := ph]\<rparr>"

text \<open>The steps of the thread \<open>i\<close>; the outcome of a write is the client's.\<close>

inductive stream_step :: "service \<Rightarrow> service \<Rightarrow> bool" where
  loop_head: "i < length (streams sv) \<Longrightarrow> streams sv ! i = At_loop \<Longrightarrow>
    stream_step sv (move i (if is_connected (agent sv) then In_pop else Returned) (agent sv) sv)"
| popped: "i < length (streams sv) \<Longrightarrow> streams sv ! i = In_pop \<Longrightarrow> oltIndQ (agent sv) = ind # q \<Longrightarrow>
    stream_step sv (move i (Writing ind) ((agent sv)\<lparr>oltIndQ := q\<rparr>) sv)"
| written: "i < length (streams sv) \<Longrightarrow> streams sv ! i = Writing ind \<Longrightarrow>
    stream_step sv ((move i At_loop (agent sv) sv)\<lparr>delivered := delivered sv @ [(i, ind)]\<rparr>)"
| write_failed: "i < length (streams sv) \<Longrightarrow> streams sv ! i = Writing ind \<Longrightarrow>
    stream_step sv (move i At_loop (disconnect (push_ind ind (agent sv))) sv)"

text \<open>The steps that produce indications: a new call, a pop that timed out, a message of BAL.\<close>

inductive agent_step :: "platform \<Rightarrow> service \<Rightarrow> service \<Rightarrow> bool" for P where
  call_EnableIndication:
    "agent_step P sv (sv\<lparr>agent := enable_indication (agent sv), streams := streams sv @ [At_loop]\<rparr>)"
| pop_timed_out: "i < length (streams sv) \<Longrightarrow> streams sv ! i = In_pop \<Longrightarrow>
    agent_step P sv (move i At_loop (stats_collection P (agent sv)) sv)"
| bal_message: "callback P m (agent sv) = Some s \<Longrightarrow> agent_step P sv (sv\<lparr>agent := s\<rparr>)"

inductive_simps stream_step_simps: "stream_step sv sv'"
inductive_simps agent_step_simps: "agent_step P sv sv'"

definition service_step :: "platform \<Rightarrow> service \<Rightarrow> service \<Rightarrow> bool" where
  "service_step P sv sv' \<longleftrightarrow> stream_step sv sv' \<or> agent_step P sv sv'"

section \<open>The start of the server\<close>

text \<open>The value that follows the first of the given options.\<close>

fun option_value :: "string list \<Rightarrow> string list \<Rightarrow> string option" where
  "option_value names (a # b # argv) = (if a \<in> set names then Some b else option_value names (b # argv))"
| "option_value names argv = None"

record ifaddr =
  ifa_name :: string
  ifa_addr :: "(bool \<times> string) option"

text \<open>
  The first interface of the name with an internet address; \<open>None\<close> when an interface before it has a
  null address, which is dereferenced.
\<close>

fun find_ip_address :: "string \<Rightarrow> ifaddr list \<Rightarrow> string option" where
  "find_ip_address nw [] = Some ''0.0.0.0''"
| "find_ip_address nw (a # as) =
     (case ifa_addr a of
        None \<Rightarrow> None
      | Some (inet, ip) \<Rightarrow> if inet \<and> ifa_name a = nw then Some ip else find_ip_address nw as)"

definition get_ip_address :: "ifaddr list option \<Rightarrow> string \<Rightarrow> string option" where
  "get_ip_address ifs nw = (case ifs of None \<Rightarrow> Some ''0.0.0.0'' | Some as \<Rightarrow> find_ip_address nw as)"

datatype client_certificate_request =
    DONT_REQUEST_CLIENT_CERTIFICATE
  | REQUEST_CLIENT_CERTIFICATE_BUT_DONT_VERIFY
  | REQUEST_CLIENT_CERTIFICATE_AND_VERIFY
  | REQUEST_AND_REQUIRE_CLIENT_CERTIFICATE_BUT_DONT_VERIFY
  | REQUEST_AND_REQUIRE_CLIENT_CERTIFICATE_AND_VERIFY

definition get_grpc_tls_option :: "string \<Rightarrow> client_certificate_request \<times> bool" where
  "get_grpc_tls_option tls_option =
     (case map_of
        [(''GRPC_SSL_DONT_REQUEST_CLIENT_CERTIFICATE'', DONT_REQUEST_CLIENT_CERTIFICATE),
         (''GRPC_SSL_REQUEST_CLIENT_CERTIFICATE_BUT_DONT_VERIFY'', REQUEST_CLIENT_CERTIFICATE_BUT_DONT_VERIFY),
         (''GRPC_SSL_REQUEST_CLIENT_CERTIFICATE_AND_VERIFY'', REQUEST_CLIENT_CERTIFICATE_AND_VERIFY),
         (''GRPC_SSL_REQUEST_AND_REQUIRE_CLIENT_CERTIFICATE_BUT_DONT_VERIFY'',
          REQUEST_AND_REQUIRE_CLIENT_CERTIFICATE_BUT_DONT_VERIFY),
         (''GRPC_SSL_REQUEST_AND_REQUIRE_CLIENT_CERTIFICATE_AND_VERIFY'',
          REQUEST_AND_REQUIRE_CLIENT_CERTIFICATE_AND_VERIFY)] tls_option of
        Some r \<Rightarrow> (r, True)
      | None \<Rightarrow> (DONT_REQUEST_CLIENT_CERTIFICATE, False))"

text \<open>A file that opens is read whole: the state of the stream itself stays good.\<close>

definition read_from_txt_file :: "(string \<rightharpoonup> string) \<Rightarrow> string \<Rightarrow> string \<times> bool" where
  "read_from_txt_file files name = (case files name of None \<Rightarrow> ([], False) | Some c \<Rightarrow> (c, True))"

datatype credentials =
    InsecureServerCredentials
  | SslServerCredentials client_certificate_request (root_certs: string) (server_key: string) (server_crt: string)

text \<open>
  The credentials; \<open>None\<close> when the server is not started.
\<close>

definition server_credentials :: "string list \<Rightarrow> (string \<rightharpoonup> string) \<Rightarrow> credentials option" where
  "server_credentials argv files =
     (case option_value [''--enable-tls''] argv of
        None \<Rightarrow> Some InsecureServerCredentials
      | Some v \<Rightarrow>
          let (request, valid) = get_grpc_tls_option v
          in if \<not> valid then None
             else
               let (crt, crt_ok) = read_from_txt_file files ''./keystore/root.crt'';
                   (key, key_ok) = read_from_txt_file files ''./keystore/server.key'';
                   (scrt, scrt_ok) = read_from_txt_file files ''./keystore/server.crt''
               in if crt_ok \<and> key_ok \<and> scrt_ok then Some (SslServerCredentials request crt key scrt)
                  else None)"

text \<open>The address the server listens on and its credentials; the outer \<open>None\<close> is a crash.\<close>

definition RunServer ::
    "string list \<Rightarrow> ifaddr list option \<Rightarrow> (string \<rightharpoonup> string) \<Rightarrow> (string \<times> credentials) option option" where
  "RunServer argv ifs files = do {
     ip \<leftarrow> (case option_value [''--interface'', ''--intf''] argv of
              None \<Rightarrow> Some ''0.0.0.0'' | Some nw \<Rightarrow> get_ip_address ifs nw);
     Some (map_option (Pair (ip @ '':9191'')) (server_credentials argv files)) }"

section \<open>Start-up\<close>

definition pushOltOperInd :: "uint32 \<Rightarrow> string \<Rightarrow> string \<Rightarrow> uint32 \<Rightarrow> olt \<Rightarrow> status \<times> olt" where
  "pushOltOperInd intf_id type st speed s = (Status_OK, push_ind (Intf_oper_ind type intf_id st speed) s)"

fun callbacks :: "platform \<Rightarrow> bal_msg list \<Rightarrow> olt \<Rightarrow> olt option" where
  "callbacks P [] s = Some s"
| "callbacks P (m # ms) s = do { s \<leftarrow> callback P m s; callbacks P ms s }"

fun_cases callbacks_ConsE: "callbacks P (m # ms) s = Some s'"

text \<open>
  The wait for the activation: \<open>left\<close> is \<open>maxTrials - 1\<close>, and \<open>waiting i\<close> are the messages of BAL
  during the \<open>i\<close>-th second.  The activation is not looked at again after the last one.
\<close>

fun wait_activation :: "platform \<Rightarrow> (nat \<Rightarrow> bal_msg list) \<Rightarrow> nat \<Rightarrow> nat \<Rightarrow> olt \<Rightarrow> (bool \<times> olt) option" where
  "wait_activation P waiting i 0 s =
     (if is_activated s then Some (True, s)
      else do { s \<leftarrow> callbacks P (waiting i) s; Some (False, s) })"
| "wait_activation P waiting i (Suc left) s =
     (if is_activated s then Some (True, s)
      else do { s \<leftarrow> callbacks P (waiting i) s; wait_activation P waiting (Suc i) left s })"

definition start_pon :: "platform \<Rightarrow> nat \<Rightarrow> olt \<Rightarrow> olt" where
  "start_pon P i s =
     (let (st, s) = EnablePonIf P (of_nat i) s
      in snd (pushOltOperInd (of_nat i) ''pon'' (if ok st then ''up'' else ''down'') 0 s))"

definition start_nni :: "platform \<Rightarrow> nat \<Rightarrow> olt \<Rightarrow> olt" where
  "start_nni P i s =
     (let (nni_speed, s) = GetNniSpeed P (of_nat i) s;
          (st, s) = SetStateUplinkIf P (of_nat i) True s
      in snd (pushOltOperInd (of_nat i) ''nni'' (if ok st then ''up'' else ''down'') nni_speed s))"

record startup_env =
  mac_modes :: "nat \<Rightarrow> string option"
  while_waiting :: "nat \<Rightarrow> bal_msg list"
  before_pons :: "bal_msg list"
  before_nnis :: "bal_msg list"
  interfaces :: "ifaddr list option"
  text_files :: "string \<rightharpoonup> string"

definition start_interfaces :: "platform \<Rightarrow> startup_env \<Rightarrow> olt \<Rightarrow> olt option" where
  "start_interfaces P env s = do {
     s \<leftarrow> callbacks P (before_pons env) s;
     let s = fold (start_pon P) [0..<unat (num_of_pon_ports s)] s;
     s \<leftarrow> callbacks P (before_nnis env) s;
     Some (fold (start_nni P) [0..<unat (num_of_nni_ports s)] s) }"

text \<open>The exit code, what the server listens on, and the state; \<open>None\<close> is a crash.\<close>

definition main ::
    "platform \<Rightarrow> startup_env \<Rightarrow> string list \<Rightarrow> olt \<Rightarrow> (int \<times> (string \<times> credentials) option \<times> olt) option" where
  "main P env argv s =
     (if ''--version'' \<in> set (tl argv) \<or> ''-v'' \<in> set (tl argv) then Some (0, None, s)
      else do {
        (st, s) \<leftarrow> Enable P (mac_modes env) s;
        if \<not> ok st then Some (1, None, s)
        else do {
          (active, s) \<leftarrow> wait_activation P (while_waiting env) 0 299 s;
          if \<not> active then Some (1, None, s)
          else do {
            (st, s) \<leftarrow> ProbeDeviceCapabilities P s;
            if \<not> ok st then Some (1, None, s)
            else do {
              s \<leftarrow> start_interfaces P env s;
              server \<leftarrow> RunServer argv (interfaces env) (text_files env);
              Some (if server = None then 2 else 0, server, s)
            }
          }
        }
      })"

section \<open>Properties of the queue\<close>

text \<open>A pop that found nothing: so many waits that time out until it gives up.\<close>

lemma pop_waits_idle:
  assumes "0 < gran" "d \<le> timeout"
  shows "pop_waits timeout gran (replicate n (True, [])) [] d =
    (if n \<le> (timeout - d) div gran then None else Some (None, [], 0))"
  using assms(2)
proof (induction n arbitrary: d)
  case (Suc n)
  show ?case
  proof (cases "d + gran > timeout")
    case True
    then have "(timeout - d) div gran = 0" using Suc.prems by simp
    then show ?thesis using True by simp
  next
    case False
    then have "(timeout - d) div gran = Suc ((timeout - (d + gran)) div gran)"
      using le_div_geq [of gran "timeout - d"] assms(1) by (simp add: diff_diff_left)
    moreover have "pop_waits timeout gran (replicate (Suc n) (True, [])) [] d =
        pop_waits timeout gran (replicate n (True, [])) [] (d + gran)" using False by simp
    ultimately show ?thesis using False Suc.IH [of "d + gran"] by (simp only: Suc_le_mono)
  qed
qed simp

lemma pop_waits_found:
  "pop_waits timeout gran waits q d = Some (Some i, q', d') \<Longrightarrow> d \<le> timeout \<Longrightarrow>
     d \<le> d' \<and> d' \<le> timeout \<and> d' \<le> d + length waits * gran"
proof (induction timeout gran waits q d rule: pop_waits.induct)
  case (3 timeout gran timed_out pushed waits duration)
  consider "\<not> timed_out" | "timed_out" "duration + gran \<le> timeout" using "3.prems" by fastforce
  then show ?case
  proof cases
    case 1
    then show ?thesis using "3.IH"(2) "3.prems" by auto
  next
    case 2
    then show ?thesis using "3.IH"(1) "3.prems" by auto
  qed
qed auto

text \<open>
  The pop of a completion gives up after exactly as many timed-out waits as intervals fit into the timeout, rounded up;
  it returns what it finds first, in the order of the pushes; and a completion that is pushed in
  the last interval stays in the queue while the request is told that it timed out.
\<close>

lemma pop_for_idle:
  assumes "0 < c"
  shows "pop_for t c (replicate (Suc n) (True, [])) [] =
    (if t \<le> (int n + 1) * c then Some (None, []) else None)"
proof (induction n arbitrary: t)
  case (Suc n)
  have step: "pop_for t c ((True, []) # waits) [] =
      (if t - c \<le> 0 then Some (None, []) else pop_for (t - c) c waits [])" for waits :: "(bool \<times> 'a list) list"
    by simp
  have "0 \<le> (int n + 1) * c" using assms by simp
  then have "t - c \<le> 0 \<Longrightarrow> t \<le> (int (Suc n) + 1) * c" by (simp add: algebra_simps)
  moreover have "t - c \<le> (int n + 1) * c \<longleftrightarrow> t \<le> (int (Suc n) + 1) * c" by (auto simp: algebra_simps)
  ultimately show ?case unfolding replicate_Suc [of "Suc n"] step Suc.IH [of "t - c"] by simp
qed simp

lemma pop_for_found: "pop_for t c waits q = Some (Some i, q') \<Longrightarrow> \<exists>k. i # q' = q \<or> k < length waits \<and> i # q' = snd (waits ! k)"
proof (induction t c waits q rule: pop_for.induct)
  case (3 t c timed_out pushed waits)
  then have "\<exists>k. i # q' = pushed \<or> k < length waits \<and> i # q' = snd (waits ! k)" by (auto split: if_splits)
  then show ?case by (metis Suc_less_eq length_Cons nth_Cons_0 nth_Cons_Suc snd_conv zero_less_Suc)
qed auto

lemma pop_for_misses_last_interval: "t \<le> c \<Longrightarrow> pop_for t c ((True, [i]) # waits) [] = Some (None, [i])"
  by simp

text \<open>
  The timed pop ends.  On an empty queue it gives up after as many timed-out waits as fit into what
  is left of the timeout, plus one, and not before; but a pop that finds an indication keeps the time
  it has waited in the static counter, so that the next one on an empty queue gives up after fewer.
\<close>

theorem queue_pop_terminates:
  assumes "0 < timeout" "0 < gran" "d \<le> timeout"
  shows "(\<forall>n. queue_pop timeout gran (replicate n (True, [])) [] d =
            (if n \<le> (timeout - d) div min timeout gran then None else Some (None, [], 0))) \<and>
    (\<forall>waits q i q' d'. queue_pop timeout gran waits q d = Some (Some i, q', d') \<longrightarrow> d \<le> d' \<and> d' \<le> timeout)"
proof -
  have pos: "0 < min timeout gran" using assms by simp
  have "d \<le> d' \<and> d' \<le> timeout" if "pop_waits timeout (min timeout gran) waits q d = Some (Some i, q', d')"
    for waits q i q' d' using pop_waits_found [OF that assms(3)] by simp
  then show ?thesis using pop_waits_idle [OF pos assms(3)] unfolding queue_pop_def by blast
qed

theorem queue_pop_terminates_witness:
  "queue_pop (COLLECTION_PERIOD * 1000) 1000 (replicate 16 (True, [])) [] 0 = Some (None, [], 0) \<and>
   queue_pop (COLLECTION_PERIOD * 1000) 1000 (replicate 15 (True, [])) [] 0 = None \<and>
   queue_pop (COLLECTION_PERIOD * 1000) 1000 (replicate 2 (True, [])) [] 14000 = Some (None, [], 0)"
  using queue_pop_terminates [THEN conjunct1, of "COLLECTION_PERIOD * 1000" 1000 0]
    queue_pop_terminates [THEN conjunct1, of "COLLECTION_PERIOD * 1000" 1000 14000]
  by (simp add: COLLECTION_PERIOD_def )

section \<open>Properties of the streams\<close>

fun holding :: "stream_phase \<Rightarrow> indication multiset" where
  "holding (Writing i) = {#i#}"
| "holding _ = {#}"

text \<open>Every indication that is delivered, being written or queued.\<close>

definition contents :: "service \<Rightarrow> indication multiset" where
  "contents sv = mset (map snd (delivered sv)) + (\<Sum>ph\<leftarrow>streams sv. holding ph) + mset (oltIndQ (agent sv))"

lemma holding_update:
  "i < length xs \<Longrightarrow>
     (\<Sum>ph\<leftarrow>xs[i := ph']. holding ph) + holding (xs ! i) = (\<Sum>ph\<leftarrow>xs. holding ph) + holding ph'"
  by (induction xs arbitrary: i) (auto simp: nth_Cons add_ac split: nat.split)

lemma holding_taken:
  assumes "i < length xs" "xs ! i = Writing ind"
  shows "(\<Sum>ph\<leftarrow>xs. holding ph) = (\<Sum>ph\<leftarrow>xs[i := At_loop]. holding ph) + {#ind#}"
  using holding_update [OF assms(1), of At_loop] assms(2) by simp

lemma holding_idle:
  assumes "i < length xs" "holding (xs ! i) = {#}"
  shows "(\<Sum>ph\<leftarrow>xs[i := ph']. holding ph) = (\<Sum>ph\<leftarrow>xs. holding ph) + holding ph'"
  using holding_update [OF assms(1), of ph'] assms(2) by simp

lemma stream_step_contents: "stream_step sv sv' \<Longrightarrow> contents sv' = contents sv"
proof (induction rule: stream_step.induct)
  case (popped i sv ind q)
  then show ?case using holding_idle [of i "streams sv" "Writing ind"] by (simp add: contents_def)
next
  case (loop_head i sv)
  then show ?case
    using holding_idle [of i "streams sv" "if is_connected (agent sv) then In_pop else Returned"]
    by (auto simp: contents_def)
qed (simp_all add: contents_def holding_taken disconnect_def push_ind_def)

lemma stats_collection_extends: "\<exists>is. oltIndQ (stats_collection P s) = oltIndQ s @ is"
proof -
  have "\<exists>is. oltIndQ (collect_ports P t ns s) = oltIndQ s @ is" for t ns s
    using collect_ports_queue [of ns P t s] by blast
  from this [of BCMOLT_INTERFACE_TYPE_PON "[0..<unat (num_of_pon_ports s)]"
      "collect_ports P BCMOLT_INTERFACE_TYPE_NNI [0..<unat (num_of_nni_ports s)] s"]
    this [of BCMOLT_INTERFACE_TYPE_NNI "[0..<unat (num_of_nni_ports s)]" s]
  show ?thesis by (auto simp: stats_collection_def)
qed

lemma agent_step_contents: "agent_step P sv sv' \<Longrightarrow> contents sv \<subseteq># contents sv'"
proof (induction rule: agent_step.induct)
  case (pop_timed_out i sv)
  then show ?case using stats_collection_extends [of P "agent sv"] by (auto simp: contents_def holding_idle)
next
  case (bal_message m sv s)
  then show ?case using callback_frame [of P m "agent sv" s] by (auto simp: contents_def queues_at_most_one_def)
qed (auto simp: contents_def enable_indication_def connect_def push_ind_def)

lemma stream_step_delivered: "stream_step sv sv' \<Longrightarrow> prefix (delivered sv) (delivered sv')"
  by (auto simp: stream_step_simps)

lemma agent_step_delivered: "agent_step P sv sv' \<Longrightarrow> delivered sv' = delivered sv"
  by (auto simp: agent_step_simps)

text \<open>
  C24: no indication is lost and none is delivered twice.  Whatever the threads, the callbacks and the
  clients do in whatever order, what was delivered stays so, and every indication that was delivered,
  being written or queued remains so with its multiplicity; the threads alone create none.
\<close>

theorem no_indication_lost:
  assumes "(service_step P)\<^sup>*\<^sup>* sv sv'"
  shows "contents sv \<subseteq># contents sv' \<and> prefix (delivered sv) (delivered sv') \<and>
    (stream_step\<^sup>*\<^sup>* sv sv' \<longrightarrow> contents sv' = contents sv)"
proof -
  have "contents sv \<subseteq># contents sv' \<and> prefix (delivered sv) (delivered sv')"
    using assms
  proof (induction rule: rtranclp_induct)
    case (step t u)
    have "contents t \<subseteq># contents u \<and> prefix (delivered t) (delivered u)"
      using step.hyps(2) stream_step_contents agent_step_contents stream_step_delivered agent_step_delivered
      unfolding service_step_def by (metis prefix_order.refl subset_mset.refl)
    then show ?case using step.IH subset_mset.order_trans prefix_order.trans by blast
  qed simp
  moreover have "contents sv' = contents sv" if "stream_step\<^sup>*\<^sup>* sv sv'"
    using that by (induction rule: rtranclp_induct) (simp_all add: stream_step_contents)
  ultimately show ?thesis by blast
qed

theorem no_indication_lost_witness:
  "\<exists>sv. (service_step (const_platform ok_rsp))\<^sup>*\<^sup>* \<lparr>agent = push_ind (Olt_ind ''up'') init_olt, streams = [], delivered = []\<rparr> sv \<and>
     contents sv = {#Olt_ind ''up''#}"
proof -
  let ?sv = "\<lparr>agent = push_ind (Olt_ind ''up'') init_olt, streams = [], delivered = []\<rparr>"
  have "(service_step (const_platform ok_rsp))\<^sup>*\<^sup>* ?sv ?sv" by simp
  from no_indication_lost [OF this] show ?thesis
    by (intro exI [of _ ?sv]) (simp add: contents_def push_ind_def)
qed

text \<open>A connected stream whose writes succeed delivers one indication in three steps.\<close>

lemma deliver_one:
  assumes "i < length (streams sv)" "streams sv ! i = At_loop" "is_connected (agent sv)"
    and "oltIndQ (agent sv) = ind # q"
  shows "stream_step\<^sup>*\<^sup>* sv (sv\<lparr>agent := (agent sv)\<lparr>oltIndQ := q\<rparr>, delivered := delivered sv @ [(i, ind)]\<rparr>)"
proof -
  let ?t = "move i In_pop (agent sv) sv"
  let ?u = "move i (Writing ind) ((agent ?t)\<lparr>oltIndQ := q\<rparr>) ?t"
  let ?v = "(move i At_loop (agent ?u) ?u)\<lparr>delivered := delivered ?u @ [(i, ind)]\<rparr>"
  have t: "stream_step sv ?t" using loop_head [OF assms(1,2)] assms(3) by simp
  have u: "stream_step ?t ?u" using assms(1,4) by (intro popped) simp_all
  have v: "stream_step ?u ?v" using assms(1) by (intro written) simp_all
  have "(streams sv)[i := At_loop] = streams sv" using assms(1,2) by (metis list_update_id)
  then have "?v = sv\<lparr>agent := (agent sv)\<lparr>oltIndQ := q\<rparr>, delivered := delivered sv @ [(i, ind)]\<rparr>" by simp
  then show ?thesis using t u v
    by (metis (no_types, lifting) converse_rtranclp_into_rtranclp rtranclp.rtrancl_refl)
qed

lemma deliver_all:
  assumes "i < length (streams sv)" "streams sv ! i = At_loop" "is_connected (agent sv)"
    and "oltIndQ (agent sv) = q"
  shows "stream_step\<^sup>*\<^sup>* sv (sv\<lparr>agent := (agent sv)\<lparr>oltIndQ := []\<rparr>, delivered := delivered sv @ map (Pair i) q\<rparr>)"
  using assms
proof (induction q arbitrary: sv)
  case Nil
  have "sv\<lparr>agent := (agent sv)\<lparr>oltIndQ := []\<rparr>, delivered := delivered sv @ map (Pair i) []\<rparr> = sv"
    using Nil.prems(4) by simp
  then show ?case by (simp only: rtranclp.rtrancl_refl)
next
  case (Cons ind q)
  let ?t = "sv\<lparr>agent := (agent sv)\<lparr>oltIndQ := q\<rparr>, delivered := delivered sv @ [(i, ind)]\<rparr>"
  have "stream_step\<^sup>*\<^sup>* ?t (?t\<lparr>agent := (agent ?t)\<lparr>oltIndQ := []\<rparr>, delivered := delivered ?t @ map (Pair i) q\<rparr>)"
    using Cons.prems by (intro Cons.IH) (simp_all add: is_connected_def)
  then show ?case using deliver_one [OF Cons.prems] by (simp add: rtranclp_trans)
qed



section \<open>Properties of the start\<close>

lemma no_option: "opt \<notin> set (butlast argv) \<Longrightarrow> option_value [opt] argv = None"
  by (induction "[opt]" argv rule: option_value.induct) auto

lemma option_value_None: "option_value names argv = None \<Longrightarrow> set (butlast argv) \<inter> set names = {}"
  by (induction names argv rule: option_value.induct) (auto split: if_splits)

lemma get_grpc_tls_option_valid:
  "snd (get_grpc_tls_option v) \<longleftrightarrow>
     v \<in> {''GRPC_SSL_DONT_REQUEST_CLIENT_CERTIFICATE'', ''GRPC_SSL_REQUEST_CLIENT_CERTIFICATE_BUT_DONT_VERIFY'',
          ''GRPC_SSL_REQUEST_CLIENT_CERTIFICATE_AND_VERIFY'',
          ''GRPC_SSL_REQUEST_AND_REQUIRE_CLIENT_CERTIFICATE_BUT_DONT_VERIFY'',
          ''GRPC_SSL_REQUEST_AND_REQUIRE_CLIENT_CERTIFICATE_AND_VERIFY''}"
  by (simp add: get_grpc_tls_option_def)



text \<open>The state after the messages of the first \<open>k\<close> seconds.\<close>

definition after_seconds :: "platform \<Rightarrow> (nat \<Rightarrow> bal_msg list) \<Rightarrow> nat \<Rightarrow> olt \<Rightarrow> olt option" where
  "after_seconds P waiting k s = callbacks P (concat (map waiting [0..<k])) s"

lemma callbacks_append: "callbacks P (ms @ ns) s = do { s \<leftarrow> callbacks P ms s; callbacks P ns s }"
  by (induction ms arbitrary: s) (auto split: Option.bind_split)

lemma after_seconds_Suc:
  "after_seconds P waiting (Suc k) s = do { s \<leftarrow> after_seconds P waiting k s; callbacks P (waiting k) s }"
  by (simp add: after_seconds_def callbacks_append)

lemma wait_activation_from:
  assumes "\<forall>j\<le>Suc left. after_seconds P waiting (i + j) s = Some (f (i + j))"
  shows "wait_activation P waiting i left (f i) =
    Some (case find (\<lambda>j. is_activated (f j)) [i..<Suc (i + left)] of
            Some j \<Rightarrow> (True, f j) | None \<Rightarrow> (False, f (Suc (i + left))))"
  using assms
proof (induction left arbitrary: i)
  case 0
  have "callbacks P (waiting i) (f i) = Some (f (Suc i))"
    using "0.prems" [rule_format, of 0] "0.prems" [rule_format, of 1] by (simp add: after_seconds_Suc)
  then show ?case by simp
next
  case (Suc left)
  have c: "callbacks P (waiting i) (f i) = Some (f (Suc i))"
    using Suc.prems [rule_format, of 0] Suc.prems [rule_format, of 1] by (simp add: after_seconds_Suc)
  have "\<forall>j\<le>Suc left. after_seconds P waiting (Suc i + j) s = Some (f (Suc i + j))"
    using Suc.prems by (metis Suc_le_mono add_Suc_right add_Suc)
  moreover have "[i..<Suc (i + Suc left)] = i # [Suc i..<Suc (Suc i + left)]" by (simp add: upt_conv_Cons del: upt_Suc)
  ultimately show ?case using Suc.IH [of "Suc i"] c by (simp del: upt_Suc split: option.split)
qed

text \<open>
  Waiting for the activation.  The agent looks at the state at the start of each of at most 300 seconds
  and goes on at the first one at which the OLT is active; an OLT that becomes active during the last
  second is not noticed and the agent gives up.
\<close>

theorem wait_activation_outcome:
  assumes "\<forall>j\<le>300. after_seconds P waiting j s = Some (f j)"
  shows "wait_activation P waiting 0 299 s =
    Some (case find (\<lambda>j. is_activated (f j)) [0..<300] of Some j \<Rightarrow> (True, f j) | None \<Rightarrow> (False, f 300))"
proof -
  have "f 0 = s" using assms [rule_format, of 0] by (simp add: after_seconds_def)
  moreover have "Suc (0 + 299) = (300 :: nat)" by simp
  ultimately show ?thesis using wait_activation_from [of 299 P waiting 0 s f] assms by (simp only: add_0 numeral_eq_Suc pred_numeral_simps)
qed

text \<open>The state in which no message arrives is the same after every second.\<close>

theorem wait_activation_outcome_witness:
  "wait_activation (const_platform ok_rsp) (\<lambda>_. []) 0 299 (activate init_olt) = Some (True, activate init_olt)"
proof -
  have "after_seconds (const_platform ok_rsp) (\<lambda>_. []) j (activate init_olt) = Some (activate init_olt)" for j
    by (induction j) (simp_all add: after_seconds_Suc, simp add: after_seconds_def)
  from wait_activation_outcome [of "const_platform ok_rsp" "\<lambda>_. []" "activate init_olt" "\<lambda>_. activate init_olt"] this
  show ?thesis by (simp add: upt_conv_Cons is_activated_def activate_def del: upt_Suc)
qed

text \<open>What the start-up queues for each interface.\<close>

lemma fold_push:
  assumes "\<And>i s. oltIndQ (g i s) = oltIndQ s @ [h i s]"
    and "\<And>i s. ind_rest (g i s) = ind_rest s \<and> activated (g i s) = activated s"
  shows "oltIndQ (fold g [0..<n] s) = oltIndQ s @ map (\<lambda>i. h i (fold g [0..<i] s)) [0..<n] \<and>
    ind_rest (fold g [0..<n] s) = ind_rest s \<and> activated (fold g [0..<n] s) = activated s"
  by (induction n) (simp_all add: assms)

lemma only_sent_frame:
  "only_sent s t \<Longrightarrow> oltIndQ t = oltIndQ s \<and> ind_rest t = ind_rest s \<and> activated t = activated s"
  by (auto simp: only_sent_def ind_rest_def)

lemma push_ind_frame [simp]: "ind_rest (push_ind i s) = ind_rest s"
  by (simp add: push_ind_def ind_rest_def)

text \<open>What the start-up queues for an interface.\<close>

definition pon_announced :: "platform \<Rightarrow> nat \<Rightarrow> olt \<Rightarrow> indication" where
  "pon_announced P i s =
     Intf_oper_ind ''pon'' (of_nat i) (if ok (fst (EnablePonIf P (of_nat i) s)) then ''up'' else ''down'') 0"

definition nni_announced :: "platform \<Rightarrow> nat \<Rightarrow> olt \<Rightarrow> indication" where
  "nni_announced P i s =
     (let (speed, t) = GetNniSpeed P (of_nat i) s
      in Intf_oper_ind ''nni'' (of_nat i)
           (if ok (fst (SetStateUplinkIf P (of_nat i) True t)) then ''up'' else ''down'') speed)"

lemma start_pon_frame:
  "oltIndQ (start_pon P i s) = oltIndQ s @ [pon_announced P i s]"
  "ind_rest (start_pon P i s) = ind_rest s \<and> activated (start_pon P i s) = activated s"
  using only_sent_frame [OF only_sent_EnablePonIf [of s P "of_nat i"]]
  by (simp_all add: start_pon_def pon_announced_def pushOltOperInd_def case_prod_beta) (simp_all add: push_ind_def)

lemma only_sent_GetNniSpeed: "only_sent s (snd (GetNniSpeed P i s))"
  by (simp add: GetNniSpeed_def get_nni_interface_speed_def case_prod_beta Let_def)

lemma start_nni_frame:
  "oltIndQ (start_nni P i s) = oltIndQ s @ [nni_announced P i s]"
  "ind_rest (start_nni P i s) = ind_rest s \<and> activated (start_nni P i s) = activated s"
  using only_sent_frame [OF only_sent_GetNniSpeed [of s P "of_nat i"]]
    only_sent_frame [OF only_sent_SetStateUplinkIf [of "snd (GetNniSpeed P (of_nat i) s)" P "of_nat i" True]]
  by (simp_all add: start_nni_def nni_announced_def pushOltOperInd_def case_prod_beta Let_def)
    (simp_all add: push_ind_def)

lemma callbacks_frame:
  "callbacks P ms s = Some s' \<Longrightarrow> (\<exists>is. oltIndQ s' = oltIndQ s @ is) \<and> ind_rest s' = ind_rest s"
proof (induction ms arbitrary: s)
  case (Cons m ms)
  from Cons.prems obtain t where "callback P m s = Some t" "callbacks P ms t = Some s'"
    by (elim callbacks_ConsE) (auto simp: bind_eq_Some_conv eq_commute [of "Some _"])
  then show ?case using Cons.IH [of t] callback_frame [of P m s t] by (auto simp: queues_at_most_one_def)
qed simp

lemma ports_ind_rest:
  assumes "ind_rest t = ind_rest s"
  shows "num_of_pon_ports t = num_of_pon_ports s \<and> num_of_nni_ports t = num_of_nni_ports s"
proof -
  have "num_of_pon_ports (ind_rest r) = num_of_pon_ports r" "num_of_nni_ports (ind_rest r) = num_of_nni_ports r"
    for r by (simp_all add: ind_rest_def)
  then show ?thesis using assms by metis
qed

text \<open>
  Bringing up the interfaces.  Behind what is queued, and what BAL sends meanwhile, the agent announces
  every PON port and then every NNI port, each once and in order, as up exactly if the request that
  brings it up was answered OK and as down otherwise, a refused port not stopping the others; NNI ports
  come with the speed read for them.
\<close>

theorem interfaces_announced:
  assumes "start_interfaces P env s = Some s'"
  shows "\<exists>early t late u.
    callbacks P (before_pons env) s = Some t \<and> oltIndQ t = oltIndQ s @ early \<and>
    callbacks P (before_nnis env) (fold (start_pon P) [0..<unat (num_of_pon_ports s)] t) = Some u \<and>
    oltIndQ u = oltIndQ (fold (start_pon P) [0..<unat (num_of_pon_ports s)] t) @ late \<and>
    oltIndQ s' = oltIndQ s @ early @
      map (\<lambda>i. pon_announced P i (fold (start_pon P) [0..<i] t)) [0..<unat (num_of_pon_ports s)] @ late @
      map (\<lambda>i. nni_announced P i (fold (start_nni P) [0..<i] u)) [0..<unat (num_of_nni_ports s)]"
proof -
  obtain t u where t: "callbacks P (before_pons env) s = Some t"
      and u: "callbacks P (before_nnis env) (fold (start_pon P) [0..<unat (num_of_pon_ports t)] t) = Some u"
      and s': "s' = fold (start_nni P) [0..<unat (num_of_nni_ports u)] u"
    using assms by (auto simp: start_interfaces_def Let_def bind_eq_Some_conv)
  let ?v = "fold (start_pon P) [0..<unat (num_of_pon_ports t)] t"
  obtain early where e: "oltIndQ t = oltIndQ s @ early" "ind_rest t = ind_rest s" using callbacks_frame [OF t] by blast
  obtain late where l: "oltIndQ u = oltIndQ ?v @ late" "ind_rest u = ind_rest ?v" using callbacks_frame [OF u] by blast
  have p: "oltIndQ ?v = oltIndQ t @ map (\<lambda>i. pon_announced P i (fold (start_pon P) [0..<i] t)) [0..<unat (num_of_pon_ports t)]"
      "ind_rest ?v = ind_rest t"
    using fold_push [OF start_pon_frame, where n = "unat (num_of_pon_ports t)" and s = t] by simp_all
  have n: "oltIndQ s' = oltIndQ u @ map (\<lambda>i. nni_announced P i (fold (start_nni P) [0..<i] u)) [0..<unat (num_of_nni_ports u)]"
    using fold_push [OF start_nni_frame, where n = "unat (num_of_nni_ports u)" and s = u] s' by simp
  have "num_of_pon_ports t = num_of_pon_ports s" "num_of_nni_ports u = num_of_nni_ports s"
    using ports_ind_rest [OF e(2)] ports_ind_rest [of u s] e(2) l(2) p(2) by simp_all
  then show ?thesis using t u e(1) l(1) p(1) n by (intro exI [of _ early] exI [of _ t] exI [of _ late] exI [of _ u]) simp
qed

theorem interfaces_announced_witness:
  "\<exists>s'. start_interfaces (const_platform ok_rsp)
       \<lparr>mac_modes = Map.empty, while_waiting = (\<lambda>_. []), before_pons = [], before_nnis = [], interfaces = None,
        text_files = Map.empty\<rparr> (init_olt\<lparr>num_of_pon_ports := 1, num_of_nni_ports := 0\<rparr>) = Some s' \<and>
     length (oltIndQ s') = 1"
proof -
  let ?env = "\<lparr>mac_modes = Map.empty, while_waiting = (\<lambda>_. []), before_pons = [], before_nnis = [], interfaces = None,
        text_files = Map.empty\<rparr>"
  let ?s = "init_olt\<lparr>num_of_pon_ports := 1, num_of_nni_ports := 0\<rparr>"
  obtain s' where s': "start_interfaces (const_platform ok_rsp) ?env ?s = Some s'"
    by (simp add: start_interfaces_def Let_def)
  from interfaces_announced [OF s'] s' show ?thesis by auto
qed

lemma wait_activation_active:
  "wait_activation P waiting i left s = Some (True, s') \<Longrightarrow> is_activated s'"
  by (induction P waiting i left s rule: wait_activation.induct) (auto simp: bind_eq_Some_conv split: if_splits)

text \<open>VOLTHA can connect only to an agent that was seen active, was probed and announced its interfaces.\<close>

theorem server_after_activation:
  assumes "main P env argv s = Some (rc, srv, s')" "srv \<noteq> None"
  shows "rc = 0 \<and> (\<exists>st t u. is_activated t \<and> ProbeDeviceCapabilities P t = Some (st, u) \<and> ok st \<and>
    start_interfaces P env u = Some s' \<and> RunServer argv (interfaces env) (text_files env) = Some srv)"
  using assms by (auto simp: main_def bind_eq_Some_conv split: if_splits dest: wait_activation_active)

end
