(* ===== verification/Mcast_Group.thy ===== *)
theory Mcast_Group
  imports Device
begin

text \<open>
  The multicast groups (\<open>PerformGroupOperation_\<close> and \<open>DeleteGroup_\<close> of
  \<open>agent/src/core_api_handler.cc\<close>).  The length of the member list is a byte; an allocation is a call of
  the host that may fail.
\<close>

unbundle bit_operations_syntax

section \<open>Requests\<close>

datatype member_interface_type = MEMBER_PON | MEMBER_EPON_1G_PATH | MEMBER_EPON_10G_PATH | MEMBER_OTHER int

record group_member =
  gm_interface_type :: member_interface_type
  gm_interface_id :: uint32
  gm_gem_port_id :: uint32
  gm_priority :: uint32

datatype members_command = SET_MEMBERS | ADD_MEMBERS | REMOVE_MEMBERS | MEMBERS_COMMAND_OTHER int

record group_request =
  gr_group_id :: uint32
  gr_command :: members_command
  gr_members :: "group_member list"
  gr_remove_outer_tag :: bool
  gr_translate_inner_tag :: bool
  gr_i_vid :: uint32

abbreviation group_obj :: "uint32 \<Rightarrow> obj_key" where
  "group_obj i \<equiv> Obj ''group'' [uint i]"

section \<open>Operations\<close>

definition group_create_fields :: "platform \<Rightarrow> group_request \<Rightarrow> fields" where
  "group_create_fields P g =
     [(''cookie'', Num (uint (gr_group_id g))),
      (''action.cmds_bitmask'',
       Num ((enum_value P ''BCMOLT_ACTION_CMD_ID_NONE'' OR
             (if gr_remove_outer_tag g then enum_value P ''BCMOLT_ACTION_CMD_ID_REMOVE_OUTER_TAG'' else 0)) OR
             (if gr_translate_inner_tag g then enum_value P ''BCMOLT_ACTION_CMD_ID_XLATE_INNER_TAG'' else 0)))] @
     (if gr_i_vid g \<noteq> 0 then [(''action.i_vid'', Num (uint (gr_i_vid g)))] else [])"

fun update_command :: "members_command \<Rightarrow> string option" where
  "update_command SET_MEMBERS = Some ''BCMOLT_MEMBERS_UPDATE_COMMAND_SET''"
| "update_command ADD_MEMBERS = Some ''BCMOLT_MEMBERS_UPDATE_COMMAND_ADD''"
| "update_command REMOVE_MEMBERS = Some ''BCMOLT_MEMBERS_UPDATE_COMMAND_REMOVE''"
| "update_command (MEMBERS_COMMAND_OTHER _) = None"

fun member_intf_type :: "member_interface_type \<Rightarrow> string option" where
  "member_intf_type MEMBER_PON = Some ''BCMOLT_INTERFACE_TYPE_PON''"
| "member_intf_type MEMBER_EPON_1G_PATH = Some ''BCMOLT_INTERFACE_TYPE_EPON_1_G''"
| "member_intf_type MEMBER_EPON_10G_PATH = Some ''BCMOLT_INTERFACE_TYPE_EPON_10_G''"
| "member_intf_type (MEMBER_OTHER _) = None"

text \<open>One member: why it is refused, or what is sent of it.\<close>

definition member_info :: "platform \<Rightarrow> group_member \<Rightarrow> string + fields" where
  "member_info P m =
     (case member_intf_type (gm_interface_type m) of
        None \<Rightarrow> Inl ''Invalid interface type for a group member''
      | Some t \<Rightarrow>
          if unat (gm_priority m) < NUMBER_OF_DEFAULT_INTERFACE_QUEUES
          then Inr [(''intf.intf_type'', Sym t), (''intf.intf_id'', Num (uint (gm_interface_id m))),
                    (''svc_port_id'', Num (uint (gm_gem_port_id m))),
                    (''egress_qos.tm_sched.id'',
                     Num (uint (u32_of_int (get_default_tm_sched_id P (sint (gm_interface_id m)) downstream)))),
                    (''egress_qos.type'', Sym ''BCMOLT_EGRESS_QOS_TYPE_FIXED_QUEUE''),
                    (''egress_qos.u.fixed_queue.queue_id'',
                     Num (uint (queue_id_list ! unat (gm_priority m))))]
          else Inl ''Invalid queue priority for a group member'')"

fun member_infos :: "platform \<Rightarrow> group_member list \<Rightarrow> string + fields list" where
  "member_infos P [] = Inr []"
| "member_infos P (m # ms) =
     (case member_info P m of
        Inl e \<Rightarrow> Inl e
      | Inr i \<Rightarrow> (case member_infos P ms of Inl e \<Rightarrow> Inl e | Inr is \<Rightarrow> Inr (i # is)))"

definition members_len :: "group_request \<Rightarrow> uint8" where
  "members_len g = of_nat (length (gr_members g))"

definition members_update_fields :: "string \<Rightarrow> fields list \<Rightarrow> fields" where
  "members_update_fields c is =
     [(''members_cmd.members'', Flds (map (\<lambda>i. (''member'', Flds i)) is)), (''members_cmd.command'', Sym c)]"

definition update_members :: "platform \<Rightarrow> group_request \<Rightarrow> olt \<Rightarrow> status \<times> olt" where
  "update_members P g s =
     (let (err, s) = bal_err P (Host_call ''bcmos_calloc'') s
      in if err \<noteq> BCM_ERR_OK
         then (Status_of RESOURCE_EXHAUSTED ''Memory exhausted during member list creation'', s)
         else
           case update_command (gr_command g) of
             None \<Rightarrow> (Status_of INVALID_ARGUMENT ''Invalid group member command'', s)
           | Some c \<Rightarrow>
               (case member_infos P (take (unat (members_len g)) (gr_members g)) of
                  Inl e \<Rightarrow> (Status_of INVALID_ARGUMENT e, s)
                | Inr is \<Rightarrow>
                    let (err, s) = bal_err P (Oper_submit (group_obj (gr_group_id g)) ''members_update''
                                               (members_update_fields c is)) s
                    in if err \<noteq> BCM_ERR_OK
                       then (bcm_to_grpc_err P err ''Failed to submit members update operation for the group'', s)
                       else (Status_OK, s)))"

definition PerformGroupOperation :: "platform \<Rightarrow> group_request \<Rightarrow> olt \<Rightarrow> status \<times> olt" where
  "PerformGroupOperation P g s =
     (let (rsp, s) = bal_call P (Cfg_get (group_obj (gr_group_id g))) s
      in if r_err rsp \<noteq> BCM_ERR_OK then (bcm_to_grpc_err P (r_err rsp) ''Error in querying group'', s)
         else if r_sym rsp ''state'' = ''BCMOLT_GROUP_STATE_NOT_CONFIGURED'' then
           if members_len g \<noteq> 0
           then (Status_of INVALID_ARGUMENT ''Non-empty member list given for non-existent group'', s)
           else
             let (err, s) = bal_err P (Cfg_set (group_obj (gr_group_id g)) (group_create_fields P g)) s
             in if err \<noteq> BCM_ERR_OK then (bcm_to_grpc_err P err ''Error in creating group'', s)
                else (Status_OK, s)
         else update_members P g s)"

definition DeleteGroup :: "platform \<Rightarrow> uint32 \<Rightarrow> olt \<Rightarrow> status \<times> olt" where
  "DeleteGroup P i s =
     (let (rsp, s) = bal_call P (Cfg_get (group_obj i)) s
      in if r_err rsp \<noteq> BCM_ERR_OK then (bcm_to_grpc_err P (r_err rsp) ''Error in querying group'', s)
         else if r_sym rsp ''state'' \<noteq> ''BCMOLT_GROUP_STATE_NOT_CONFIGURED'' then
           let (err, s) = bal_err P (Cfg_clear (group_obj i)) s
           in if err \<noteq> BCM_ERR_OK then (bcm_to_grpc_err P err ''Failed to delete group'', s)
              else (Status_OK, s)
         else (Status_of NOT_FOUND ''Group not found'', s))"

section \<open>Properties\<close>

lemma only_sent_PerformGroupOperation: "only_sent s (snd (PerformGroupOperation P g s))"
  by (simp add: PerformGroupOperation_def update_members_def bal_err_def bal_call_def Let_def
      split: option.split sum.split)

lemma only_sent_DeleteGroup: "only_sent s (snd (DeleteGroup P i s))"
  by (simp add: DeleteGroup_def bal_err_def bal_call_def Let_def)

text \<open>A member the code accepts.\<close>

definition valid_member :: "group_member \<Rightarrow> bool" where
  "valid_member m \<longleftrightarrow> (case gm_interface_type m of MEMBER_OTHER _ \<Rightarrow> False | _ \<Rightarrow> True) \<and> gm_priority m < 4"

lemma member_info_valid: "(\<exists>i. member_info P m = Inr i) \<longleftrightarrow> valid_member m"
proof -
  have "unat (gm_priority m) < 4 \<longleftrightarrow> gm_priority m < 4" by (simp add: word_less_nat_alt)
  then show ?thesis
    by (cases "gm_interface_type m")
      (auto simp: member_info_def valid_member_def NUMBER_OF_DEFAULT_INTERFACE_QUEUES_def)
qed

lemma member_infos_Inr:
  "member_infos P ms = Inr is \<longleftrightarrow> list_all2 (\<lambda>m i. member_info P m = Inr i) ms is"
proof (induction ms arbitrary: "is")
  case (Cons m ms)
  show ?case
    by (cases "member_info P m"; cases "member_infos P ms") (auto simp: list_all2_Cons1 Cons.IH [symmetric])
qed auto

lemma member_infos_valid: "(\<exists>is. member_infos P ms = Inr is) \<longleftrightarrow> (\<forall>m\<in>set ms. valid_member m)"
proof -
  have "(\<exists>is. list_all2 (\<lambda>m i. member_info P m = Inr i) ms is) \<longleftrightarrow> (\<forall>m\<in>set ms. \<exists>i. member_info P m = Inr i)"
    by (induction ms) (auto simp: list_all2_Cons1)
  then show ?thesis by (simp add: member_infos_Inr member_info_valid)
qed


text \<open>A sample board on which every group exists.\<close>

definition sample_member :: group_member where
  "sample_member = \<lparr>gm_interface_type = MEMBER_PON, gm_interface_id = 2, gm_gem_port_id = 4069, gm_priority = 0\<rparr>"

definition sample_group :: "members_command \<Rightarrow> group_member list \<Rightarrow> group_request" where
  "sample_group c ms = \<lparr>gr_group_id = 1, gr_command = c, gr_members = ms,
     gr_remove_outer_tag = True, gr_translate_inner_tag = False, gr_i_vid = 0\<rparr>"


text \<open>
  The number of members is kept in a byte: only the first ones, as many as the number leaves modulo
  256, count.  A command to set 256 members is the command to set none, and empties the group.
\<close>

theorem group_members_modulo_256:
  "PerformGroupOperation P g s =
     PerformGroupOperation P (g\<lparr>gr_members := take (length (gr_members g) mod 256) (gr_members g)\<rparr>) s"
proof -
  let ?h = "g\<lparr>gr_members := take (length (gr_members g) mod 256) (gr_members g)\<rparr>"
  have n: "unat (of_nat k :: uint8) = k mod 256" for k by (simp add: unat_of_nat)
  have l: "members_len ?h = members_len g"
    by (simp add: word_unat_eq_iff members_len_def n min_def)
  have ms: "take (unat (members_len ?h)) (gr_members ?h) = take (unat (members_len g)) (gr_members g)"
    by (simp add: members_len_def n min_def)
  have sel: "gr_command ?h = gr_command g" "gr_group_id ?h = gr_group_id g" by simp_all
  have c: "group_create_fields P ?h = group_create_fields P g" by (simp add: group_create_fields_def)
  have "update_members P ?h t = update_members P g t" for t by (simp only: update_members_def ms sel)
  then show ?thesis by (simp only: PerformGroupOperation_def l c sel)
qed

end
