(* ===== verification/Service.thy ===== *)
theory Service
  imports Server Mcast_Group
begin

text \<open>
  The requests of VOLTHA as the service of \<open>agent/common/server.cc\<close> dispatches them, and the step relation
  of all that changes the state of the agent.  What a step leaves alone is proved once, for any view
  of the state: the locale \<open>quiet_view\<close> is about views that only the requests for schedulers, queues and
  flows can change, \<open>flow_view\<close> about those only the requests for flows can.
\<close>

section \<open>The requests\<close>

text \<open>
  A request with the fields its method of \<open>OpenoltService\<close> reads.  \<open>HeartbeatCheck\<close>, \<open>GetDeviceInfo\<close> and
  \<open>Reboot\<close> leave the state alone; \<open>EnableIndication\<close> is a stream and is in theory \<open>Server\<close>.
\<close>

datatype provisioning_request =
    Enable_pon_if uint32
  | Disable_pon_if uint32
  | Disable_onu_serial_number uint32 "int list" "int list"
  | Enable_onu_serial_number uint32 "int list" "int list"
  | Disable_onu uint32 uint32
  | Enable_onu uint32 uint32
  | Collect_statistics
  | Reboot
  | Get_device_info
  | Create_traffic_schedulers traffic_schedulers
  | Remove_traffic_schedulers traffic_schedulers
  | Create_traffic_queues traffic_queues
  | Remove_traffic_queues traffic_queues
  | Perform_group_operation group_request
  | Delete_group uint32

datatype monitoring_request =
    Onu_itu_pon_alarm_set onu_itu_pon_alarm
  | Get_logical_onu_distance_zero uint32
  | Get_logical_onu_distance uint32 uint32
  | Get_onu_statistics uint32 uint32
  | Get_gem_port_statistics uint32 uint32
  | Get_pon_rx_power uint32 uint32
  | Get_onu_info uint32 uint32
  | Get_pon_interface_info uint32
  | Get_pon_port_statistics uint32
  | Get_nni_port_statistics uint32
  | Get_alloc_id_statistics uint32 uint32

datatype request =
    Disable_olt
  | Reenable_olt
  | Activate_onu uint32 uint32 "int list" "int list" bool
  | Deactivate_onu uint32 uint32
  | Delete_onu uint32 uint32
  | Omci_msg_out uint32 uint32 string
  | Onu_packet_out uint32 uint32 uint32 uint32 "int list"
  | Uplink_packet_out uint32 "int list"
  | Flow_add flow
  | Flow_remove flow
  | Heartbeat_check
  | Provisioning provisioning_request
  | Monitoring monitoring_request

abbreviation status_only :: "('r \<times> 'd) \<times> olt \<Rightarrow> ('r \<times> olt)" where
  "status_only r \<equiv> (fst (fst r), snd r)"

text \<open>
  The status of the response and the state; \<open>None\<close> for a call that does not return.  The methods are in the
  order of the class, in three parts.
\<close>

fun ProvisioningService :: "platform \<Rightarrow> provisioning_request \<Rightarrow> olt \<Rightarrow> (status \<times> olt) option" where
  "ProvisioningService P (Enable_pon_if i) s = Some (EnablePonIf P i s)"
| "ProvisioningService P (Disable_pon_if i) s = Some (DisablePonIf P i s)"
| "ProvisioningService P (Disable_onu_serial_number i vid vsn) s = Some (DisableOnuSerialNumber P i vid vsn s)"
| "ProvisioningService P (Enable_onu_serial_number i vid vsn) s = Some (EnableOnuSerialNumber P i vid vsn s)"
| "ProvisioningService P (Disable_onu i n) s = Some (DisableOnu P i n s)"
| "ProvisioningService P (Enable_onu i n) s = Some (EnableOnu P i n s)"
| "ProvisioningService P Collect_statistics s = Some (Status_OK, stats_collection P s)"
| "ProvisioningService P Reboot s = Some (Status_OK, s)"
| "ProvisioningService P Get_device_info s = Some (Status_OK, s)"
| "ProvisioningService P (Create_traffic_schedulers r) s = Some (CreateTrafficSchedulers P r s)"
| "ProvisioningService P (Remove_traffic_schedulers r) s = Some (RemoveTrafficSchedulers P r s)"
| "ProvisioningService P (Create_traffic_queues r) s = CreateTrafficQueues P r s"
| "ProvisioningService P (Remove_traffic_queues r) s = RemoveTrafficQueues P r s"
| "ProvisioningService P (Perform_group_operation g) s = Some (PerformGroupOperation P g s)"
| "ProvisioningService P (Delete_group g) s = Some (DeleteGroup P g s)"

fun MonitoringService :: "platform \<Rightarrow> monitoring_request \<Rightarrow> olt \<Rightarrow> status \<times> olt" where
  "MonitoringService P (Onu_itu_pon_alarm_set a) s = OnuItuPonAlarmSet P a s"
| "MonitoringService P (Get_logical_onu_distance_zero i) s = status_only (GetLogicalOnuDistanceZero P i s)"
| "MonitoringService P (Get_logical_onu_distance i n) s = status_only (GetLogicalOnuDistance P i n s)"
| "MonitoringService P (Get_onu_statistics i n) s = status_only (GetOnuStatistics P i n s)"
| "MonitoringService P (Get_gem_port_statistics i g) s = status_only (GetGemPortStatistics P i g s)"
| "MonitoringService P (Get_pon_rx_power i n) s = GetPonRxPower P i n s"
| "MonitoringService P (Get_onu_info i n) s = status_only (GetOnuInfo P i n s)"
| "MonitoringService P (Get_pon_interface_info i) s = status_only (GetPonInterfaceInfo P i s)"
| "MonitoringService P (Get_pon_port_statistics i) s = status_only (GetPonPortStatistics P i s)"
| "MonitoringService P (Get_nni_port_statistics i) s = status_only (GetNniPortStatistics P i s)"
| "MonitoringService P (Get_alloc_id_statistics i a) s = status_only (GetAllocIdStatistics P i a s)"

fun OpenoltService :: "platform \<Rightarrow> request \<Rightarrow> olt \<Rightarrow> (status \<times> olt) option" where
  "OpenoltService P Disable_olt s = Some (Disable P s)"
| "OpenoltService P Reenable_olt s = Some (Reenable P s)"
| "OpenoltService P (Activate_onu i n vid vsn enc) s = Some (ActivateOnu P i n vid vsn enc s)"
| "OpenoltService P (Deactivate_onu i n) s = Some (DeactivateOnu P i n s)"
| "OpenoltService P (Delete_onu i n) s = Some (DeleteOnu P i n s)"
| "OpenoltService P (Omci_msg_out i n pkt) s = Some (OmciMsgOut P i n pkt s)"
| "OpenoltService P (Onu_packet_out i n port gem pkt) s = Some (OnuPacketOut P i n port gem pkt s)"
| "OpenoltService P (Uplink_packet_out i pkt) s = Some (UplinkPacketOut P i pkt s)"
| "OpenoltService P (Flow_add f) s = FlowAddWrapper P f s"
| "OpenoltService P (Flow_remove f) s = Some (FlowRemoveWrapper P f s)"
| "OpenoltService P Heartbeat_check s = Some (Status_OK, s)"
| "OpenoltService P (Provisioning q) s = ProvisioningService P q s"
| "OpenoltService P (Monitoring q) s = Some (MonitoringService P q s)"

text \<open>
  What changes the state of the agent: the start of it, a request, a message of BAL, and the threads of
  the indication streams.  The guard is on the requests that VOLTHA makes.
\<close>

inductive guarded_step :: "(request \<Rightarrow> olt \<Rightarrow> bool) \<Rightarrow> platform \<Rightarrow> olt \<Rightarrow> olt \<Rightarrow> bool" for G P where
  enabled: "Enable P mac_mode s = Some (st, s') \<Longrightarrow> guarded_step G P s s'"
| probed: "ProbeDeviceCapabilities P s = Some (st, s') \<Longrightarrow> guarded_step G P s s'"
| nni_started: "guarded_step G P s (start_nni P i s)"
| pon_started: "guarded_step G P s (start_pon P i s)"
| requested: "G req s \<Longrightarrow> OpenoltService P req s = Some (st, s') \<Longrightarrow> guarded_step G P s s'"
| indicated: "callback P m s = Some s' \<Longrightarrow> guarded_step G P s s'"
| streamed: "stream_step sv sv' \<or> agent_step P sv sv' \<Longrightarrow> guarded_step G P (agent sv) (agent sv')"

abbreviation system_step :: "platform \<Rightarrow> olt \<Rightarrow> olt \<Rightarrow> bool" where
  "system_step \<equiv> guarded_step (\<lambda>req s. True)"

section \<open>What a request leaves alone\<close>

text \<open>Requests that only send messages, and those that touch the entries of waiting requests at most.\<close>

lemma agent_part_only_sent: "only_sent s s' \<Longrightarrow> agent_part s' = agent_part s"
  by (auto simp: only_sent_def)

lemma agent_part_set_onu_state [simp]: "agent_part (snd (set_onu_state P i n op s)) = agent_part s"
  by (simp add: set_onu_state_def)

lemma agent_part_wait_deactivate [simp]:
  "agent_part (snd (wait_for_onu_deactivate_complete P i n s)) = agent_part s"
  by (auto simp: wait_for_onu_deactivate_complete_def bal_call_def Let_def split: option.split)

lemma agent_part_DeactivateOnu [simp]: "agent_part (snd (DeactivateOnu P i n s)) = agent_part s"
  by (simp add: DeactivateOnu_def case_prod_beta Let_def)

lemma agent_part_onu [simp]:
  "agent_part (snd (activate_configured_onu P i n e s)) = agent_part s"
  "agent_part (snd (DisableOnu P i n s)) = agent_part s"
  "agent_part (snd (EnableOnu P i n s)) = agent_part s"
  "agent_part (snd (disable_serial_number P i v vs c s)) = agent_part s"
  "agent_part (snd (OmciMsgOut P i n pkt s)) = agent_part s"
  "agent_part (send_to_gem P i g bytes s) = agent_part s"
  by (simp_all add: activate_configured_onu_def DisableOnu_def EnableOnu_def disable_serial_number_def
      OmciMsgOut_def send_to_gem_def case_prod_beta Let_def)

lemma agent_part_serial [simp]:
  "agent_part (snd (DisableOnuSerialNumber P i v vs s)) = agent_part s"
  "agent_part (snd (EnableOnuSerialNumber P i v vs s)) = agent_part s"
  by (simp_all add: DisableOnuSerialNumber_def EnableOnuSerialNumber_def case_prod_beta Let_def)

lemma agent_part_ActivateOnu [simp]: "agent_part (snd (ActivateOnu P i n v vs e s)) = agent_part s"
  by (simp add: ActivateOnu_def case_prod_beta Let_def)

lemma agent_part_DeleteOnu [simp]: "agent_part (snd (DeleteOnu P i n s)) = agent_part s"
  by (simp add: DeleteOnu_def case_prod_beta Let_def)

lemma agent_part_OnuPacketOut [simp]: "agent_part (snd (OnuPacketOut P i n port g pkt s)) = agent_part s"
  by (simp add: OnuPacketOut_def split: option.split)

lemma agent_part_is_uplink_flow: "is_uplink_flow P f s = (b, s') \<Longrightarrow> agent_part s' = agent_part s"
  unfolding is_uplink_flow_def by (rule agent_part_status_matches)

lemma agent_part_find_uplink: "find_uplink_flow P m s = (f, s') \<Longrightarrow> agent_part s' = agent_part s"
  by (induction P m s rule: find_uplink_flow.induct)
    (auto split: prod.splits if_splits dest: agent_part_is_uplink_flow)

lemma agent_part_UplinkPacketOut [simp]: "agent_part (snd (UplinkPacketOut P i pkt s)) = agent_part s"
proof -
  have "agent_part u = agent_part s" if "uplink_flow P s = (f, u)" for f u
    using that by (auto simp: uplink_flow_def split: prod.splits if_splits
        dest!: agent_part_is_uplink_flow agent_part_find_uplink)
  from this [OF prod.collapse [symmetric]]
  show ?thesis by (auto simp: UplinkPacketOut_def case_prod_beta Let_def split: option.split)
qed

lemma agent_part_interfaces [simp]:
  "agent_part (snd (EnablePonIf P i s)) = agent_part s"
  "agent_part (snd (DisablePonIf P i s)) = agent_part s"
  "agent_part (snd (PerformGroupOperation P g s)) = agent_part s"
  "agent_part (snd (DeleteGroup P j s)) = agent_part s"
  "agent_part (snd (SetStateUplinkIf P i b s)) = agent_part s"
  "agent_part (snd (GetNniSpeed P i s)) = agent_part s"
  by (intro agent_part_only_sent only_sent_EnablePonIf only_sent_DisablePonIf only_sent_PerformGroupOperation
      only_sent_DeleteGroup only_sent_SetStateUplinkIf only_sent_GetNniSpeed)+

lemma agent_part_set_timestamp [simp]: "agent_part (snd (set_timestamp P r s)) = agent_part s"
  by (simp add: set_timestamp_def case_prod_beta Let_def)

lemma agent_part_statistics [simp]:
  "agent_part (snd (get_port_statistics P t i s)) = agent_part s"
  "agent_part (snd (get_onu_statistics P i n s)) = agent_part s"
  "agent_part (snd (get_gemport_statistics P i n s)) = agent_part s"
  "agent_part (snd (get_alloc_statistics P i n s)) = agent_part s"
  by (simp_all add: get_port_statistics_def get_onu_statistics_def get_gemport_statistics_def
      get_alloc_statistics_def set_collect_alloc_stats_def case_prod_beta Let_def)

lemma agent_part_getters [simp]:
  "agent_part (snd (GetOnuStatistics P i n s)) = agent_part s"
  "agent_part (snd (GetGemPortStatistics P i g s)) = agent_part s"
  "agent_part (snd (GetPonPortStatistics P i s)) = agent_part s"
  "agent_part (snd (GetNniPortStatistics P i s)) = agent_part s"
  "agent_part (snd (GetAllocIdStatistics P i a s)) = agent_part s"
  "agent_part (snd (getOnuMaxLogicalDistance P i s)) = agent_part s"
  by (simp_all add: GetOnuStatistics_def GetGemPortStatistics_def GetPonPortStatistics_def
      GetNniPortStatistics_def GetAllocIdStatistics_def getOnuMaxLogicalDistance_def case_prod_beta Let_def)

lemma agent_part_infos [simp]:
  "agent_part (snd (GetLogicalOnuDistanceZero P i s)) = agent_part s"
  "agent_part (snd (GetLogicalOnuDistance P i n s)) = agent_part s"
  "agent_part (snd (GetOnuInfo P i n s)) = agent_part s"
  "agent_part (snd (GetPonInterfaceInfo P i s)) = agent_part s"
  "agent_part (snd (OnuItuPonAlarmSet P a s)) = agent_part s"
  by (simp_all add: GetLogicalOnuDistanceZero_def GetLogicalOnuDistance_def GetOnuInfo_def
      GetPonInterfaceInfo_def OnuItuPonAlarmSet_def get_gpon_onu_info_def get_pon_interface_status_def
      case_prod_beta Let_def split: onu_alarm_id.split)

lemma agent_part_MonitoringService [simp]: "agent_part (snd (MonitoringService P q s)) = agent_part s"
  by (cases q) (simp_all add: GetPonRxPower_agent_part)

lemmas agent_part_requests = agent_part_MonitoringService agent_part_DeactivateOnu agent_part_onu agent_part_serial agent_part_ActivateOnu
  agent_part_DeleteOnu agent_part_OnuPacketOut agent_part_UplinkPacketOut agent_part_interfaces
  agent_part_getters agent_part_infos GetPonRxPower_agent_part

text \<open>The state without what the start of the device and the streams set.\<close>

definition device_rest :: "olt \<Rightarrow> olt" where
  "device_rest s = s\<lparr>subscribed := False, connected_to_voltha := False, connected_once := False,
     num_of_nni_ports := 0, num_of_pon_ports := 0, board_technology := [], chip_family := [],
     firmware_version := [], openolt_version := None, intf_technologies := (\<lambda>_. [])\<rparr>"

text \<open>The state without the tables of schedulers and queues.\<close>

definition table_rest :: "olt \<Rightarrow> olt" where
  "table_rest s = s\<lparr>sched_map := Map.empty, tm_sched_bitset := {}, qos_type_map := Map.empty,
     sched_qmp_id_map := [], qmp_id_to_qmp_map := [], tm_qmp_bitset := {}, pon_gem_to_onu_uni_map := Map.empty\<rparr>"

locale quiet_view =
  fixes view :: "olt \<Rightarrow> 'v"
  assumes view_agent_part [simp]: "view (agent_part s) = view s"
    and view_ind_rest [simp]: "view (ind_rest s) = view s"
    and view_device_rest [simp]: "view (device_rest s) = view s"
begin

lemma view_same:
  "agent_part s' = agent_part s \<Longrightarrow> view s' = view s"
  "ind_rest s' = ind_rest s \<Longrightarrow> view s' = view s"
  "device_rest s' = device_rest s \<Longrightarrow> view s' = view s"
  by (metis view_agent_part, metis view_ind_rest, metis view_device_rest)

lemmas view_requests [simp] = agent_part_requests [THEN view_same(1)]

lemma view_ind_updates [simp]:
  "view (s\<lparr>bal_trace := t\<rparr>) = view s" "view (s\<lparr>oltIndQ := q\<rparr>) = view s"
  "view (push_ind i s) = view s" "view (activate s) = view s" "view (deactivate s) = view s"
  by (rule view_same(2), simp add: ind_rest_def push_ind_def activate_def deactivate_def)+

lemma view_device_updates [simp]:
  "view (connect s) = view s" "view (disconnect s) = view s"
  "view (s\<lparr>subscribed := b\<rparr>) = view s" "view (s\<lparr>num_of_nni_ports := i\<rparr>) = view s"
  "view (s\<lparr>num_of_pon_ports := j\<rparr>) = view s" "view (s\<lparr>openolt_version := k\<rparr>) = view s"
  "view (s\<lparr>firmware_version := l\<rparr>) = view s" "view (s\<lparr>board_technology := m\<rparr>) = view s"
  "view (s\<lparr>chip_family := n\<rparr>) = view s" "view (s\<lparr>intf_technologies := p\<rparr>) = view s"
  by (rule view_same(3), simp add: device_rest_def connect_def disconnect_def)+

lemma view_bal [simp]: "view (snd (bal_call P q s)) = view s" "view (snd (bal_err P q s)) = view s"
  by (simp_all add: bal_call_def bal_err_def)

lemma view_each_pon:
  assumes "\<And>i s. only_sent s (snd (f i s))"
  shows "view (snd (each_pon f is n s)) = view s"
  by (rule view_same(1), rule agent_part_only_sent, rule each_pon_only_sent, rule assms)

lemma view_Disable [simp]: "view (snd (Disable P s)) = view s"
  by (simp add: Disable_def case_prod_beta Let_def view_each_pon [OF only_sent_DisablePonIf])

lemma view_Reenable [simp]: "view (snd (Reenable P s)) = view s"
  by (simp add: Reenable_def case_prod_beta Let_def view_each_pon [OF only_sent_EnablePonIf])

lemma view_stats_collection [simp]: "view (stats_collection P s) = view s"
proof -
  have "view (collect_ports P t is s) = view s" for t "is" s
    using collect_ports_queue [of "is" P t s] view_same(2) by blast
  then show ?thesis by (simp add: stats_collection_def)
qed

lemma view_enable_devices: "view (snd (enable_devices P m devs n s)) = view s"
  by (induction devs arbitrary: n s)
    (simp_all add: reset_pon_device_def case_prod_beta Let_def split: option.split)

lemma view_subscribe: "view (snd (SubscribeIndication P s)) = view s"
proof -
  have "view (snd (subscribe_all P gs s)) = view s" for gs s
  proof (induction gs arbitrary: s)
    case (Cons g gs)
    obtain n e where g: "g = (n, e)" by fastforce
    then show ?case using Cons.IH [of "snd (bal_err P (Ind_subscribe n) s)"]
      by (simp add: case_prod_beta Let_def)
  qed simp
  then show ?thesis by (simp add: SubscribeIndication_def)
qed

lemma view_checks:
  "view (snd (check_connection P s)) = view s" "view (snd (check_bal_ready P s)) = view s"
proof -
  have "view (snd (connection_tries P n s)) = view s" for n s
    by (induction n arbitrary: s) (simp_all add: case_prod_beta Let_def)
  then show "view (snd (check_connection P s)) = view s" by (simp add: check_connection_def)
  have "view (snd (bal_ready_tries P n st s)) = view s" for n st s
    by (induction n arbitrary: s st) (simp_all add: case_prod_beta Let_def)
  then show "view (snd (check_bal_ready P s)) = view s" by (simp add: check_bal_ready_def)
qed

lemma view_Enable:
  assumes "Enable P m s = Some (st, s')"
  shows "view s' = view s"
proof -
  obtain e1 s1 where 1: "bal_err P (Host_call ''bcmolt_host_init'') s = (e1, s1)" by fastforce
  obtain e2 s2 where 2: "bal_err P (Host_call ''bcmcli_session_open'') s1 = (e2, s2)" by fastforce
  obtain e3 s3 where 3: "bal_err P (Host_call ''bcmolt_apiend_cli_init'') s2 = (e3, s3)" by fastforce
  obtain e4 s4 where 4: "check_connection P s3 = (e4, s4)" by fastforce
  obtain e5 s5 where 5: "SubscribeIndication P s4 = (e5, s5)" by fastforce
  obtain e6 s6 where 6: "check_bal_ready P s5 = (e6, s6)" by fastforce
  obtain e7 s7 where 7: "enable_devices P m [0..<max_devs P] 0 s6 = (e7, s7)" by fastforce
  have "view s1 = view s" using arg_cong [OF 1, of "\<lambda>r. view (snd r)"] by simp
  moreover have "view s2 = view s1" using arg_cong [OF 2, of "\<lambda>r. view (snd r)"] by simp
  moreover have "view s3 = view s2" using arg_cong [OF 3, of "\<lambda>r. view (snd r)"] by simp
  moreover have "view s4 = view s3" using arg_cong [OF 4, of "\<lambda>r. view (snd r)"] by (simp add: view_checks)
  moreover have "view s5 = view s4" using arg_cong [OF 5, of "\<lambda>r. view (snd r)"] by (simp add: view_subscribe)
  moreover have "view s6 = view s5" using arg_cong [OF 6, of "\<lambda>r. view (snd r)"] by (simp add: view_checks)
  moreover have "view s7 = view s6" using arg_cong [OF 7, of "\<lambda>r. view (snd r)"] by (simp add: view_enable_devices)
  moreover have "s' \<in> {s, s1, s3, s4, s5, s6, s7}"
    using assms by (simp add: Enable_def 1 2 3 4 5 6 7 split: if_splits)
  ultimately show ?thesis by auto
qed

lemma view_cfg_get [simp]: "view (snd (bcmolt_cfg_get_mult_retry P k s)) = view s"
proof -
  have "view (snd (cfg_get_tries P k n s)) = view s" for n s
    by (induction n arbitrary: s) (simp_all add: case_prod_beta Let_def)
  then show ?thesis by (simp add: bcmolt_cfg_get_mult_retry_def)
qed

lemma view_set_technologies: "set_technologies P mode dev s = Some s' \<Longrightarrow> view s' = view s"
  by (auto simp: set_technologies_def bind_eq_Some_conv split: if_splits option.splits prod.splits)

lemma view_probe_devices: "probe_devices P v devs n e s = Some (r, s') \<Longrightarrow> view s' = view s"
proof (induction devs arbitrary: n e s)
  case (Cons dev devs)
  obtain rsp t where t: "bcmolt_cfg_get_mult_retry P (device_obj dev) s = (rsp, t)" by fastforce
  have ts: "view t = view s" using arg_cong [OF t, of "\<lambda>r. view (snd r)"] by simp
  have chip: "view (set_chip_family P f u) = view u" for f u by (simp add: set_chip_family_def)
  show ?case
  proof (cases "r_err rsp = BCM_ERR_OK")
    case True
    then obtain u where u: "set_technologies P (r_num rsp ''system_mode'') dev
          (t\<lparr>firmware_version := ''BAL.'' @ bal_version rsp @ ''__'' @ v\<rparr>) = Some u"
        "probe_devices P v devs n (r_err rsp) (set_chip_family P (r_num rsp ''chip_family'') u) = Some (r, s')"
      using Cons.prems t by (auto simp: bind_eq_Some_conv)
    show ?thesis using Cons.IH [OF u(2)] chip view_set_technologies [OF u(1)] ts by simp
  next
    case False
    then show ?thesis using Cons.prems Cons.IH t ts by simp
  qed
qed simp

lemma view_Probe:
  assumes "ProbeDeviceCapabilities P s = Some (st, s')"
  shows "view s' = view s"
proof -
  obtain rsp t where t: "bcmolt_cfg_get_mult_retry P (Obj ''olt'' []) s = (rsp, t)" by fastforce
  have "view t = view s" using view_cfg_get [of P "Obj ''olt'' []" s] t by simp
  then show ?thesis using assms t
    by (auto simp: ProbeDeviceCapabilities_def Let_def split: if_splits dest!: view_probe_devices)
qed

lemma view_starts: "view (start_pon P i s) = view s" "view (start_nni P i s) = view s"
  using start_pon_frame [of P i s] start_nni_frame [of P i s] view_same(2) by blast+

lemma view_callback: "callback P m s = Some s' \<Longrightarrow> view s' = view s"
  using callback_frame view_same(2) unfolding queues_at_most_one_def by blast

lemma view_enable_indication: "view (enable_indication s) = view s"
  by (cases "previously_connected s \<and> is_activated s") (auto simp: enable_indication_def)

lemma view_stream_step: "stream_step sv sv' \<Longrightarrow> view (agent sv') = view (agent sv)"
  by (induction rule: stream_step.induct) simp_all

lemma view_agent_step: "agent_step P sv sv' \<Longrightarrow> view (agent sv') = view (agent sv)"
  by (induction rule: agent_step.induct)
    (simp_all add: view_enable_indication view_stats_collection view_callback)

end

locale flow_view = quiet_view +
  assumes view_table_rest [simp]: "view (table_rest s) = view s"
begin

lemma view_table_updates [simp]:
  "view (s\<lparr>sched_map := a\<rparr>) = view s" "view (s\<lparr>tm_sched_bitset := b\<rparr>) = view s"
  "view (s\<lparr>qos_type_map := c\<rparr>) = view s" "view (s\<lparr>sched_qmp_id_map := d\<rparr>) = view s"
  "view (s\<lparr>qmp_id_to_qmp_map := e\<rparr>) = view s" "view (s\<lparr>tm_qmp_bitset := f\<rparr>) = view s"
  "view (s\<lparr>pon_gem_to_onu_uni_map := g\<rparr>) = view s"
  by (subst view_table_rest [symmetric], subst (2) view_table_rest [symmetric], simp add: table_rest_def)+

lemma view_sched_id [simp]:
  "view (snd (get_tm_sched_id i n u d tp s)) = view s" "view (free_tm_sched_id i n u d tp s) = view s"
  "view (snd (queue_sched_id P d' nni i' n' u' tp' s)) = view s"
proof -
  have get: "view (snd (get_tm_sched_id i n u d tp s)) = view s" for i n u d tp
    by (auto simp: get_tm_sched_id_def tm_sched_alloc_def Let_def split: option.split)
  then show "view (snd (get_tm_sched_id i n u d tp s)) = view s"
    "view (snd (queue_sched_id P d' nni i' n' u' tp' s)) = view s"
    by (simp_all add: queue_sched_id_def)
  show "view (free_tm_sched_id i n u d tp s) = view s"
    by (auto simp: free_tm_sched_id_def Let_def split: option.split)
qed

lemma view_waits [simp]:
  "view (snd (get_onu_state P i n s)) = view s" "view (snd (wait_for_alloc_action P i' n' a s)) = view s"
  "view (snd (CreateSched_upstream P i' n' al abw info s)) = view s"
  by (rule view_same(1), simp)+ (rule view_same(1), rule CreateSched_upstream_frame [OF prod.collapse [symmetric]])

lemma view_CreateSched [simp]: "view (snd (CreateSched P d i n u ts s)) = view s"
  by (simp add: CreateSched_def CreateSched_downstream_def case_prod_beta Let_def)

lemma view_create_scheds [simp]: "view (snd (create_scheds P i n u tss s)) = view s"
  by (induction tss arbitrary: s) (simp_all add: case_prod_beta Let_def)

lemma view_RemoveSched [simp]: "view (snd (RemoveSched P i n u a d tp s)) = view s"
  by (simp add: RemoveSched_def case_prod_beta Let_def)

lemma view_remove_scheds [simp]: "view (snd (remove_scheds P i n u tss s)) = view s"
  by (induction tss arbitrary: s) (simp_all add: case_prod_beta Let_def)

lemma view_profiles [simp]:
  "view (update_sched_qmp_id_map k q s) = view s" "view (snd (alloc_tm_qmp_id k p s)) = view s"
  "view (snd (free_tm_qmp_id P k q s)) = view s" "view (snd (CreateTrafficQueueMappingProfile P k p s)) = view s"
  "view (snd (RemoveTrafficQueueMappingProfile P q s)) = view s"
proof -
  show upd: "view (update_sched_qmp_id_map k q s) = view s" for k q s by (simp add: update_sched_qmp_id_map_def)
  show alloc: "view (snd (alloc_tm_qmp_id k p s)) = view s"
    by (simp add: alloc_tm_qmp_id_def upd split: option.split)
  then show "view (snd (CreateTrafficQueueMappingProfile P k p s)) = view s"
    by (simp add: CreateTrafficQueueMappingProfile_def case_prod_beta Let_def)
  show "view (snd (free_tm_qmp_id P k q s)) = view s" by (simp add: free_tm_qmp_id_def Let_def split: option.split)
  show "view (snd (RemoveTrafficQueueMappingProfile P q s)) = view s"
    by (simp add: RemoveTrafficQueueMappingProfile_def)
qed

lemma view_gem_ports [simp]:
  "view (snd (install_gem_port P i n u g b s)) = view s" "view (snd (remove_gem_port P i n u g b s)) = view s"
  using install_gem_port_cases [OF prod.collapse [symmetric]] remove_gem_port_cases [OF prod.collapse [symmetric]]
    view_same(1) by blast+

lemma view_CreateQueue [simp]: "view (snd (CreateQueue P d nni i n u qos prio gem tp s)) = view s"
  by (simp add: CreateQueue_def case_prod_beta Let_def)

lemma view_create_queues [simp]: "view (snd (create_queues P req qos qs s)) = view s"
  by (induction qs arbitrary: s) (simp_all add: case_prod_beta Let_def)

lemma view_get_qos_type [simp]:
  "view (snd (get_qos_type i n u l s)) = view s" "view (clear_qos_type i n u s) = view s"
  by (simp_all add: get_qos_type_def clear_qos_type_def Let_def split: option.split)

lemma view_ensure_profile: "ensure_profile P req s = Some r \<Longrightarrow> view (snd r) = view s"
  by (auto simp: ensure_profile_def case_prod_beta Let_def bind_eq_Some_conv split: option.splits if_splits)

lemma view_CreateTrafficQueues: "CreateTrafficQueues P req s = Some r \<Longrightarrow> view (snd r) = view s"
  by (auto simp: CreateTrafficQueues_def case_prod_beta Let_def bind_eq_Some_conv
      split: option.splits if_splits dest!: view_ensure_profile)

lemma view_RemoveQueue: "RemoveQueue P d i n u qos prio gem tp s = Some r \<Longrightarrow> view (snd r) = view s"
  by (auto simp: RemoveQueue_def case_prod_beta Let_def bind_eq_Some_conv split: if_splits)

lemma view_remove_queues: "remove_queues P req qos qs st d s = Some r \<Longrightarrow> view (snd r) = view s"
  by (induction qs arbitrary: st d s)
    (auto simp: case_prod_beta Let_def bind_eq_Some_conv split: if_splits dest!: view_RemoveQueue)

lemma view_release_profile [simp]: "view (snd (release_profile P req qos d s)) = view s"
  by (simp add: release_profile_def case_prod_beta Let_def)

lemma view_RemoveTrafficQueues: "RemoveTrafficQueues P req s = Some r \<Longrightarrow> view (snd r) = view s"
  by (auto simp: RemoveTrafficQueues_def case_prod_beta Let_def bind_eq_Some_conv
      split: if_splits dest!: view_remove_queues)

lemma view_ProvisioningService:
  "ProvisioningService P q s = Some r \<Longrightarrow> view (snd r) = view s"
  by (cases q) (auto simp: CreateTrafficSchedulers_def RemoveTrafficSchedulers_def
      dest: view_CreateTrafficQueues view_RemoveTrafficQueues)

lemma view_OpenoltService:
  assumes "OpenoltService P req s = Some r" "\<And>f. req \<noteq> Flow_add f" "\<And>f. req \<noteq> Flow_remove f"
  shows "view (snd r) = view s"
  using assms
  by (cases req) (auto dest: view_ProvisioningService)

text \<open>Every step but a request for a flow.\<close>

lemma view_step:
  assumes "guarded_step G P s s'"
  obtains (other) "view s' = view s"
    | (flow_added) r st where "G (Flow_add r) s" "FlowAddWrapper P r s = Some (st, s')"
    | (flow_removed) r where "G (Flow_remove r) s" "s' = snd (FlowRemoveWrapper P r s)"
  using assms
proof (cases rule: guarded_step.cases)
  case (requested req st)
  show thesis
  proof (cases "(\<exists>f. req = Flow_add f) \<or> (\<exists>f. req = Flow_remove f)")
    case True
    then show thesis
    proof
      assume "\<exists>f. req = Flow_add f"
      then obtain f where "G (Flow_add f) s" "FlowAddWrapper P f s = Some (st, s')" using requested by auto
      then show thesis by (rule flow_added)
    next
      assume "\<exists>f. req = Flow_remove f"
      then obtain f where "G (Flow_remove f) s" "FlowRemoveWrapper P f s = (st, s')" using requested by auto
      then show thesis using flow_removed [of f] by simp
    qed
  next
    case False
    then show thesis using view_OpenoltService [OF requested(2)] other by simp
  qed
qed (use other view_Enable view_Probe view_starts view_callback view_stream_step view_agent_step in auto)

end

end
