(* ===== verification/System.thy ===== *)
theory System
  imports Service
begin

text \<open>
  Invariants of the agent as a whole: what holds in every state it can reach, whatever VOLTHA requests,
  BAL answers and sends.  The tables of schedulers and queue mapping profiles stay consistent.
\<close>

section \<open>Invariants of the system\<close>

text \<open>What every step keeps holds in every reachable state.\<close>

locale step_invariant =
  fixes init :: "'s \<Rightarrow> bool" and step :: "'s \<Rightarrow> 's \<Rightarrow> bool" and inv :: "'s \<Rightarrow> bool"
  assumes inv_init: "init s \<Longrightarrow> inv s"
    and inv_step: "inv s \<Longrightarrow> step s s' \<Longrightarrow> inv s'"
begin

lemma reachable: "init s \<Longrightarrow> step\<^sup>*\<^sup>* s s' \<Longrightarrow> inv s'"
  by (erule rtranclp_induct) (auto intro: inv_init inv_step)

end

section \<open>The tables of schedulers and profiles\<close>

interpretation tm_quiet: quiet_view tm_inv
proof
  fix s
  show "tm_inv (agent_part s) = tm_inv s" by (rule tm_inv_ap)
  show "tm_inv (ind_rest s) = tm_inv s" "tm_inv (device_rest s) = tm_inv s"
    by (simp_all add: tm_inv_def sched_inv_def qmp_inv_def ind_rest_def device_rest_def)
qed

text \<open>
  What a device flow keeps, and the books of the flows do not matter for, the requests for flows keep.
\<close>

locale kept_by_flows =
  fixes inv :: "olt \<Rightarrow> bool"
  assumes inv_books [simp]: "inv (s\<lparr>flow_id_bitset := f\<rparr>) = inv s" "inv (s\<lparr>voltha_flow_to_device_flow := g\<rparr>) = inv s"
      "inv (s\<lparr>symmetric_datapath_flow_id_map := h\<rparr>) = inv s"
    and inv_FlowAdd: "FlowAdd P i aes r s = (st, s') \<Longrightarrow> inv s \<Longrightarrow> inv s'"
    and inv_FlowRemove: "FlowRemove P i d s = (st, s') \<Longrightarrow> inv s \<Longrightarrow> inv s'"
begin

lemma inv_add_device_flow: "add_device_flow P r d s = (st, s') \<Longrightarrow> inv s \<Longrightarrow> inv s'"
  unfolding add_device_flow_def by (rule inv_FlowAdd)

lemma inv_remove_device_flows: "inv s \<Longrightarrow> inv (remove_device_flows P t fs s)"
  by (induction fs arbitrary: s) (auto intro: inv_FlowRemove [OF prod.collapse [symmetric]])

lemma inv_free_flow [simp]: "inv (free_flow_id f s) = inv s" "inv (free_flow_ids fs s) = inv s"
proof -
  show one: "inv (free_flow_id f s) = inv s" for f s by (simp add: free_flow_id_def)
  show "inv (free_flow_ids fs s) = inv s" by (induction fs arbitrary: s) (simp_all add: one)
qed

lemma inv_cache [simp]:
  "inv (update_voltha_flow_to_cache v d s) = inv s" "inv (remove_voltha_flow_from_cache v s) = inv s"
  by (simp_all add: update_voltha_flow_to_cache_def remove_voltha_flow_from_cache_def)

lemma inv_add_replicated: "add_replicated P r good st ds fs s = (res, s') \<Longrightarrow> inv s \<Longrightarrow> inv s'"
  by (induction P r good st ds fs s rule: add_replicated.induct)
    (auto split: prod.splits if_splits simp: inv_remove_device_flows dest!: inv_add_device_flow)

lemma inv_add_symmetric: "add_symmetric P r symm params s = (res, s') \<Longrightarrow> inv s \<Longrightarrow> inv s'"
  by (auto simp: add_symmetric_def Let_def split: if_splits prod.splits sum.splits
      dest!: inv_add_replicated dest: inv_add_device_flow)

lemma inv_add_single: "add_single P r s = Some (res, s') \<Longrightarrow> inv s \<Longrightarrow> inv s'"
  by (auto simp: add_single_def get_flow_id_def Let_def split: if_splits prod.splits Option.bind_splits
      dest!: inv_FlowAdd)

lemma inv_get_flow_ids: "get_flow_ids n s = Some (r, s') \<Longrightarrow> inv s' = inv s"
  by (auto simp: get_flow_ids_def Let_def split: if_splits prod.splits Option.bind_splits)

lemma inv_add_with_replication: "add_with_replication P r s = Some (res, s') \<Longrightarrow> inv s \<Longrightarrow> inv s'"
  by (auto simp: add_with_replication_def Let_def split: if_splits prod.splits sum.splits Option.bind_splits
      dest!: inv_add_replicated inv_get_flow_ids)

lemma inv_FlowAddWrapper:
  assumes "FlowAddWrapper P req s = Some (st, s')" "inv s"
  shows "inv s'"
proof -
  have "inv t" if "add_voltha_flow P (with_valid_onu req) (find_symmetric_flow req s) s = Some (res, t)" for res t
    using that assms(2) by (auto simp: add_voltha_flow_def split: if_splits option.splits
        dest: inv_add_symmetric inv_add_single inv_add_with_replication)
  then show ?thesis using assms by (auto simp: FlowAddWrapper_def Let_def split: if_splits sum.splits)
qed

lemma inv_remove_and_free: "inv s \<Longrightarrow> inv (remove_and_free P t fs s)"
proof (induction fs arbitrary: s)
  case (Cons f fs)
  obtain st u where u: "FlowRemove P f t s = (st, u)" by fastforce
  then have "inv u" using inv_FlowRemove Cons.prems by blast
  then show ?case using Cons.IH u by simp
qed simp

lemma inv_FlowRemoveWrapper: "inv s \<Longrightarrow> inv (snd (FlowRemoveWrapper P req s))"
  by (simp add: FlowRemoveWrapper_def Let_def inv_remove_and_free split: option.split)

end

interpretation tm_flows: kept_by_flows tm_inv
proof
  fix s :: olt and f g h
  show "tm_inv (s\<lparr>flow_id_bitset := f\<rparr>) = tm_inv s" "tm_inv (s\<lparr>voltha_flow_to_device_flow := g\<rparr>) = tm_inv s"
    "tm_inv (s\<lparr>symmetric_datapath_flow_id_map := h\<rparr>) = tm_inv s"
    by (simp_all add: tm_inv_def sched_inv_def qmp_inv_def)
qed (blast intro: FlowAdd_tm_inv FlowRemove_tm_inv)+

text \<open>Schedulers.\<close>

text \<open>Schedulers do not touch the profiles.\<close>

lemma qmp_inv_get_tm_sched_id: "get_tm_sched_id i n u d tp s = (k, s') \<Longrightarrow> qmp_inv s' = qmp_inv s"
  using get_tm_sched_id_frame [of i n u d tp s k s'] by auto

lemma qmp_inv_free_tm_sched_id [simp]: "qmp_inv (free_tm_sched_id i n u d tp s) = qmp_inv s"
  by (simp add: free_tm_sched_id_def qmp_inv_def tm_sched_release_def Let_def split: option.split)

lemma qmp_inv_same: "agent_part s' = agent_part s \<Longrightarrow> qmp_inv s' = qmp_inv s"
  by (metis qmp_inv_ap)

lemma qmp_inv_CreateSched: "CreateSched P d i n u ts s = (e, s') \<Longrightarrow> qmp_inv s' = qmp_inv s"
  by (auto simp: CreateSched_def CreateSched_downstream_def Let_def split: if_splits prod.splits
      dest!: qmp_inv_same [OF CreateSched_upstream_frame] qmp_inv_get_tm_sched_id bal_err_frame
      dest: qmp_inv_same)

lemma qmp_inv_create_scheds: "create_scheds P i n u tss s = (st, s') \<Longrightarrow> qmp_inv s' = qmp_inv s"
  by (induction P i n u tss s rule: create_scheds.induct)
    (auto simp: Let_def split: if_splits prod.splits dest: qmp_inv_CreateSched)

lemma qmp_inv_RemoveSched: "RemoveSched P i n u a d tp s = (e, s') \<Longrightarrow> qmp_inv s' = qmp_inv s"
  by (auto simp: RemoveSched_def Let_def split: if_splits prod.splits
      dest!: qmp_inv_get_tm_sched_id alloc_frames dest: qmp_inv_same)

lemma qmp_inv_remove_scheds: "remove_scheds P i n u tss s = (st, s') \<Longrightarrow> qmp_inv s' = qmp_inv s"
  by (induction P i n u tss s rule: remove_scheds.induct)
    (auto simp: Let_def split: if_splits prod.splits dest: qmp_inv_RemoveSched)

lemma tm_inv_schedulers:
  assumes "tm_inv s"
  shows "tm_inv (snd (CreateTrafficSchedulers P req s))" "tm_inv (snd (RemoveTrafficSchedulers P req s))"
  using assms sched_inv_create_scheds [OF _ prod.collapse [symmetric]] qmp_inv_create_scheds [OF prod.collapse [symmetric]]
    sched_inv_remove_scheds [OF _ prod.collapse [symmetric]] qmp_inv_remove_scheds [OF prod.collapse [symmetric]]
  by (simp_all add: tm_inv_def CreateTrafficSchedulers_def RemoveTrafficSchedulers_def)

section \<open>Every reachable state\<close>

lemmas tm_inv_requests [frame_simps] = tm_flows.inv_FlowRemoveWrapper tm_inv_schedulers

lemma tm_inv_ProvisioningService:
  assumes "ProvisioningService P q s = Some r" "tm_inv s"
  shows "tm_inv (snd r)"
proof (cases q)
  case (Create_traffic_queues qs)
  then show ?thesis using tm_inv_CreateTrafficQueues [of s P qs "fst r" "snd r"] assms by simp
next
  case (Remove_traffic_queues qs)
  then show ?thesis using tm_inv_RemoveTrafficQueues [of s P qs "fst r" "snd r"] assms by simp
qed (use assms in \<open>auto simp: frame_simps\<close>)

lemma tm_inv_OpenoltService:
  assumes "OpenoltService P req s = Some r" "tm_inv s"
  shows "tm_inv (snd r)"
proof (cases req)
  case (Flow_add f)
  then show ?thesis using tm_flows.inv_FlowAddWrapper [of P f s "fst r" "snd r"] assms by simp
next
  case (Provisioning q)
  then show ?thesis using tm_inv_ProvisioningService [of P q s r] assms by simp
qed (use assms in \<open>auto simp: frame_simps\<close>)

interpretation tm_tables: step_invariant "\<lambda>s. s = init_olt" "system_step P" tm_inv for P
proof
  fix s s' :: olt
  show "s = init_olt \<Longrightarrow> tm_inv s" by (simp add: tm_inv_def)
  show "tm_inv s'" if "tm_inv s" "system_step P s s'"
    using that(2,1)
  proof (induction rule: guarded_step.induct)
    case (requested req s st s')
    then show ?case using tm_inv_OpenoltService [of P req s "(st, s')"] by simp
  qed (auto simp: tm_quiet.view_Enable tm_quiet.view_Probe tm_quiet.view_starts tm_quiet.view_callback
      tm_quiet.view_stream_step tm_quiet.view_agent_step)
qed

lemma om_sorted_distinct: "om_sorted (<) (m :: ('k::linorder, 'v) omap) \<Longrightarrow> distinct (map fst m)"
  by (simp add: om_sorted_def strict_sorted_iff)

text \<open>
  C1: in every state the agent can reach by serving its requests one at a time, whatever VOLTHA asks for and
  BAL answers and sends in whatever order, the ids of schedulers are below their limit, belong to one scheduler each and are exactly
  those marked as used; every mapping profile a scheduler refers to exists and has an id below its limit;
  and no scheduler and no profile id has two entries.
\<close>

theorem reachable_tables:
  assumes "(system_step P)\<^sup>*\<^sup>* init_olt s"
  shows "(\<forall>k i. sched_map s k = Some i \<longrightarrow>
       0 \<le> i \<and> i < int MAX_TM_SCHED_ID \<and> (\<forall>k'. sched_map s k' = Some i \<longrightarrow> k' = k)) \<and>
    tm_sched_bitset s = nat ` ran (sched_map s) \<and>
    (\<forall>e\<in>set (sched_qmp_id_map s).
       0 \<le> snd e \<and> snd e < int MAX_TM_QMP_ID \<and> om_find (<) (snd e) (qmp_id_to_qmp_map s) \<noteq> None) \<and>
    distinct (map fst (sched_qmp_id_map s)) \<and> distinct (map fst (qmp_id_to_qmp_map s))"
proof -
  have inv: "sched_inv s" "qmp_inv s" using tm_tables.reachable [OF refl assms] by (simp_all add: tm_inv_def)
  have sorted: "om_sorted (<) (qmp_id_to_qmp_map s)" "om_sorted (<) (sched_qmp_id_map s)"
    using inv(2) by (simp_all add: qmp_inv_def)
  have q: "0 \<le> snd e \<and> snd e < int MAX_TM_QMP_ID \<and> om_find (<) (snd e) (qmp_id_to_qmp_map s) \<noteq> None"
    if "e \<in> set (sched_qmp_id_map s)" for e
  proof -
    have "snd e \<in> fst ` set (qmp_id_to_qmp_map s)" using inv(2) that unfolding qmp_inv_def by blast
    moreover have "fst ` set (qmp_id_to_qmp_map s) \<subseteq> {0..<int MAX_TM_QMP_ID}"
      using inv(2) unfolding qmp_inv_def by blast
    ultimately have "snd e \<in> fst ` set (qmp_id_to_qmp_map s)" "snd e \<in> {0..<int MAX_TM_QMP_ID}" by blast+
    then show ?thesis using om_find_None_iff [OF sorted(1), of "snd e"] by simp
  qed
  have k: "0 \<le> i \<and> i < int MAX_TM_SCHED_ID \<and> (\<forall>k'. sched_map s k' = Some i \<longrightarrow> k' = k)"
    if "sched_map s k = Some i" for k i
    using sched_inv_range [OF inv(1) that] sched_inv_inj [OF inv(1) that] by blast
  have "tm_sched_bitset s = nat ` ran (sched_map s)" using inv(1) by (simp add: sched_inv_def)
  moreover have "\<forall>k i. sched_map s k = Some i \<longrightarrow>
       0 \<le> i \<and> i < int MAX_TM_SCHED_ID \<and> (\<forall>k'. sched_map s k' = Some i \<longrightarrow> k' = k)"
    by (intro allI impI k)
  moreover have "\<forall>e\<in>set (sched_qmp_id_map s).
       0 \<le> snd e \<and> snd e < int MAX_TM_QMP_ID \<and> om_find (<) (snd e) (qmp_id_to_qmp_map s) \<noteq> None"
    by (intro ballI q)
  ultimately show ?thesis using om_sorted_distinct [OF sorted(1)] om_sorted_distinct [OF sorted(2)] by (intro conjI)
qed

theorem reachable_tables_witness:
  "\<exists>s. (system_step (const_platform ok_rsp))\<^sup>*\<^sup>* init_olt s \<and> is_activated s \<and>
     tm_sched_bitset s = nat ` ran (sched_map s)"
proof -
  have "system_step (const_platform ok_rsp) init_olt (push_ind (Olt_ind ''up'') (activate
      (init_olt\<lparr>bal_trace := [Ind_subscribe ''onu.omci_packet'']\<rparr>)))"
    by (rule indicated [of _ Device_connection_complete])
      (simp add: callback_def OltOperIndication_def bal_err_def bal_call_def)
  from r_into_rtranclp [of "system_step (const_platform ok_rsp)", OF this]
  show ?thesis using reachable_tables [OF r_into_rtranclp, OF \<open>system_step _ init_olt _\<close>]
    by (intro exI conjI) (auto simp: is_activated_def activate_def push_ind_def)
qed

end
