(* ===== verification/Flow_Service.thy ===== *)
theory Flow_Service
  imports System
begin

text \<open>
  The flows of VOLTHA in the reachable states of the agent: the cache of installed flows is well formed,
  and it refines a set of flow ids that VOLTHA's requests and their answers determine.
\<close>

interpretation flow_books: flow_view flow_book
proof
  fix s
  show "flow_book (agent_part s) = flow_book s" by (simp add: flow_book_def agent_part_def)
  show "flow_book (ind_rest s) = flow_book s" by (simp add: flow_book_def ind_rest_def)
  show "flow_book (device_rest s) = flow_book s" by (simp add: flow_book_def device_rest_def)
  show "flow_book (table_rest s) = flow_book s" by (simp add: flow_book_def table_rest_def)
qed

section \<open>A flow whose symmetric flow is installed\<close>

text \<open>The device flow parameters the flow takes over.\<close>

definition symmetric_params :: "flow \<Rightarrow> (nat \<Rightarrow> device_flow_params) \<Rightarrow> device_flow_params list" where
  "symmetric_params r params = map params [0..<(if replicate_flow r then length (pbit_to_gemport r) else 1)]"

lemma FlowAdd_accepted_type: "accepted (fst (FlowAdd P f aes r s)) \<Longrightarrow> flow_key_type (flow_type r) \<noteq> None"
  by (auto simp: FlowAdd_def accepted_def split: option.splits)

lemma add_replicated_accepted_type:
  assumes "add_replicated P r accepted st ds fs s = (Inr st', s')"
  shows "flow_key_type (flow_type r) \<noteq> None \<or> ds = []"
proof (cases ds)
  case (Cons d ds')
  then have "accepted (fst (add_device_flow P r d s))" using assms by (auto split: prod.splits if_splits)
  then show ?thesis using FlowAdd_accepted_type by (fastforce simp: add_device_flow_def)
qed simp

text \<open>A well-formed entry of the cache.\<close>

definition wf_flow :: "uint64 \<Rightarrow> device_flow \<Rightarrow> bool" where
  "wf_flow v d \<longleftrightarrow> df_voltha_flow_id d = v \<and> length (device_flow_ids d) \<le> NUMBER_OF_PBITS \<and>
     (flow_key_type (df_flow_type d) \<noteq> None \<or> device_flow_ids d = [])"

definition took_over :: "flow \<Rightarrow> (nat \<Rightarrow> device_flow_params) \<Rightarrow> olt \<Rightarrow> status + status \<Rightarrow> olt \<Rightarrow> bool" where
  "took_over r params s res s' \<longleftrightarrow>
     symmetric_datapath_flow_id_map s' = symmetric_datapath_flow_id_map s \<and>
     (case res of
        Inl st \<Rightarrow> code st \<noteq> OK \<and> voltha_flow_to_device_flow s' = voltha_flow_to_device_flow s \<and>
          flow_id_bitset s' = flow_id_bitset s -
            (if replicate_flow r then {} else {unat (dfp_flow_id (params 0))})
      | Inr st \<Rightarrow> accepted st \<and> flow_id_bitset s' = flow_id_bitset s \<and>
          (\<exists>d. voltha_flow_to_device_flow s' = (voltha_flow_to_device_flow s)(flow_id r \<mapsto> d) \<and>
             wf_flow (flow_id r) d \<and> df_flow_type d = flow_type r \<and>
             device_flow_ids d = map dfp_flow_id (symmetric_params r params)))"

lemma took_overI:
  assumes "flow_book u = flow_book s" "accepted st" "wf_flow (flow_id r) d" "df_flow_type d = flow_type r"
    and "device_flow_ids d = map dfp_flow_id (symmetric_params r params)"
  shows "took_over r params s (Inr st) (update_voltha_flow_to_cache (flow_id r) d u)"
  using assms flow_book_eqD [OF assms(1)] by (auto simp: took_over_def update_voltha_flow_to_cache_def)

lemma add_symmetric_single:
  assumes "add_symmetric P r symm params s = (res, s')" "\<not> replicate_flow r"
  shows "took_over r params s res s'"
proof -
  obtain st u where u: "add_device_flow P r (params 0) s = (st, u)" by fastforce
  note book = add_device_flow_book [OF u]
  show ?thesis
  proof (cases "accepted st")
    case True
    then have "accepted (fst (add_device_flow P r (params 0) s))" by (simp add: u)
    from FlowAdd_accepted_type [OF this [unfolded add_device_flow_def]]
    have "flow_key_type (flow_type r) \<noteq> None" by simp
    then have "wf_flow (flow_id r) (single_flow P symm r (params 0) u)"
      by (simp add: wf_flow_def NUMBER_OF_PBITS_def)
    moreover have "res = Inr st"
        "s' = update_voltha_flow_to_cache (flow_id r) (single_flow P symm r (params 0) u) u"
      using assms u True by (simp_all add: add_symmetric_def)
    ultimately show ?thesis using book True assms(2)
      by (auto simp: symmetric_params_def intro!: took_overI)
  next
    case False
    then have "res = Inl st" "s' = free_flow_id (dfp_flow_id (params 0)) u" "code st \<noteq> OK"
      using assms u by (simp_all add: add_symmetric_def accepted_def)
    then show ?thesis using flow_book_eqD [OF book] assms(2) by (simp add: took_over_def free_flow_id_def)
  qed
qed

lemma add_symmetric_replicated:
  assumes "add_symmetric P r symm params s = (res, s')" "replicate_flow r"
  shows "took_over r params s res s'"
proof (cases "length (pbit_to_gemport r) > NUMBER_OF_PBITS")
  case True
  then show ?thesis using assms by (auto simp: add_symmetric_def took_over_def)
next
  case False
  let ?ds = "map params [0..<length (pbit_to_gemport r)]"
  obtain q u where u: "add_replicated P r accepted Status_OK ?ds [] s = (q, u)" by fastforce
  note book = add_replicated_book [OF u] and res = add_replicated_result [OF u]
  show ?thesis
  proof (cases q)
    case (Inl st)
    then have "res = Inl st" "s' = u" "code st \<noteq> OK" using assms False u res
      by (auto simp: add_symmetric_def accepted_def)
    then show ?thesis using flow_book_eqD [OF book] assms(2) by (simp add: took_over_def)
  next
    case (Inr st)
    have "accepted st" using res Inr by (auto simp: accepted_def)
    moreover have "wf_flow (flow_id r) (replicated_flow P symm r ?ds u)"
      using False add_replicated_accepted_type [OF u [unfolded Inr]] by (auto simp: wf_flow_def)
    moreover have "res = Inr st"
        "s' = update_voltha_flow_to_cache (flow_id r) (replicated_flow P symm r ?ds u) u"
      using assms False u Inr by (simp_all add: add_symmetric_def)
    ultimately show ?thesis using book False assms(2)
      by (auto simp: symmetric_params_def intro!: took_overI)
  qed
qed

lemmas add_symmetric_took_over = add_symmetric_single add_symmetric_replicated

section \<open>What a request for a flow does to the books\<close>

lemma FlowAddWrapper_cases:
  assumes "FlowAddWrapper P r s = Some (st, s')"
  obtains (installed) "voltha_flow_to_device_flow s (flow_id r) \<noteq> None" "s' = s" "code st = ALREADY_EXISTS"
  | (refused) "voltha_flow_to_device_flow s (flow_id r) = None" "code st \<noteq> OK"
      "voltha_flow_to_device_flow s' = voltha_flow_to_device_flow s"
      "symmetric_datapath_flow_id_map s' = symmetric_datapath_flow_id_map s"
  | (added) d where "voltha_flow_to_device_flow s (flow_id r) = None"
      "voltha_flow_to_device_flow s' = (voltha_flow_to_device_flow s)(flow_id r \<mapsto> d)" "wf_flow (flow_id r) d"
      "symmetric_datapath_flow_id_map s' = link_flow r (symmetric_datapath_flow_id_map s)"
      "code st = OK \<or> code st = ALREADY_EXISTS \<and> has_symmetric r s"
proof (cases "voltha_flow_to_device_flow s (flow_id r) = None")
  case False
  then show thesis using installed assms by (auto simp: FlowAddWrapper_def is_voltha_flow_installed_def)
next
  case new: True
  show thesis
  proof (cases "has_symmetric r s")
    case False
    from False new assms show thesis
    proof (cases rule: FlowAddWrapper_fresh)
      case failed
      then show thesis using refused new by (simp add: added_fresh_def)
    next
      case (added u)
      then obtain d where "voltha_flow_to_device_flow s' = (voltha_flow_to_device_flow s)(flow_id r \<mapsto> d)"
        "wf_flow (flow_id r) d" "code st = OK"
        "symmetric_datapath_flow_id_map s' = link_flow r (symmetric_datapath_flow_id_map s)"
        by (auto simp: added_fresh_def wf_flow_def)
      then show thesis using that(3) new by blast
    qed
  next
    case True
    let ?v = "find_symmetric_flow r s" and ?r = "with_valid_onu r"
    obtain params where p: "get_device_flow_params ?v s = Some params"
      using True by (auto simp: has_symmetric_def is_voltha_flow_installed_def get_device_flow_params_def)
    obtain res u where u: "add_symmetric P ?r ?v params s = (res, u)" by fastforce
    have took: "took_over ?r params s res u" using add_symmetric_took_over [OF u] by blast
    have run: "(st, s') = (case res of Inl st \<Rightarrow> (st, u) | Inr st \<Rightarrow>
        (st, u\<lparr>symmetric_datapath_flow_id_map := link_flow r (symmetric_datapath_flow_id_map u)\<rparr>))"
      using assms new True p u
      by (cases res) (auto simp: FlowAddWrapper_def add_voltha_flow_def has_symmetric_def Let_def
          is_voltha_flow_installed_def link_flow_def)
    show thesis
    proof (cases res)
      case (Inl st')
      then show thesis using refused new took run by (simp add: took_over_def)
    next
      case (Inr st')
      then obtain d where "voltha_flow_to_device_flow s' = (voltha_flow_to_device_flow s)(flow_id r \<mapsto> d)"
        "wf_flow (flow_id r) d" "accepted st"
        "symmetric_datapath_flow_id_map s' = link_flow r (symmetric_datapath_flow_id_map s)"
        using took run by (auto simp: took_over_def)
      then show thesis using added new True by (auto simp: accepted_def)
    qed
  qed
qed

lemma remove_and_free_maps:
  "voltha_flow_to_device_flow (remove_and_free P t fs s) = voltha_flow_to_device_flow s"
  "symmetric_datapath_flow_id_map (remove_and_free P t fs s) = symmetric_datapath_flow_id_map s"
proof -
  have "voltha_flow_to_device_flow (remove_and_free P t fs s) = voltha_flow_to_device_flow s \<and>
    symmetric_datapath_flow_id_map (remove_and_free P t fs s) = symmetric_datapath_flow_id_map s"
  proof (induction fs arbitrary: s)
    case (Cons f fs)
    obtain st u where u: "FlowRemove P f t s = (st, u)" by fastforce
    then show ?case using Cons.IH flow_book_eqD [OF FlowRemove_book [OF u]] by (simp add: free_flow_id_def)
  qed simp
  then show "voltha_flow_to_device_flow (remove_and_free P t fs s) = voltha_flow_to_device_flow s"
    "symmetric_datapath_flow_id_map (remove_and_free P t fs s) = symmetric_datapath_flow_id_map s" by blast+
qed

lemma FlowRemoveWrapper_maps:
  "voltha_flow_to_device_flow (snd (FlowRemoveWrapper P r s)) = (voltha_flow_to_device_flow s)(flow_id r := None)"
  "symmetric_datapath_flow_id_map (snd (FlowRemoveWrapper P r s)) =
     (case voltha_flow_to_device_flow s (flow_id r) of None \<Rightarrow> symmetric_datapath_flow_id_map s
      | Some d \<Rightarrow> (symmetric_datapath_flow_id_map s)(datapath_key r (df_flow_type d) := None))"
  "code (fst (FlowRemoveWrapper P r s)) = (if voltha_flow_to_device_flow s (flow_id r) = None then NOT_FOUND else OK)"
  by (auto simp: FlowRemoveWrapper_def get_device_flow_def remove_voltha_flow_from_cache_def Let_def
      remove_and_free_maps fun_upd_idem split: option.split)

section \<open>The cache in the reachable states\<close>

fun wf_key :: "symmetric_key \<Rightarrow> bool" where
  "wf_key (i, n, u, tp, t) \<longleftrightarrow> 0 \<le> i \<and> 1 \<le> n \<and> 0 \<le> u \<and> 0 < tp \<and> t \<noteq> multicast"

definition wf_cache :: "olt \<Rightarrow> bool" where
  "wf_cache s \<longleftrightarrow>
     (\<forall>v d. voltha_flow_to_device_flow s v = Some d \<longrightarrow> wf_flow v d) \<and>
     (\<forall>k\<in>dom (symmetric_datapath_flow_id_map s). wf_key k)"

lemma wf_key_link: "\<forall>k\<in>dom m. wf_key k \<Longrightarrow> \<forall>k\<in>dom (link_flow r m). wf_key k"
  by (auto simp: link_flow_def is_datapath_flow_def datapath_key_def with_valid_onu_def)

interpretation flow_cache: step_invariant "\<lambda>s. s = init_olt" "system_step P" wf_cache for P
proof
  fix s s' :: olt
  show "s = init_olt \<Longrightarrow> wf_cache s" by (simp add: wf_cache_def)
  assume inv: "wf_cache s" and step: "system_step P s s'"
  from step show "wf_cache s'"
  proof (cases rule: flow_books.view_step)
    case other
    then show ?thesis using inv flow_book_eqD [OF other] by (simp add: wf_cache_def)
  next
    case (flow_added r st)
    from flow_added(2) show ?thesis
    proof (cases rule: FlowAddWrapper_cases)
      case (added d)
      then show ?thesis using inv wf_key_link [of "symmetric_datapath_flow_id_map s" r]
        by (simp add: wf_cache_def)
    qed (use inv in \<open>auto simp: wf_cache_def\<close>)
  next
    case (flow_removed r)
    then show ?thesis using inv FlowRemoveWrapper_maps [of P r s]
      by (auto simp: wf_cache_def split: option.splits if_splits)
  qed
qed

section \<open>The set of installed flows\<close>

definition installed :: "olt \<Rightarrow> uint64 set" where
  "installed s = dom (voltha_flow_to_device_flow s)"

text \<open>What VOLTHA sees of a request for a flow: the flow and the code of the answer.\<close>

datatype flow_event = Flow_added uint64 status_code | Flow_removed uint64 status_code | Other_event

fun event_of :: "request \<Rightarrow> status \<Rightarrow> flow_event" where
  "event_of (Flow_add r) st = Flow_added (flow_id r) (code st)"
| "event_of (Flow_remove r) st = Flow_removed (flow_id r) (code st)"
| "event_of _ st = Other_event"

text \<open>
  The service as a set of flow ids.  The answer \<open>ALREADY_EXISTS\<close> may stand for a flow that was installed,
  for one that is new, and for one that is not installed.
\<close>

inductive flow_spec :: "flow_event \<Rightarrow> uint64 set \<Rightarrow> uint64 set \<Rightarrow> bool" where
  spec_added: "v \<notin> S \<Longrightarrow> c = OK \<or> c = ALREADY_EXISTS \<Longrightarrow> flow_spec (Flow_added v c) S (insert v S)"
| spec_present: "v \<in> S \<Longrightarrow> flow_spec (Flow_added v ALREADY_EXISTS) S S"
| spec_refused: "v \<notin> S \<Longrightarrow> c \<noteq> OK \<Longrightarrow> flow_spec (Flow_added v c) S S"
| spec_removed: "v \<in> S \<Longrightarrow> flow_spec (Flow_removed v OK) S (S - {v})"
| spec_absent: "v \<notin> S \<Longrightarrow> flow_spec (Flow_removed v NOT_FOUND) S S"
| spec_other: "flow_spec Other_event S S"

inductive flow_run :: "uint64 set \<Rightarrow> flow_event list \<Rightarrow> uint64 set \<Rightarrow> bool" for S where
  run_start: "flow_run S [] S"
| run_event: "flow_run S es T \<Longrightarrow> flow_spec e T U \<Longrightarrow> flow_run S (es @ [e]) U"

text \<open>
  A run of the agent with the log of the requests it has answered; between them everything else may
  happen.
\<close>

inductive served :: "platform \<Rightarrow> olt \<Rightarrow> (request \<times> status) list \<Rightarrow> olt \<Rightarrow> bool" for P s where
  nothing: "served P s [] s"
| answer: "served P s log t \<Longrightarrow> OpenoltService P req t = Some (st, u) \<Longrightarrow> served P s (log @ [(req, st)]) u"
| between: "served P s log t \<Longrightarrow> guarded_step (\<lambda>req t. False) P t u \<Longrightarrow> served P s log u"

lemma installed_book: "flow_book s' = flow_book s \<Longrightarrow> installed s' = installed s"
  by (auto simp: installed_def dest: flow_book_eqD(2))

lemma unguarded_step_installed:
  assumes "guarded_step (\<lambda>req t. False) P s s'"
  shows "installed s' = installed s"
  using assms by (cases rule: flow_books.view_step) (rule installed_book, assumption, simp_all)

lemma OpenoltService_flow_spec:
  assumes "OpenoltService P req s = Some (st, s')"
  shows "flow_spec (event_of req st) (installed s) (installed s')"
proof -
  have other: "installed s' = installed s" if "\<And>f. req \<noteq> Flow_add f" "\<And>f. req \<noteq> Flow_remove f"
    using flow_books.view_OpenoltService [OF assms that] by (intro installed_book) simp
  show ?thesis
  proof (cases req)
    case (Flow_add r)
    then have "FlowAddWrapper P r s = Some (st, s')" using assms by simp
    then show ?thesis
    proof (cases rule: FlowAddWrapper_cases)
      case installed
      then show ?thesis using Flow_add spec_present [of "flow_id r" "installed s"] by (auto simp: installed_def)
    next
      case refused
      then show ?thesis using Flow_add spec_refused [of "flow_id r" "installed s" "code st"] by (auto simp: installed_def)
    next
      case (added d)
      then have "installed s' = insert (flow_id r) (installed s)" "flow_id r \<notin> installed s"
        by (auto simp: installed_def)
      then show ?thesis using Flow_add spec_added added(5) by auto
    qed
  next
    case (Flow_remove r)
    then have "s' = snd (FlowRemoveWrapper P r s)" "st = fst (FlowRemoveWrapper P r s)" using assms by auto
    then have "installed s' = installed s - {flow_id r}"
        "code st = (if flow_id r \<in> installed s then OK else NOT_FOUND)"
      using FlowRemoveWrapper_maps [of P r s] by (auto simp: installed_def)
    then show ?thesis using Flow_remove spec_removed spec_absent by (cases "flow_id r \<in> installed s") auto
  qed (insert other, simp_all add: spec_other)
qed

lemma served_flow_run:
  "served P s log t \<Longrightarrow> flow_run (installed s) (map (case_prod event_of) log) (installed t)"
proof (induction rule: served.induct)
  case (answer log t req st u)
  then show ?case using OpenoltService_flow_spec run_event by fastforce
qed (use unguarded_step_installed run_start in auto)

text \<open>The flows VOLTHA expects to be installed after a log.\<close>

definition expect :: "flow_event \<Rightarrow> uint64 set \<Rightarrow> uint64 set" where
  "expect e S = (case e of Flow_added v c \<Rightarrow> if c = OK then insert v S else S
                 | Flow_removed v c \<Rightarrow> S - {v} | Other_event \<Rightarrow> S)"

lemma flow_run_expect:
  "flow_run S es T \<Longrightarrow> \<forall>v. Flow_added v ALREADY_EXISTS \<notin> set es \<Longrightarrow> T = fold expect es S"
proof (induction rule: flow_run.induct)
  case (run_event es T e U)
  then show ?case by (auto simp: expect_def elim!: flow_spec.cases)
qed simp

section \<open>Properties\<close>

text \<open>
  C3: in every state the agent can reach, whatever VOLTHA requests and BAL does, an entry of the cache
  belongs to the flow it is stored under, has at most eight device flows, so that reading their ids stays
  inside the array that holds them, and has a type that removing it accepts; an entry for symmetric
  flows belongs to a data flow, with an ONU id of at least 1.
\<close>

theorem reachable_flow_cache:
  assumes "(system_step P)\<^sup>*\<^sup>* init_olt s"
  shows "(\<forall>v d. voltha_flow_to_device_flow s v = Some d \<longrightarrow>
       df_voltha_flow_id d = v \<and> length (device_flow_ids d) \<le> NUMBER_OF_PBITS \<and>
       (flow_key_type (df_flow_type d) \<noteq> None \<or> device_flow_ids d = [])) \<and>
    (\<forall>i n u tp t. symmetric_datapath_flow_id_map s (i, n, u, tp, t) \<noteq> None \<longrightarrow>
       0 \<le> i \<and> 1 \<le> n \<and> 0 \<le> u \<and> 0 < tp \<and> t \<noteq> multicast)"
proof -
  have inv: "wf_cache s" by (rule flow_cache.reachable [OF refl assms])
  have "wf_key k" if "symmetric_datapath_flow_id_map s k \<noteq> None" for k
    using inv that unfolding wf_cache_def by blast
  then show ?thesis using inv unfolding wf_cache_def wf_flow_def by fastforce
qed

lemma sample_request:
  "\<exists>s. OpenoltService (const_platform ok_rsp) (Flow_add zero_onu_flow) init_olt = Some (Status_OK, s)"
  using sample_installed by simp

theorem reachable_flow_cache_witness:
  "\<exists>s d. (system_step (const_platform ok_rsp))\<^sup>*\<^sup>* init_olt s \<and> voltha_flow_to_device_flow s 9 = Some d \<and>
     df_voltha_flow_id d = 9 \<and> length (device_flow_ids d) \<le> NUMBER_OF_PBITS"
proof -
  obtain s where s: "OpenoltService (const_platform ok_rsp) (Flow_add zero_onu_flow) init_olt = Some (Status_OK, s)"
    using sample_request by blast
  have reach: "(system_step (const_platform ok_rsp))\<^sup>*\<^sup>* init_olt s"
    by (intro r_into_rtranclp requested [OF _ s]) simp
  have "installed s = {9}"
    using OpenoltService_flow_spec [OF s]
    by (auto simp: installed_def Status_OK_def zero_onu_flow_def sample_flow_def elim: flow_spec.cases)
  then obtain d where "voltha_flow_to_device_flow s 9 = Some d" by (auto simp: installed_def)
  then show ?thesis using reachable_flow_cache [OF reach] reach by blast
qed

text \<open>
  C4: the agent refines a set of flow ids.  Whatever else happens between the requests, each answered
  request for a flow changes the set of installed flows as its answer allows, and no other request changes it; so
  as long as no answer is \<open>ALREADY_EXISTS\<close>, which is given for flows that are and that are not installed, VOLTHA can
  compute the set from the answers.
\<close>

theorem flow_service_refines:
  assumes "served P init_olt log s" "es = map (case_prod event_of) log"
  shows "flow_run {} es (installed s) \<and>
    ((\<forall>v. Flow_added v ALREADY_EXISTS \<notin> set es) \<longrightarrow> installed s = fold expect es {})"
proof -
  have "installed init_olt = {}" by (simp add: installed_def)
  then have "flow_run {} es (installed s)" using served_flow_run [OF assms(1)] assms(2) by simp
  then show ?thesis using flow_run_expect by blast
qed

theorem flow_service_refines_witness:
  "\<exists>s. served (const_platform ok_rsp) init_olt [(Flow_add zero_onu_flow, Status_OK)] s \<and> installed s = {9}"
proof -
  obtain s where s: "OpenoltService (const_platform ok_rsp) (Flow_add zero_onu_flow) init_olt = Some (Status_OK, s)"
    using sample_request by blast
  then have run: "served (const_platform ok_rsp) init_olt [(Flow_add zero_onu_flow, Status_OK)] s"
    using served.answer [OF served.nothing s] by simp
  have "map (case_prod event_of) [(Flow_add zero_onu_flow, Status_OK)] = [Flow_added 9 OK]"
    by (simp add: Status_OK_def zero_onu_flow_def sample_flow_def)
  then have "installed s = {9}"
    using flow_service_refines [OF run refl] by (simp add: expect_def)
  then show ?thesis using run by blast
qed

end
