(* ===== verification/Acl_Service.thy ===== *)
theory Acl_Service
  imports Flow_Service
begin

text \<open>
  The access control lists in the reachable states of the agent: as long as VOLTHA adds no flow while one of two
  symmetric flows has been removed without the other, the reference counts are right and every trap
  flow keeps its id; otherwise the removal of a data flow can take the list of a trap flow away.
\<close>

section \<open>Adding and removing one device flow\<close>

definition acl_state :: "olt \<Rightarrow> (acl_classifier_key, uint16) omap \<times> nat set \<times> (uint16 \<rightharpoonup> uint16) \<times>
    (uint16 \<times> uint8 \<times> string \<rightharpoonup> uint16) \<times> (uint64 \<times> string \<rightharpoonup> int \<times> int)" where
  "acl_state s = (acl_classifier_to_acl_id_map s, acl_id_bitset s, acl_ref_cnt s,
     intf_acl_registration_ref_cnt s, flow_to_acl_map s)"

lemma acl_stateD:
  assumes "acl_state s' = acl_state s"
  shows "flow_to_acl_map s' = flow_to_acl_map s" "acl_inv s' = acl_inv s"
  using assms by (simp_all add: acl_state_def acl_inv_def)

lemma acl_state_updates [simp]:
  "acl_state (s\<lparr>bal_trace := t\<rparr>) = acl_state s" "acl_state (s\<lparr>flow_map := k\<rparr>) = acl_state s"
  "acl_state (s\<lparr>flow_id_counters := l\<rparr>) = acl_state s" "acl_state (s\<lparr>flowid_to_port := m\<rparr>) = acl_state s"
  "acl_state (s\<lparr>flowid_to_gemport := n\<rparr>) = acl_state s" "acl_state (s\<lparr>port_to_flows := q\<rparr>) = acl_state s"
  "acl_state (s\<lparr>qos_type_map := r\<rparr>) = acl_state s" "acl_state (s\<lparr>tm_sched_bitset := u\<rparr>) = acl_state s"
  "acl_state (s\<lparr>sched_map := v\<rparr>) = acl_state s" "acl_state (s\<lparr>flow_id_bitset := w\<rparr>) = acl_state s"
  "acl_state (s\<lparr>voltha_flow_to_device_flow := x\<rparr>) = acl_state s"
  "acl_state (s\<lparr>symmetric_datapath_flow_id_map := y\<rparr>) = acl_state s"
  by (simp_all add: acl_state_def)

lemma acl_state_agent_part: "agent_part s' = agent_part s \<Longrightarrow> acl_state s' = acl_state s"
proof -
  have "acl_state (agent_part t) = acl_state t" for t by (simp add: acl_state_def agent_part_def)
  then show "agent_part s' = agent_part s \<Longrightarrow> acl_state s' = acl_state s" by metis
qed

lemma acl_state_bal [simp]: "acl_state (snd (bal_err P q s)) = acl_state s"
  by (simp add: bal_err_def bal_call_def)

lemma acl_state_record_port [simp]: "acl_state (record_flow_port P t f r s) = acl_state s"
  by (simp add: record_flow_port_def)

lemma acl_state_forget_port [simp]: "acl_state (forget_flow_port t f s) = acl_state s"
  by (simp add: forget_flow_port_def Let_def)

lemma acl_state_get_tm_sched_id: "get_tm_sched_id p n u d t s = (i, s') \<Longrightarrow> acl_state s' = acl_state s"
  by (auto simp: get_tm_sched_id_def tm_sched_alloc_def Let_def split: option.splits if_splits)

lemma acl_state_message: "flow_message P t r s = (m, s') \<Longrightarrow> acl_state s' = acl_state s"
  by (auto simp: flow_message_def flow_qos_def get_qos_type_def Let_def
      split: option.splits prod.splits if_splits dest!: acl_state_get_tm_sched_id)

lemma acl_state_commit: "commit_flow P t f r aes cfg s = (st, s') \<Longrightarrow> acl_state s' = acl_state s"
  unfolding commit_flow_def
  by (auto simp: Let_def bal_err_def bal_call_def acl_state_agent_part [OF agent_part_encryption] split: if_splits)

lemma acl_state_FlowAdd:
  "FlowAdd P f aes r s = (st, s') \<Longrightarrow> \<not> trap_to_host (a_cmd (f_action r)) \<Longrightarrow> acl_state s' = acl_state s"
  by (auto simp: FlowAdd_def Let_def split: option.splits prod.splits if_splits
      dest!: acl_state_message acl_state_commit acl_state_agent_part [OF agent_part_find_duplicate])

text \<open>The key of the list of a device flow.\<close>

abbreviation acl_key :: "string \<Rightarrow> uint16 \<Rightarrow> uint64 \<times> string" where
  "acl_key t f \<equiv> (ucast f, t)"

lemma unat_acl_key [simp]: "unat (ucast (f :: uint16) :: uint64) = unat f"
proof -
  have "unat f < 2 ^ 64" using unat16_le [of f] by simp
  then show ?thesis by (simp add: unsigned_ucast_eq take_bit_nat_eq_self)
qed

lemma unat16_eq [simp]: "unat (f :: uint16) = unat g \<longleftrightarrow> f = g"
  by (auto intro: unsigned_word_eqI)

lemma ucast_acl_key [simp]: "(ucast (f :: uint16) :: uint64) = ucast g \<longleftrightarrow> f = g"
proof -
  have "f = g" if "(ucast f :: uint64) = ucast g"
    using arg_cong [OF that, of unat] by simp
  then show ?thesis by auto
qed

abbreviation acl_flows :: "olt \<Rightarrow> (uint64 \<times> string) set" where
  "acl_flows s \<equiv> dom (flow_to_acl_map s)"

lemma acl_flows_install:
  assumes "handle_acl_rule_install P fl gem d ai ni c s = (st, s')" "flow_to_acl_map s (fl, d) = None" "acl_inv s"
  shows "acl_flows s' = (if code st = OK then insert (fl, d) (acl_flows s) else acl_flows s)"
proof (cases "get_trap_to_host_packet_type c = unsupported_trap_to_host_pkt_type")
  case True
  then show ?thesis using assms by (auto simp: handle_acl_rule_install_def Status_of_def)
next
  case False
  let ?key = "formulate_acl_classifier_key c s"
  obtain q t where q: "acl_for_classifier P ?key s = (q, t)" by fastforce
  show ?thesis
  proof (cases q)
    case (Inl resp)
    have "\<not> ok resp" using q Inl
      by (auto simp: acl_for_classifier_def Let_def split: option.splits prod.splits if_splits)
    moreover have "acl_flows t = acl_flows s" using acl_for_classifier_fail [of P ?key s resp t] q Inl by auto
    moreover have "st = resp" "s' = t" using assms(1,2) False q Inl
      by (simp_all add: handle_acl_rule_install_def Let_def)
    ultimately show ?thesis by (simp add: ok_def)
  next
    case (Inr acl)
    note t = acl_for_classifier_ok(4) [OF assms(3) q [unfolded Inr]]
    let ?t = "register_acl_interface P acl (trap_intf_id d ai ni) d t"
    have reg: "flow_to_acl_map ?t = flow_to_acl_map t"
      using register_acl_interface_ok [OF refl, of P acl "trap_intf_id d ai ni" d t] by auto
    have rec: "flow_to_acl_map (record_trap_vlan a b c' e u) = flow_to_acl_map u" for a b c' e u
      by (simp add: record_trap_vlan_def Let_def)
    have "flow_to_acl_map s' = (flow_to_acl_map s)((fl, d) \<mapsto> (sint acl, sint (trap_intf_id d ai ni)))"
      "st = Status_OK"
      using assms(1,2) False q Inr t reg by (auto simp: handle_acl_rule_install_def Let_def rec)
    then show ?thesis by (simp add: Status_OK_def)
  qed
qed

lemma FlowAdd_acl:
  assumes run: "FlowAdd P f aes r s = (st, s')" and inv: "acl_inv s"
    and new: "trap_to_host (a_cmd (f_action r)) \<Longrightarrow> acl_key (flow_type r) f \<notin> acl_flows s"
    and room: "trap_to_host (a_cmd (f_action r)) \<Longrightarrow> card (acl_flows s) < 65535"
  shows "acl_inv s'" "acl_flows s' = (if trap_to_host (a_cmd (f_action r)) \<and> code st = OK
     then insert (acl_key (flow_type r) f) (acl_flows s) else acl_flows s)"
proof -
  have "acl_inv s' \<and> acl_flows s' = (if trap_to_host (a_cmd (f_action r)) \<and> code st = OK
     then insert (acl_key (flow_type r) f) (acl_flows s) else acl_flows s)"
  proof (cases "trap_to_host (a_cmd (f_action r))")
    case False
    then show ?thesis using acl_stateD [OF acl_state_FlowAdd [OF run]] inv by simp
  next
    case trap: True
    show ?thesis
    proof (cases "flow_key_type (flow_type r)")
      case None
      then show ?thesis using run inv FlowAdd_OK_type [of P f aes r s] by (auto simp: FlowAdd_def)
    next
      case (Some t)
      then have i: "handle_acl_rule_install P (ucast f) (gemport_id r) (flow_type r) (access_intf_id r)
          (network_intf_id r) (f_classifier r) s = (st, s')"
        using run trap by (simp add: FlowAdd_def)
      have free: "flow_to_acl_map s (acl_key (flow_type r) f) = None" using new [OF trap] by auto
      show ?thesis using acl_inv_install [OF inv free room [OF trap] i] acl_flows_install [OF i free inv] trap
        by simp
    qed
  qed
  then show "acl_inv s'" "acl_flows s' = (if trap_to_host (a_cmd (f_action r)) \<and> code st = OK
     then insert (acl_key (flow_type r) f) (acl_flows s) else acl_flows s)" by blast+
qed

lemma acl_flows_remove_trap:
  assumes "acl_inv s" "FlowRemove_trap P fl d s = (r, s')"
  shows "acl_flows s' = acl_flows s - {(fl, d)}"
proof (cases "flow_to_acl_map s (fl, d)")
  case None
  then show ?thesis using assms by (auto simp: FlowRemove_trap_def)
next
  case (Some v)
  obtain a i where v: "v = (a, i)" by (cases v)
  obtain q t where q: "handle_acl_rule_cleanup P a i d s = (q, t)" by fastforce
  have a: "0 \<le> a" using assms(1) Some v by (auto simp: acl_inv_alt ran_def)
  note c = acl_inv_cleanup [OF assms(1) Some [unfolded v] q]
  have "s' = remove_trap_vlan fl (t\<lparr>flow_to_acl_map := (flow_to_acl_map s)((fl, d) := None)\<rparr>)"
    using assms(2) Some v q a c(2,3) by (simp add: FlowRemove_trap_def)
  then show ?thesis by (simp add: remove_trap_vlan_def split: option.splits)
qed

lemma FlowRemove_acl_state:
  assumes run: "FlowRemove P f t s = (st, s')" and k: "flow_key_type t = Some k"
    and r: "FlowRemove_trap P (ucast f) t s = (r, u)" and erased: "r = None \<Longrightarrow> flow_to_acl_map u (acl_key t f) = None"
  shows "acl_state s' = acl_state u"
proof (cases r)
  case (Some resp)
  then show ?thesis using run k r by (simp add: FlowRemove_def)
next
  case None
  let ?q = "Cfg_clear (flow_obj f k)"
  obtain e v where v: "bal_err P ?q (forget_flow_port k f u) = (e, v)" by fastforce
  then have same: "acl_state v = acl_state u"
    using acl_state_bal [of P ?q "forget_flow_port k f u"] by simp
  define w where "w = (if flow_id_counters v \<noteq> 0 \<and> om_find (<) (f, k) (flow_map v) \<noteq> None
     then v\<lparr>flow_id_counters := flow_id_counters v - 1, flow_map := om_erase (<) (f, k) (flow_map v)\<rparr> else v)"
  have "s' = (if e \<noteq> BCM_ERR_OK then v
      else w\<lparr>flow_to_acl_map := (flow_to_acl_map w)(acl_key t f := None)\<rparr>)"
    using run k r None v unfolding FlowRemove_def w_def
    by (cases "flow_id_counters v \<noteq> 0 \<and> om_find (<) (f, k) (flow_map v) \<noteq> None"; cases "e = BCM_ERR_OK")
      (simp_all add: Let_def)
  moreover have w: "acl_state w = acl_state u" using same by (simp add: w_def)
  moreover have "(flow_to_acl_map w)(acl_key t f := None) = flow_to_acl_map w"
    using erased [OF None] acl_stateD(1) [OF w] by (simp add: fun_upd_idem)
  moreover from this have "acl_state (w\<lparr>flow_to_acl_map := (flow_to_acl_map w)(acl_key t f := None)\<rparr>) = acl_state w"
    by (simp add: acl_state_def)
  ultimately show ?thesis using same by simp
qed

lemma FlowRemove_acl:
  assumes run: "FlowRemove P f t s = (st, s')" and inv: "acl_inv s" and ty: "flow_key_type t \<noteq> None"
  shows "acl_inv s'" "acl_flows s' = acl_flows s - {acl_key t f}"
proof -
  obtain k where k: "flow_key_type t = Some k" using ty by blast
  obtain r u where r: "FlowRemove_trap P (ucast f) t s = (r, u)" by fastforce
  note trap = FlowRemove_trap_state [OF inv r] acl_flows_remove_trap [OF inv r]
  have "acl_state s' = acl_state u" using trap(2) by (rule FlowRemove_acl_state [OF run k r])
  from acl_stateD [OF this] show "acl_inv s'" "acl_flows s' = acl_flows s - {acl_key t f}"
    using trap by simp_all
qed

text \<open>Removing a device flow that has no list leaves the lists alone.\<close>

lemma FlowRemove_no_acl:
  assumes "FlowRemove P f t s = (st, s')" "flow_to_acl_map s (acl_key t f) = None" "flow_key_type t \<noteq> None"
  shows "acl_state s' = acl_state s"
proof -
  have "FlowRemove_trap P (ucast f) t s = (None, s)" using assms(2) by (simp add: FlowRemove_trap_def)
  then show ?thesis using FlowRemove_acl_state [OF assms(1)] assms(2,3) by auto
qed

section \<open>Who owns a list\<close>

text \<open>
  Which keys have a list, against the ids in use and the installed flows: an id has one list at
  most and is in use, and an installed flow with that id has the type the list is for.
\<close>

abbreviation key_id :: "uint64 \<times> string \<Rightarrow> nat" where
  "key_id k \<equiv> unat (fst k)"

definition acl_owned :: "(uint64 \<times> string) set \<Rightarrow> nat set \<Rightarrow> (uint64 \<rightharpoonup> device_flow) \<Rightarrow> bool" where
  "acl_owned D B C \<longleftrightarrow>
     inj_on key_id D \<and> key_id ` D \<subseteq> B \<and> key_id ` D \<subseteq> {..65535} \<and>
     (\<forall>v d f t. C v = Some d \<longrightarrow> f \<in> set (device_flow_ids d) \<longrightarrow> acl_key t f \<in> D \<longrightarrow> t = df_flow_type d)"

definition acl_books :: "olt \<Rightarrow> bool" where
  "acl_books s \<longleftrightarrow>
     acl_inv s \<and> acl_owned (acl_flows s) (flow_id_bitset s) (voltha_flow_to_device_flow s)"

text \<open>The ids of the installed flows are in use.\<close>

definition ids_held :: "nat set \<Rightarrow> (uint64 \<rightharpoonup> device_flow) \<Rightarrow> bool" where
  "ids_held B C \<longleftrightarrow> (\<forall>v d. C v = Some d \<longrightarrow> unat ` set (device_flow_ids d) \<subseteq> B)"

lemma acl_owned_mono: "acl_owned D B C \<Longrightarrow> B \<subseteq> B' \<Longrightarrow> acl_owned D B' C"
  by (auto simp: acl_owned_def)

lemma acl_owned_forget: "acl_owned D B C \<Longrightarrow> acl_owned D B (C(v := None))"
  by (auto simp: acl_owned_def)

lemma acl_owned_free_key: "acl_owned D B C \<Longrightarrow> unat f \<notin> B \<Longrightarrow> acl_key t f \<notin> D"
  by (force simp: acl_owned_def)

text \<open>A flow with ids of its own, with lists or without.\<close>

lemma acl_owned_fresh:
  assumes own: "acl_owned D B C" and held: "ids_held B C" and new: "unat ` set (device_flow_ids d) \<inter> B = {}"
  shows "acl_owned (if trap then D \<union> acl_key (df_flow_type d) ` set (device_flow_ids d) else D)
     (B \<union> unat ` set (device_flow_ids d)) (C(v \<mapsto> d))"
proof -
  let ?N = "acl_key (df_flow_type d) ` set (device_flow_ids d)"
  have free: "acl_key t f \<notin> D" if "f \<in> set (device_flow_ids d)" for t f
    using acl_owned_free_key [OF own] that new by blast
  have old: "f \<notin> set (device_flow_ids d)" if "C w = Some e" "f \<in> set (device_flow_ids e)" for w e f
    using held that new unfolding ids_held_def by blast
  have N: "inj_on key_id ?N" "key_id ` ?N = unat ` set (device_flow_ids d)"
    by (auto simp: inj_on_def image_iff)
  have D: "inj_on key_id D" "key_id ` D \<subseteq> B" "key_id ` D \<subseteq> {..65535}"
    using own by (simp_all add: acl_owned_def)
  have "inj_on key_id (D \<union> ?N)"
    using N D new by (subst inj_on_Un) blast
  moreover have "unat ` set (device_flow_ids d) \<subseteq> {..65535}" using unat16_le by auto
  moreover have "t = df_flow_type e" if "(C(v \<mapsto> d)) w = Some e" "f \<in> set (device_flow_ids e)"
      "acl_key t f \<in> D \<union> ?N" for w e f t
    using that own free old by (auto simp: acl_owned_def split: if_splits)
  moreover have "t = df_flow_type e" if "(C(v \<mapsto> d)) w = Some e" "f \<in> set (device_flow_ids e)"
      "acl_key t f \<in> D" for w e f t
    using that own free by (auto simp: acl_owned_def split: if_splits)
  ultimately show ?thesis using D N unfolding acl_owned_def by (auto simp: image_Un)
qed

text \<open>A flow that shares ids that have no list.\<close>

lemma acl_owned_shared:
  assumes "acl_owned D B C" "\<And>f t. f \<in> set (device_flow_ids d) \<Longrightarrow> acl_key t f \<notin> D"
  shows "acl_owned D B (C(v \<mapsto> d))"
  using assms by (auto simp: acl_owned_def)

lemma acl_owned_release:
  assumes "acl_owned D B C" "C v = Some d" "f \<in> set (device_flow_ids d)"
  shows "acl_owned (D - {acl_key (df_flow_type d) f}) (B - {unat f}) C"
    "acl_owned (D - {acl_key (df_flow_type d) f}) B C"
proof -
  have "k = acl_key (df_flow_type d) f" if k: "k \<in> D" "key_id k = unat f" for k
  proof -
    have "fst k = ucast f" using k(2) by (intro unsigned_word_eqI [where 'a = nat]) simp
    then have "k = acl_key (snd k) f" by (metis prod.collapse)
    then show ?thesis using assms k(1) unfolding acl_owned_def by metis
  qed
  then show "acl_owned (D - {acl_key (df_flow_type d) f}) (B - {unat f}) C"
    "acl_owned (D - {acl_key (df_flow_type d) f}) B C"
    using assms(1) by (auto simp: acl_owned_def inj_on_def)
qed

lemma card_acl_flows:
  assumes "acl_owned D B C" "9 \<le> card ({1..65535} - B)"
  shows "card D \<le> 65527"
proof -
  have "card D = card (key_id ` D)" using assms(1) by (simp add: acl_owned_def card_image)
  also have "\<dots> \<le> card ({..65535} - ({1..65535} - B))"
    using assms(1) by (intro card_mono) (auto simp: acl_owned_def)
  also have "\<dots> = 65536 - card ({1..65535} - B)" by (subst card_Diff_subset) auto
  finally show ?thesis using assms(2) by simp
qed

section \<open>Adding and removing several device flows\<close>

lemma remove_device_flows_acl:
  "acl_inv s \<Longrightarrow> flow_key_type t \<noteq> None \<or> fs = [] \<Longrightarrow>
   acl_inv (remove_device_flows P t fs s) \<and>
   acl_flows (remove_device_flows P t fs s) = acl_flows s - acl_key t ` set fs"
proof (induction fs arbitrary: s)
  case (Cons f fs)
  obtain st u where u: "FlowRemove P f t s = (st, u)" by fastforce
  have ty: "flow_key_type t \<noteq> None" using Cons.prems(2) by simp
  note r = FlowRemove_acl [OF u Cons.prems(1) ty]
  show ?case using Cons.IH [OF r(1)] ty r(2) u by auto
qed simp

lemma add_device_flow_acl:
  assumes "add_device_flow P r d s = (st, s')" "acl_inv s"
    and "acl_key (flow_type r) (dfp_flow_id d) \<notin> acl_flows s"
    and "trap_to_host (a_cmd (f_action r)) \<Longrightarrow> card (acl_flows s) < 65535"
  shows "acl_inv s'" "acl_flows s' = (if trap_to_host (a_cmd (f_action r)) \<and> code st = OK
     then insert (acl_key (flow_type r) (dfp_flow_id d)) (acl_flows s) else acl_flows s)"
  using FlowAdd_acl [OF assms(1) [unfolded add_device_flow_def] assms(2)] assms(3,4) by simp_all

lemma card_insert_Suc: "card (insert x A) \<le> Suc (card A)"
  by (cases "finite A") (simp_all add: card_insert_if)

lemma add_replicated_acl:
  assumes "add_replicated P r good st ds fs s = (res, s')" "acl_inv s"
    and "acl_flows s = D \<union> (if trap then acl_key (flow_type r) ` set fs else {})"
    and "trap = trap_to_host (a_cmd (f_action r))" "\<And>st. good st \<Longrightarrow> accepted st"
    and "trap \<Longrightarrow> good = (\<lambda>st. code st = OK)"
    and "acl_key (flow_type r) ` set (fs @ map dfp_flow_id ds) \<inter> D = {}" "trap \<Longrightarrow> distinct (fs @ map dfp_flow_id ds)"
    and "trap \<Longrightarrow> card (acl_flows s) + length ds \<le> 65535" "fs \<noteq> [] \<Longrightarrow> flow_key_type (flow_type r) \<noteq> None"
  shows "acl_inv s' \<and> acl_flows s' = (case res of Inl st \<Rightarrow> D
     | Inr st \<Rightarrow> D \<union> (if trap then acl_key (flow_type r) ` set (fs @ map dfp_flow_id ds) else {}))"
  using assms
proof (induction ds arbitrary: st fs s)
  case (Cons d ds)
  let ?k = "acl_key (flow_type r)"
  obtain st1 u where u: "add_device_flow P r d s = (st1, u)" by fastforce
  have new: "?k (dfp_flow_id d) \<notin> acl_flows s" unfolding Cons.prems(3) using Cons.prems(7,8) by auto
  have rec: "trap_to_host (a_cmd (f_action r)) \<Longrightarrow> card (acl_flows s) < 65535"
    using Cons.prems(4,9) by simp
  have a: "acl_inv u" "acl_flows u = (if trap \<and> code st1 = OK then insert (?k (dfp_flow_id d)) (acl_flows s) else acl_flows s)"
    using add_device_flow_acl [OF u Cons.prems(2) new rec] Cons.prems(4) by simp_all
  show ?case
  proof (cases "good st1")
    case False
    then have "res = Inl st1" "s' = remove_device_flows P (flow_type r) fs u"
      using Cons.prems(1) u by simp_all
    moreover have "acl_flows u = acl_flows s" using a(2) False Cons.prems(6) by auto
    moreover have "D \<inter> ?k ` set fs = {}" using Cons.prems(7) by auto
    moreover have "acl_flows s - ?k ` set fs = D"
      unfolding Cons.prems(3) using \<open>D \<inter> ?k ` set fs = {}\<close> by auto
    ultimately show ?thesis
      using remove_device_flows_acl [OF a(1), of "flow_type r" fs P] Cons.prems(10) by (cases "fs = []") simp_all
  next
    case True
    then have run: "add_replicated P r good st1 ds (dfp_flow_id d # fs) u = (res, s')"
      using Cons.prems(1) u by simp
    have "accepted (fst (add_device_flow P r d s))" using Cons.prems(5) [OF True] u by simp
    then have ty: "flow_key_type (flow_type r) \<noteq> None"
      using FlowAdd_accepted_type by (fastforce simp: add_device_flow_def)
    have "card (acl_flows u) \<le> Suc (card (acl_flows s))"
      unfolding a(2) by (simp add: card_insert_Suc)
    then have room: "card (acl_flows u) + length ds \<le> 65535" if trap
      using Cons.prems(9) [OF that] by simp
    have dom: "acl_flows u = D \<union> (if trap then ?k ` set (dfp_flow_id d # fs) else {})"
      unfolding a(2) Cons.prems(3) using True Cons.prems(6) by (cases trap) auto
    have disj: "?k ` set ((dfp_flow_id d # fs) @ map dfp_flow_id ds) \<inter> D = {}"
      using Cons.prems(7) by auto
    have dist: "distinct ((dfp_flow_id d # fs) @ map dfp_flow_id ds)" if trap using Cons.prems(8) [OF that] by auto
    have ids: "?k ` set (fs @ map dfp_flow_id (d # ds)) = ?k ` set ((dfp_flow_id d # fs) @ map dfp_flow_id ds)"
      by auto
    show ?thesis unfolding ids by (rule Cons.IH [OF run a(1) dom Cons.prems(4,5,6) disj dist room ty])
  qed
qed auto

section \<open>What a request for a flow does to the lists\<close>

lemma acl_booksI:
  assumes "acl_inv u" "acl_state s' = acl_state u"
    and "acl_owned (acl_flows u) (flow_id_bitset s') (voltha_flow_to_device_flow s')"
  shows "acl_books s'"
  using assms acl_stateD [OF assms(2)] by (simp add: acl_books_def)

lemma free_flow_id_sel [simp]:
  "acl_state (free_flow_id f s) = acl_state s" "acl_state (free_flow_ids fs s) = acl_state s"
  "flow_id_bitset (free_flow_id f s) = flow_id_bitset s - {unat f}"
  "voltha_flow_to_device_flow (free_flow_id f s) = voltha_flow_to_device_flow s"
proof -
  show "acl_state (free_flow_ids fs s) = acl_state s" by (induction fs arbitrary: s) (simp_all add: free_flow_id_def)
qed (simp_all add: free_flow_id_def)

lemma add_single_acl:
  assumes run: "add_single P r s = Some (res, s')" and books: "acl_books s"
    and held: "ids_held (flow_id_bitset s) (voltha_flow_to_device_flow s)" and room: "card (acl_flows s) \<le> 65527"
  shows "acl_books s'"
proof -
  obtain f where f: "flow_id_search (flow_id_bitset s) 1 = Some f"
    using run by (auto simp: add_single_def get_flow_id_eq split: Option.bind_splits)
  then have new: "unat f \<notin> flow_id_bitset s" by (rule flow_id_search_free)
  have inv: "acl_inv s" and own: "acl_owned (acl_flows s) (flow_id_bitset s) (voltha_flow_to_device_flow s)"
    using books by (simp_all add: acl_books_def)
  let ?t = "s\<lparr>flow_id_bitset := insert (unat f) (flow_id_bitset s)\<rparr>"
  let ?trap = "trap_to_host (a_cmd (f_action r))"
  show ?thesis
  proof (cases "f = INVALID_FLOW_ID")
    case True
    then have "s' = ?t" using run f by (simp add: add_single_def get_flow_id_eq)
    then show ?thesis using acl_owned_mono [OF own, of "insert (unat f) (flow_id_bitset s)"] inv
      by (intro acl_booksI [of s]) auto
  next
    case False
    obtain st u where add: "FlowAdd P f (get_aes_flag_for_gem_port (gemport_to_aes r)
        (u32_of_int (gemport_id r))) r ?t = (st, u)" by fastforce
    note book = flow_book_eqD [OF FlowAdd_book [OF add]]
    have t: "acl_inv ?t = acl_inv s" by (rule acl_stateD) simp
    have a: "acl_inv u" "acl_flows u = (if ?trap \<and> code st = OK
        then insert (acl_key (flow_type r) f) (acl_flows s) else acl_flows s)"
      using FlowAdd_acl [OF add] acl_owned_free_key [OF own new] inv t room by simp_all
    let ?d = "\<lparr>dfp_pbit = ucast (o_pbits (f_classifier r)),
               dfp_gemport_id = u32_of_int (gemport_id r), dfp_flow_id = f\<rparr>"
    let ?e = "single_flow P (ucast INVALID_FLOW_ID) r ?d u"
    have eq: "s' = (if code st = OK then update_voltha_flow_to_cache (flow_id r) ?e u else free_flow_id f u)"
      using run f False add by (simp add: add_single_def get_flow_id_eq Let_def split: if_splits)
    show ?thesis
    proof (cases "code st = OK")
      case True
      have "acl_owned (acl_flows u) (flow_id_bitset s \<union> {unat f}) ((voltha_flow_to_device_flow s)(flow_id r \<mapsto> ?e))"
        using acl_owned_fresh [OF own held, of ?e ?trap "flow_id r"] new a(2) True by (cases ?trap) simp_all
      then show ?thesis using eq True a(1) book
        by (intro acl_booksI [of u]) (simp_all add: update_voltha_flow_to_cache_def)
    next
      case bad: False
      have "insert (unat f) (flow_id_bitset s) - {unat f} = flow_id_bitset s" using new by auto
      then show ?thesis using eq bad a book own by (intro acl_booksI [of u]) simp_all
    qed
  qed
qed

lemma add_with_replication_acl:
  assumes run: "add_with_replication P r s = Some (res, s')" and books: "acl_books s"
    and held: "ids_held (flow_id_bitset s) (voltha_flow_to_device_flow s)" and room: "card (acl_flows s) \<le> 65527"
  shows "acl_books s'"
proof (cases "length (pbit_to_gemport r) > NUMBER_OF_PBITS")
  case True
  then show ?thesis using run books by (auto simp: add_with_replication_def Let_def)
next
  case False
  let ?n = "length (pbit_to_gemport r)" and ?trap = "trap_to_host (a_cmd (f_action r))"
  obtain found fs t where g: "get_flow_ids (int ?n) s = Some ((found, fs), t)"
    using run False by (auto simp: add_with_replication_def Let_def split: Option.bind_splits)
  have n: "?n \<le> NUMBER_OF_PBITS" using False by simp
  note ids = get_flow_ids_Some [OF g, unfolded of_nat_le_iff, OF of_nat_0_le_iff n]
  let ?ds = "replicated_params (pbit_to_gemport r) fs"
  have len: "length fs = ?n" using ids(3) by simp
  then have dfp: "map dfp_flow_id ?ds = fs" by (simp add: replicated_params_ids)
  have inv: "acl_inv s" and own: "acl_owned (acl_flows s) (flow_id_bitset s) (voltha_flow_to_device_flow s)"
    using books by (simp_all add: acl_books_def)
  have t: "acl_state t = acl_state s" by (simp add: ids(5))
  obtain q u where add: "add_replicated P r (\<lambda>st. code st = OK) Status_OK ?ds [] t = (q, u)" by fastforce
  note book = flow_book_eqD [OF add_replicated_book [OF add]]
  have free: "acl_key (flow_type r) f \<notin> acl_flows s" if "f \<in> set fs" for f
    using acl_owned_free_key [OF own] ids(4) that by blast
  have a: "acl_inv u \<and> acl_flows u = (case q of Inl st \<Rightarrow> acl_flows s
      | Inr st \<Rightarrow> acl_flows s \<union> (if ?trap then acl_key (flow_type r) ` set ([] @ map dfp_flow_id ?ds) else {}))"
    by (rule add_replicated_acl [OF add])
      (use acl_stateD [OF t] inv free room len n in \<open>auto simp only: dfp append_Nil length_replicated_params
         NUMBER_OF_PBITS_def accepted_def min.idem ids(2) image_Un set_append Un_empty_right image_empty
         list.set(1) if_cancel\<close>)
  show ?thesis
  proof (cases q)
    case (Inl st)
    then have "s' = free_flow_ids fs u"
      using run False g add ids(1) by (auto simp: add_with_replication_def Let_def)
    moreover have "flow_id_bitset s \<union> unat ` set fs - unat ` set fs = flow_id_bitset s" using ids(4) by auto
    ultimately show ?thesis using book a Inl own by (intro acl_booksI [of u]) (simp_all add: ids(5))
  next
    case (Inr st)
    let ?e = "replicated_flow P (ucast INVALID_FLOW_ID) r ?ds u"
    have s': "s' = update_voltha_flow_to_cache (flow_id r) ?e u"
      using run False g add ids(1) Inr by (auto simp: add_with_replication_def Let_def)
    have e: "device_flow_ids ?e = fs" using len n dfp by simp
    have "acl_owned (acl_flows u) (flow_id_bitset s \<union> unat ` set fs) ((voltha_flow_to_device_flow s)(flow_id r \<mapsto> ?e))"
      using acl_owned_fresh [OF own held, of ?e ?trap "flow_id r"] ids(4) a Inr e dfp by (cases ?trap) simp_all
    then show ?thesis using s' a book by (intro acl_booksI [of u]) (simp_all add: update_voltha_flow_to_cache_def ids(5))
  qed
qed

text \<open>The ids a flow takes over from its symmetric flow.\<close>

definition taken_ids :: "flow \<Rightarrow> olt \<Rightarrow> uint16 list" where
  "taken_ids r s = (case get_device_flow_params (find_symmetric_flow r s) s of
     None \<Rightarrow> [] | Some params \<Rightarrow> map dfp_flow_id (symmetric_params r params))"

lemma acl_owned_free:
  assumes "acl_owned D B C" "\<And>t. acl_key t f \<notin> D"
  shows "acl_owned D (B - {unat f}) C"
proof -
  have "key_id k \<noteq> unat f" if "k \<in> D" for k
  proof
    assume "key_id k = unat f"
    then have "fst k = ucast f" by (intro unsigned_word_eqI [where 'a = nat]) simp
    then show False using assms(2) that by (metis prod.collapse)
  qed
  then show ?thesis using assms(1) by (auto simp: acl_owned_def)
qed

lemma add_symmetric_acl:
  assumes run: "add_symmetric P r symm params s = (res, s')" and books: "acl_books s"
    and data: "\<not> trap_to_host (a_cmd (f_action r))"
    and free: "\<And>f t. f \<in> set (map dfp_flow_id (symmetric_params r params)) \<Longrightarrow> acl_key t f \<notin> acl_flows s"
  shows "acl_books s'"
proof -
  have inv: "acl_inv s" and own: "acl_owned (acl_flows s) (flow_id_bitset s) (voltha_flow_to_device_flow s)"
    using books by (simp_all add: acl_books_def)
  have took: "took_over r params s res s'" using run add_symmetric_took_over by blast
  have acl: "acl_inv s' \<and> acl_flows s' = acl_flows s"
  proof (cases "replicate_flow r")
    case False
    obtain st u where u: "add_device_flow P r (params 0) s = (st, u)" by fastforce
    have "acl_state u = acl_state s"
      using acl_state_FlowAdd [OF u [unfolded add_device_flow_def]] data by simp
    moreover have "acl_state s' = acl_state u"
      using run u False by (auto simp: add_symmetric_def update_voltha_flow_to_cache_def split: if_splits)
    ultimately show ?thesis using acl_stateD [of s' s] inv by simp
  next
    case True
    let ?ds = "map params [0..<length (pbit_to_gemport r)]"
    obtain q u where u: "add_replicated P r accepted Status_OK ?ds [] s = (q, u)" by fastforce
    have "acl_inv u \<and> acl_flows u = (case q of Inl st \<Rightarrow> acl_flows s | Inr st \<Rightarrow> acl_flows s \<union>
        (if False then acl_key (flow_type r) ` set ([] @ map dfp_flow_id ?ds) else {}))"
      by (rule add_replicated_acl [OF u inv])
        (use data free True in \<open>auto simp add: symmetric_params_def simp del: domIff\<close>)
    then have "acl_inv u \<and> acl_flows u = acl_flows s" by (cases q) simp_all
    moreover have "s' = s \<or> acl_state s' = acl_state u"
      using run u True by (cases q) (auto simp: add_symmetric_def update_voltha_flow_to_cache_def split: if_splits)
    ultimately show ?thesis using acl_stateD [of s' u] inv by (elim disjE) simp_all
  qed
  have "acl_owned (acl_flows s) (flow_id_bitset s') (voltha_flow_to_device_flow s')"
  proof (cases res)
    case (Inl st)
    have "acl_key t (dfp_flow_id (params 0)) \<notin> acl_flows s" if "\<not> replicate_flow r" for t
      using free [of "dfp_flow_id (params 0)"] that by (simp add: symmetric_params_def)
    then show ?thesis using took Inl own acl_owned_free by (cases "replicate_flow r") (simp_all add: took_over_def)
  next
    case (Inr st)
    then obtain d where "voltha_flow_to_device_flow s' = (voltha_flow_to_device_flow s)(flow_id r \<mapsto> d)"
      "flow_id_bitset s' = flow_id_bitset s" "device_flow_ids d = map dfp_flow_id (symmetric_params r params)"
      using took by (auto simp: took_over_def)
    then show ?thesis using acl_owned_shared [OF own, of d] free by simp
  qed
  then show ?thesis using acl by (simp add: acl_books_def)
qed

text \<open>
  The states in which adding a flow is safe: nine flow ids are left, no installed flow has lost its id, and
  the ids a flow takes over are not those of a trap flow.
\<close>

definition safe_to_add :: "flow \<Rightarrow> olt \<Rightarrow> bool" where
  "safe_to_add r s \<longleftrightarrow> 9 \<le> card ({1..65535} - flow_id_bitset s) \<and>
     ids_held (flow_id_bitset s) (voltha_flow_to_device_flow s) \<and>
     (has_symmetric r s \<longrightarrow> (\<forall>f\<in>set (taken_ids r s). \<forall>t. flow_to_acl_map s (acl_key t f) = None))"

lemma FlowAddWrapper_acl:
  assumes run: "FlowAddWrapper P r s = Some (st, s')" and books: "acl_books s" and safe: "safe_to_add r s"
  shows "acl_books s'"
proof -
  let ?v = "find_symmetric_flow r s" and ?r = "with_valid_onu r"
  have held: "ids_held (flow_id_bitset s) (voltha_flow_to_device_flow s)" and room: "card (acl_flows s) \<le> 65527"
    using safe books card_acl_flows by (auto simp: safe_to_add_def acl_books_def)
  have link: "acl_books (u\<lparr>symmetric_datapath_flow_id_map := m\<rparr>) = acl_books u" for u m
    by (simp add: acl_books_def acl_inv_def)
  show ?thesis
  proof (cases "is_voltha_flow_installed (flow_id r) s")
    case True
    then show ?thesis using run books by (simp add: FlowAddWrapper_def Let_def)
  next
    case False
    then obtain res u where u: "add_voltha_flow P ?r ?v s = Some (res, u)"
      using run by (cases "add_voltha_flow P ?r ?v s") (auto simp: FlowAddWrapper_def Let_def)
    let ?link = "if is_datapath_flow r
      then u\<lparr>symmetric_datapath_flow_id_map := (symmetric_datapath_flow_id_map u)
               (datapath_key ?r (flow_type ?r) \<mapsto> flow_id ?r)\<rparr> else u"
    have "(st, s') = (case res of Inl st \<Rightarrow> (st, u) | Inr st \<Rightarrow> (st, ?link))"
      using run u False by (simp add: FlowAddWrapper_def Let_def)
    then have s': "acl_books s' = acl_books u" by (cases res) (simp_all add: link)
    have "acl_books u"
    proof (cases "has_symmetric r s")
      case True
      then obtain params where p: "get_device_flow_params ?v s = Some params"
        by (auto simp: has_symmetric_def is_voltha_flow_installed_def get_device_flow_params_def)
      have data: "\<not> trap_to_host (a_cmd (f_action ?r))"
        using True by (auto simp: has_symmetric_def find_symmetric_flow_def is_datapath_flow_def split: if_splits)
      have sym: "add_symmetric P ?r ?v params s = (res, u)"
        using u True p by (simp add: add_voltha_flow_def has_symmetric_def)
      have same: "symmetric_params ?r params = symmetric_params r params" by (simp add: symmetric_params_def)
      have "acl_key t f \<notin> acl_flows s" if "f \<in> set (map dfp_flow_id (symmetric_params ?r params))" for f t
        using safe True that p by (auto simp: safe_to_add_def taken_ids_def same)
      then show ?thesis by (rule add_symmetric_acl [OF sym books data])
    next
      case False
      then show ?thesis
        using u add_single_acl [OF _ books held room] add_with_replication_acl [OF _ books held room]
        by (auto simp: add_voltha_flow_def has_symmetric_def split: if_splits)
    qed
    then show ?thesis using s' by simp
  qed
qed

lemma remove_and_free_acl:
  assumes "acl_books s" "voltha_flow_to_device_flow s v = Some d" "set fs \<subseteq> set (device_flow_ids d)"
  shows "acl_books (remove_and_free P (df_flow_type d) fs s)"
  using assms
proof (induction fs arbitrary: s)
  case (Cons f fs)
  obtain st u where u: "FlowRemove P f (df_flow_type d) s = (st, u)" by fastforce
  let ?u = "if code st = OK then free_flow_id f u else u"
  have inv: "acl_inv s" and own: "acl_owned (acl_flows s) (flow_id_bitset s) (voltha_flow_to_device_flow s)"
    using Cons.prems(1) by (simp_all add: acl_books_def)
  note book = flow_book_eqD [OF FlowRemove_book [OF u]]
  have "acl_books ?u"
  proof (cases "flow_key_type (df_flow_type d)")
    case None
    then have "?u = s" using u by (auto simp: FlowRemove_def)
    then show ?thesis using Cons.prems(1) by simp
  next
    case (Some t)
    then have a: "acl_inv u" "acl_flows u = acl_flows s - {acl_key (df_flow_type d) f}"
      using FlowRemove_acl [OF u inv] by simp_all
    have "acl_owned (acl_flows u) (flow_id_bitset ?u) (voltha_flow_to_device_flow ?u)"
      using acl_owned_release [OF own Cons.prems(2), of f] Cons.prems(3) a(2) book by (cases "code st = OK") simp_all
    then show ?thesis using a(1) by (intro acl_booksI [of u]) simp_all
  qed
  then show ?case using Cons.IH [of ?u] Cons.prems(2,3) u book by simp
qed simp

lemma FlowRemoveWrapper_acl:
  assumes "acl_books s"
  shows "acl_books (snd (FlowRemoveWrapper P r s))"
proof (cases "voltha_flow_to_device_flow s (flow_id r)")
  case None
  then show ?thesis using assms by (simp add: FlowRemoveWrapper_def get_device_flow_def)
next
  case (Some d)
  let ?u = "remove_and_free P (df_flow_type d) (device_flow_ids d) s"
  have u: "acl_books ?u" by (rule remove_and_free_acl [OF assms Some]) simp
  then have "acl_owned (acl_flows ?u) (flow_id_bitset ?u) ((voltha_flow_to_device_flow ?u)(flow_id r := None))"
    by (intro acl_owned_forget) (simp add: acl_books_def)
  then show ?thesis using u Some
    by (intro acl_booksI [of ?u]) (simp_all add: FlowRemoveWrapper_def get_device_flow_def Let_def
        remove_voltha_flow_from_cache_def acl_books_def)
qed

section \<open>The lists in the reachable states\<close>

interpretation acl_lists: flow_view acl_books
proof
  fix s
  show "acl_books (agent_part s) = acl_books s"
    by (simp add: acl_books_def agent_part_def acl_inv_def)
  show "acl_books (ind_rest s) = acl_books s" by (simp add: acl_books_def ind_rest_def acl_inv_def)
  show "acl_books (device_rest s) = acl_books s" by (simp add: acl_books_def device_rest_def acl_inv_def)
  show "acl_books (table_rest s) = acl_books s" by (simp add: acl_books_def table_rest_def acl_inv_def)
qed

abbreviation careful :: "request \<Rightarrow> olt \<Rightarrow> bool" where
  "careful req s \<equiv> \<forall>r. req = Flow_add r \<longrightarrow> safe_to_add r s"

interpretation careful_lists: step_invariant "\<lambda>s. s = init_olt" "guarded_step careful P" acl_books for P
proof
  fix s s' :: olt
  show "s = init_olt \<Longrightarrow> acl_books s" by (simp add: acl_books_def acl_owned_def)
  assume inv: "acl_books s" and step: "guarded_step careful P s s'"
  from step show "acl_books s'"
  proof (cases rule: acl_lists.view_step)
    case other
    then show ?thesis using inv by simp
  next
    case (flow_added r st)
    then show ?thesis using FlowAddWrapper_acl inv by simp
  next
    case (flow_removed r)
    then show ?thesis using FlowRemoveWrapper_acl inv by simp
  qed
qed

section \<open>Properties\<close>

text \<open>
  C5: the access control lists in the states the agent can reach, whatever BAL does, when VOLTHA adds a flow
  only while nine flow ids are left, no installed flow has lost its id, and the flow takes over no id of a trap
  flow.  Then the lists are counted right, a device flow id with a list is in use and has only that one, and
  every installed flow with that id has the type the list is for, so that only its own removal finds the
  list.
\<close>

theorem reachable_acls:
  assumes "(guarded_step careful P)\<^sup>*\<^sup>* init_olt s"
  shows "acl_inv s \<and>
    (\<forall>f t. flow_to_acl_map s (f, t) \<noteq> None \<longrightarrow>
       unat f \<in> flow_id_bitset s \<and> (\<forall>t'. flow_to_acl_map s (f, t') \<noteq> None \<longrightarrow> t' = t)) \<and>
    (\<forall>v d f t. voltha_flow_to_device_flow s v = Some d \<longrightarrow> f \<in> set (device_flow_ids d) \<longrightarrow>
       flow_to_acl_map s (acl_key t f) \<noteq> None \<longrightarrow> t = df_flow_type d)"
proof -
  have "acl_books s" by (rule careful_lists.reachable [OF refl assms])
  then have own: "acl_inv s" "acl_owned (acl_flows s) (flow_id_bitset s) (voltha_flow_to_device_flow s)"
    by (simp_all add: acl_books_def)
  have one: "t' = t" if "(f, t) \<in> acl_flows s" "(f, t') \<in> acl_flows s" for f t t'
    using own(2) inj_onD [of key_id "acl_flows s" "(f, t)" "(f, t')"] that by (simp add: acl_owned_def)
  have used: "unat f \<in> flow_id_bitset s" if "(f, t) \<in> acl_flows s" for f t
    using own(2) that by (force simp: acl_owned_def)
  have type: "t = df_flow_type d" if "voltha_flow_to_device_flow s v = Some d" "f \<in> set (device_flow_ids d)"
      "acl_key t f \<in> acl_flows s" for v d f t
    using own(2) that unfolding acl_owned_def by blast
  show ?thesis using own(1) one used type by (simp add: domIff)
qed

definition sample_trap_flow :: flow where
  "sample_trap_flow = (sample_flow 11 upstream)\<lparr>f_action := (f_action (sample_flow 11 upstream))
     \<lparr>a_cmd := \<lparr>add_outer_tag = False, remove_outer_tag = False, translate_outer_tag = False, trap_to_host = True\<rparr>\<rparr>\<rparr>"

lemma sample_trap_flow_sel [simp]:
  "trap_to_host (a_cmd (f_action sample_trap_flow))" "flow_type sample_trap_flow = upstream"
  "\<not> replicate_flow sample_trap_flow" "flow_id sample_trap_flow = 11"
  "with_valid_onu sample_trap_flow = sample_trap_flow"
  by (simp_all add: sample_trap_flow_def sample_flow_def with_valid_onu_def)

text \<open>When BAL accepts everything, the list of a trap flow is installed as long as a list is left.\<close>

lemma acl_for_classifier_accepted:
  assumes "finite (acl_id_bitset s)" "card (acl_id_bitset s) < MAX_ACL_ID"
  obtains a u where "acl_for_classifier (const_platform ok_rsp) key s = (Inr a, u)" "finite (acl_id_bitset u)"
    "card (acl_id_bitset u) \<le> Suc (card (acl_id_bitset s))"
proof (cases "om_find acl_key_lt key (acl_classifier_to_acl_id_map s)")
  case (Some a)
  then show thesis using assms that [of a "s\<lparr>acl_ref_cnt := inc_count (acl_ref_cnt s) a\<rparr>"]
    by (simp add: acl_for_classifier_def)
next
  case None
  obtain resp t where i: "install_acl (const_platform ok_rsp) key s = (resp, t)" by fastforce
  obtain n v where g: "get_acl_id s = (n, v)" by fastforce
  have "\<not> {0..<MAX_ACL_ID} \<subseteq> acl_id_bitset s"
    using assms card_mono [of "acl_id_bitset s" "{0..<MAX_ACL_ID}"] by auto
  then have "0 \<le> n" using get_acl_id_cases [OF g] by blast
  then have "resp = Status_OK" using i g
    by (simp add: install_acl_def bal_err_def bal_call_def Let_def split: if_splits)
  then have ok: "ok resp" by simp
  from install_acl_ok [OF i this] obtain j where j: "acl_id_bitset t = insert j (acl_id_bitset s)" by auto
  have "card (insert j (acl_id_bitset s)) \<le> Suc (card (acl_id_bitset s))" by (rule card_insert_Suc)
  moreover obtain a u where "acl_for_classifier (const_platform ok_rsp) key s = (Inr a, u)"
    "acl_id_bitset u = acl_id_bitset t" using None i ok by (simp add: acl_for_classifier_def Let_def)
  ultimately show thesis using j assms(1) that by simp
qed

lemma sample_trap_FlowAdd:
  assumes "finite (acl_id_bitset s)" "card (acl_id_bitset s) < MAX_ACL_ID"
  obtains u where "FlowAdd (const_platform ok_rsp) f aes sample_trap_flow s = (Status_OK, u)"
    "finite (acl_id_bitset u)" "card (acl_id_bitset u) \<le> Suc (card (acl_id_bitset s))"
proof -
  let ?P = "const_platform ok_rsp" and ?c = "sample_classifier 7"
  let ?key = "formulate_acl_classifier_key ?c s"
  have add: "FlowAdd ?P f aes sample_trap_flow s =
      handle_acl_rule_install ?P (ucast f) 1024 upstream 0 0 ?c s"
    by (simp add: FlowAdd_def sample_trap_flow_def sample_flow_def flow_key_type_def)
  have eap: "get_trap_to_host_packet_type ?c = eap" by (simp add: get_trap_to_host_packet_type_def)
  obtain a u where a: "acl_for_classifier ?P ?key s = (Inr a, u)" "finite (acl_id_bitset u)"
    "card (acl_id_bitset u) \<le> Suc (card (acl_id_bitset s))" using acl_for_classifier_accepted [OF assms] .
  have reg: "acl_id_bitset (register_acl_interface ?P b i d t) = acl_id_bitset t" for b i d t
    using register_acl_interface_ok [OF refl, of ?P b i d t] by auto
  have rec: "acl_id_bitset (record_trap_vlan b i v k t) = acl_id_bitset t" for b i v k t
    by (simp add: record_trap_vlan_def Let_def)
  show thesis
  proof (cases "om_find acl_key_lt ?key (acl_classifier_to_acl_id_map s) \<noteq> None \<and>
      flow_to_acl_map s (ucast f, upstream) \<noteq> None")
    case True
    then show thesis using that [of s] add eap assms by (simp add: handle_acl_rule_install_def Let_def)
  next
    case False
    then obtain w where "handle_acl_rule_install ?P (ucast f) 1024 upstream 0 0 ?c s = (Status_OK, w)"
      "acl_id_bitset w = acl_id_bitset u"
      using eap a(1)
      by (cases "om_find acl_key_lt ?key (acl_classifier_to_acl_id_map s)"; cases "flow_to_acl_map s (ucast f, upstream)")
        (simp_all add: handle_acl_rule_install_def Let_def reg rec)
    then show thesis using that add a(2,3) by simp
  qed
qed

text \<open>A trap flow has no symmetric flow, and gets the smallest free id.\<close>

lemma trap_flow_added:
  assumes run: "FlowAddWrapper P r s = Some (st, s')" and st: "code st = OK"
    and r: "trap_to_host (a_cmd (f_action r))" "\<not> replicate_flow r" and inv: "acl_inv s"
    and x: "flow_id_search (flow_id_bitset s) 1 = Some x" "flow_to_acl_map s (acl_key (flow_type r) x) = None"
    and room: "card (dom (flow_to_acl_map s)) < 65535"
  shows "acl_inv s'" "acl_key (flow_type r) x \<in> acl_flows s'"
    "\<exists>d. voltha_flow_to_device_flow s' = (voltha_flow_to_device_flow s)(flow_id r \<mapsto> d) \<and> device_flow_ids d = [x]"
proof -
  let ?r = "with_valid_onu r" and ?t = "s\<lparr>flow_id_bitset := insert (unat x) (flow_id_bitset s)\<rparr>"
  obtain st1 u where add: "FlowAdd P x (get_aes_flag_for_gem_port (gemport_to_aes ?r)
      (u32_of_int (gemport_id ?r))) ?r ?t = (st1, u)" by fastforce
  have data: "\<not> is_datapath_flow r" "find_symmetric_flow r s = 0"
    using r(1) by (simp_all add: is_datapath_flow_def find_symmetric_flow_def)
  have new: "\<not> is_voltha_flow_installed (flow_id r) s"
    using run st by (auto simp: FlowAddWrapper_def Let_def Status_of_def)
  have single: "FlowAddWrapper P r s = map_option (\<lambda>(res, s). case res of Inl st \<Rightarrow> (st, s) | Inr st \<Rightarrow> (st, s))
      (add_single P ?r s)"
    using new data r(2)
    by (auto simp: FlowAddWrapper_def Let_def add_voltha_flow_def intro!: option.map_cong split: sum.split)
  have valid: "x \<noteq> INVALID_FLOW_ID"
    using run st x(1) single by (auto simp: add_single_def get_flow_id_eq Status_of_def)
  have res: "code st1 = OK" "\<exists>d. s' = update_voltha_flow_to_cache (flow_id r) d u \<and> device_flow_ids d = [x]"
    using run st x(1) single valid add
    by (auto simp: add_single_def get_flow_id_eq Let_def split: if_splits)
  have "acl_inv ?t" using inv acl_stateD(2) [of ?t s] by simp
  note a = FlowAdd_acl [OF add this]
  have "acl_inv u" "acl_key (flow_type r) x \<in> acl_flows u"
    using a(1,2) x(2) room res(1) r(1) by auto
  moreover have "acl_state s' = acl_state u" using res(2) by (auto simp: update_voltha_flow_to_cache_def)
  ultimately show "acl_inv s'" "acl_key (flow_type r) x \<in> acl_flows s'" using acl_stateD [of s' u] by simp_all
  show "\<exists>d. voltha_flow_to_device_flow s' = (voltha_flow_to_device_flow s)(flow_id r \<mapsto> d) \<and> device_flow_ids d = [x]"
    using res(2) flow_book_eqD [OF FlowAdd_book [OF add]] by (auto simp: update_voltha_flow_to_cache_def)
qed

lemma sample_trap_added:
  assumes "m 11 = None"
  shows "\<exists>s. FlowAddWrapper (const_platform ok_rsp) sample_trap_flow (init_olt\<lparr>voltha_flow_to_device_flow := m\<rparr>) =
    Some (Status_OK, s)"
proof -
  let ?P = "const_platform ok_rsp" and ?r = sample_trap_flow
  let ?t = "init_olt\<lparr>voltha_flow_to_device_flow := m, flow_id_bitset := {Suc 0}\<rparr>"
  obtain u where u: "FlowAdd ?P 1 False ?r ?t = (Status_OK, u)"
    using sample_trap_FlowAdd [of ?t 1 False] by (auto simp: init_olt_sel MAX_ACL_ID_def)
  have data: "\<not> is_datapath_flow ?r" "find_symmetric_flow ?r s = 0" for s
    by (simp_all add: is_datapath_flow_def find_symmetric_flow_def)
  have aes: "\<not> get_aes_flag_for_gem_port (gemport_to_aes ?r) g" for g
    by (simp add: sample_trap_flow_def sample_flow_def)
  have "code Status_OK = OK" by (simp add: Status_OK_def)
  then show ?thesis using assms
    by (simp add: FlowAddWrapper_def is_voltha_flow_installed_def add_voltha_flow_def add_single_def
        get_flow_id_eq data aes u INVALID_FLOW_ID_def Let_def)
qed

theorem reachable_acls_witness:
  "\<exists>s. (guarded_step careful (const_platform ok_rsp))\<^sup>*\<^sup>* init_olt s \<and> acl_inv s \<and>
     flow_to_acl_map s (1, upstream) \<noteq> None \<and> 1 \<in> flow_id_bitset s"
proof -
  have same: "init_olt\<lparr>voltha_flow_to_device_flow := Map.empty\<rparr> = init_olt" by (simp add: init_olt_def)
  obtain s where run: "FlowAddWrapper (const_platform ok_rsp) sample_trap_flow init_olt = Some (Status_OK, s)"
    using sample_trap_added [of Map.empty] same by auto
  have "acl_key upstream 1 \<in> acl_flows s"
    using trap_flow_added(2) [OF run _ _ _ acl_inv_init, of 1] by (simp add: Status_OK_def init_olt_sel)
  then have s: "FlowAddWrapper (const_platform ok_rsp) sample_trap_flow init_olt = Some (Status_OK, s)"
    "flow_to_acl_map s (1, upstream) \<noteq> None" using run by auto
  have "safe_to_add sample_trap_flow init_olt"
    by (simp add: safe_to_add_def ids_held_def has_symmetric_def find_symmetric_flow_def)
  then have reach: "(guarded_step careful (const_platform ok_rsp))\<^sup>*\<^sup>* init_olt s"
    by (intro r_into_rtranclp requested [of _ "Flow_add sample_trap_flow" _ _ Status_OK]) (simp_all add: s)
  have "unat (1 :: uint64) \<in> flow_id_bitset s" using reachable_acls [OF reach] s(2) by blast
  then show ?thesis using reachable_acls [OF reach] reach s(2) by auto
qed

text \<open>How often BAL was asked to remove a flow.\<close>

abbreviation flow_clears :: "uint16 \<Rightarrow> bcmolt_flow_type \<Rightarrow> olt \<Rightarrow> nat" where
  "flow_clears f k s \<equiv> count_list (bal_trace s) (Cfg_clear (flow_obj f k))"

lemma acl_obj_not_flow_obj: "Cfg_clear (acl_obj a) \<noteq> Cfg_clear (flow_obj f k)"
  by simp

lemma update_acl_interface_clears:
  "update_acl_interface P i t a c s = (r, s') \<Longrightarrow> flow_clears f k s' = flow_clears f k s"
  by (auto simp: update_acl_interface_def bal_err_def bal_call_def Let_def split: if_splits)

lemma remove_acl_clears: "remove_acl P a s = (r, s') \<Longrightarrow> flow_clears f k s' = flow_clears f k s"
  using acl_obj_not_flow_obj [of a f k]
  by (auto simp: remove_acl_def bal_err_def bal_call_def free_acl_id_def Let_def split: if_splits)

lemma cleanup_clears:
  assumes "handle_acl_rule_cleanup P a i d s = (r, t)"
  shows "flow_clears f k t = flow_clears f k s"
proof -
  have "flow_clears f k (unregister_acl_interface P a i d u) = flow_clears f k u" for u
    by (auto simp: unregister_acl_interface_def Let_def split: prod.split dest: update_acl_interface_clears)
  moreover have "flow_clears f k (release_acl P a u) = flow_clears f k u" for u
    by (auto simp: release_acl_def Let_def split: prod.split dest: remove_acl_clears)
  ultimately show ?thesis using assms by (auto simp: handle_acl_rule_cleanup_def Let_def)
qed

lemma FlowRemove_trap_clears:
  assumes "FlowRemove_trap P fl d s = (r, t)"
  shows "flow_clears f k t = flow_clears f k s"
  using assms
  by (auto simp: FlowRemove_trap_def remove_trap_vlan_def split: option.splits prod.splits if_splits
      dest: cleanup_clears)

text \<open>
  C6: otherwise a trap flow can lose its access control list to the removal of another flow.  A data flow is
  still installed though its id was freed, and a trap flow of the same type is added and gets the id.  Then removing
  the data flow answers OK, releases the list of the trap flow, which stays installed, and never
  asks BAL to remove the data flow.
\<close>

theorem trap_flow_loses_acl:
  assumes "acl_inv s" "card (dom (flow_to_acl_map s)) < 65535"
    and "voltha_flow_to_device_flow s (flow_id r) = Some d" "device_flow_ids d = [x]"
    and "flow_key_type (df_flow_type d) = Some k" "flow_id_search (flow_id_bitset s) 1 = Some x"
    and "flow_to_acl_map s (acl_key (df_flow_type d) x) = None"
    and "trap_to_host (a_cmd (f_action t))" "\<not> replicate_flow t" "flow_type t = df_flow_type d" "flow_id t \<noteq> flow_id r"
    and "FlowAddWrapper P t s = Some (st1, s1)" "code st1 = OK" "FlowRemoveWrapper P r s1 = (st2, s2)"
  shows "flow_to_acl_map s1 (acl_key (flow_type t) x) \<noteq> None \<and>
    code st2 = OK \<and> flow_to_acl_map s2 (acl_key (flow_type t) x) = None \<and>
    flow_clears x k s2 = flow_clears x k s1 \<and>
    (\<exists>e. voltha_flow_to_device_flow s2 (flow_id t) = Some e \<and> device_flow_ids e = [x])"
proof -
  let ?t = "df_flow_type d"
  have no_acl: "flow_to_acl_map s (acl_key (flow_type t) x) = None" using assms(7,10) by simp
  note add = trap_flow_added [OF assms(12,13,8,9,1,6) no_acl assms(2)]
  obtain e where e: "voltha_flow_to_device_flow s1 = (voltha_flow_to_device_flow s)(flow_id t \<mapsto> e)"
    "device_flow_ids e = [x]" using add(3) by blast
  obtain q u where q: "FlowRemove_trap P (ucast x) ?t s1 = (q, u)" by fastforce
  note trap = FlowRemove_trap_state [OF add(1) q]
  have list: "flow_to_acl_map s1 (acl_key ?t x) \<noteq> None" using add(2) assms(10) by auto
  then have fr: "FlowRemove P x ?t s1 = (Status_OK, u)"
    using q trap(3) assms(5) by (auto simp: FlowRemove_def)
  have cached: "voltha_flow_to_device_flow s1 (flow_id r) = Some d" using e(1) assms(3,11) by simp
  have s2: "st2 = Status_OK" "s2 = (remove_voltha_flow_from_cache (flow_id r) (free_flow_id x u))
      \<lparr>symmetric_datapath_flow_id_map := (symmetric_datapath_flow_id_map u)(datapath_key r ?t := None)\<rparr>"
    using cached assms(4,14) fr
    by (auto simp: FlowRemoveWrapper_def get_device_flow_def Let_def Status_OK_def free_flow_id_def
        remove_voltha_flow_from_cache_def)
  have "voltha_flow_to_device_flow u = voltha_flow_to_device_flow s1"
    using flow_book_eqD [OF FlowRemove_book [OF fr]] by simp
  then show ?thesis using s2 trap(2) FlowRemove_trap_clears [OF q, of x k] e list assms(10,11)
    by (simp add: remove_voltha_flow_from_cache_def free_flow_id_def Status_OK_def)
qed

theorem trap_flow_loses_acl_witness:
  "let s = init_olt\<lparr>voltha_flow_to_device_flow := [9 \<mapsto> sample_device_flow 9 upstream]\<rparr>;
       s1 = snd (the (FlowAddWrapper (const_platform ok_rsp) sample_trap_flow s));
       s2 = snd (FlowRemoveWrapper (const_platform ok_rsp) (sample_flow 9 upstream) s1)
   in flow_to_acl_map s1 (1, upstream) \<noteq> None \<and> flow_to_acl_map s2 (1, upstream) = None \<and>
      voltha_flow_to_device_flow s2 11 \<noteq> None"
proof -
  define s where "s = init_olt\<lparr>voltha_flow_to_device_flow := [9 \<mapsto> sample_device_flow 9 upstream]\<rparr>"
  obtain s1 where add: "FlowAddWrapper (const_platform ok_rsp) sample_trap_flow s = Some (Status_OK, s1)"
    using sample_trap_added [of "[9 \<mapsto> sample_device_flow 9 upstream]"] by (auto simp: s_def)
  obtain st2 s2 where rem: "FlowRemoveWrapper (const_platform ok_rsp) (sample_flow 9 upstream) s1 = (st2, s2)"
    by fastforce
  have s: "acl_inv s" "flow_to_acl_map s = Map.empty" "flow_id_bitset s = {}"
      "voltha_flow_to_device_flow s = [9 \<mapsto> sample_device_flow 9 upstream]"
    using acl_stateD [of s init_olt] by (simp_all add: s_def init_olt_sel)
  have d: "device_flow_ids (sample_device_flow v t) = [1]" "df_flow_type (sample_device_flow v t) = t" for v t
    by (simp_all add: device_flow_ids_def sample_device_flow_def)
  have "flow_key_type upstream = Some BCMOLT_FLOW_TYPE_UPSTREAM" by (simp add: flow_key_type_def)
  from trap_flow_loses_acl [OF s(1) _ _ d(1) [of 9 upstream] _ _ _ _ _ _ _ add _ rem, unfolded d, OF _ _ this]
  show ?thesis unfolding s_def [symmetric] Let_def using add rem by (auto simp: s Status_OK_def)
qed

end
