(* ===== verification/Threads.thy ===== *)
theory Threads
  imports System
begin

text \<open>
  Threads that share a state: the interleavings of their sections, the run of a schedule, and the locale of
  what the section of any thread keeps.  A thread type of the agent gives the sections
  (\<open>Flow_Threads\<close>, \<open>Profile_Threads\<close>).
\<close>

section \<open>Interleavings\<close>

text \<open>One of the threads does its next section.\<close>

inductive interleaved :: "('t \<Rightarrow> 's \<Rightarrow> ('t \<times> 's) option) \<Rightarrow> 't list \<times> 's \<Rightarrow> 't list \<times> 's \<Rightarrow> bool" for step where
  section_done: "i < length ts \<Longrightarrow> step (ts ! i) s = Some (th, s') \<Longrightarrow> interleaved step (ts, s) (ts[i := th], s')"

inductive_cases interleavedE [elim]: "interleaved step (ts, s) c"

text \<open>The run of a schedule: which thread does the next section.\<close>

fun run_schedule :: "('t \<Rightarrow> 's \<Rightarrow> ('t \<times> 's) option) \<Rightarrow> nat list \<Rightarrow> 't list \<times> 's \<Rightarrow> ('t list \<times> 's) option" where
  "run_schedule step [] c = Some c"
| "run_schedule step (i # is) (ts, s) =
     (if i < length ts then do { (th, s') \<leftarrow> step (ts ! i) s; run_schedule step is (ts[i := th], s') } else None)"

lemma run_schedule_interleaved: "run_schedule step is c = Some c' \<Longrightarrow> (interleaved step)\<^sup>*\<^sup>* c c'"
proof (induction "is" arbitrary: c)
  case (Cons i "is")
  obtain ts s where c: "c = (ts, s)" by (cases c)
  then obtain th s' where "i < length ts" "step (ts ! i) s = Some (th, s')" "run_schedule step is (ts[i := th], s') = Some c'"
    using Cons.prems by (auto simp: bind_eq_Some_conv split: if_splits)
  then show ?case using Cons.IH c by (auto intro: converse_rtranclp_into_rtranclp section_done)
qed simp

lemma run_schedule_append:
  "run_schedule step (is @ js) c = do { c \<leftarrow> run_schedule step is c; run_schedule step js c }"
proof (induction "is" arbitrary: c)
  case (Cons i "is")
  then show ?case by (cases c) (auto split: prod.splits intro!: Option.bind_cong)
qed simp

text \<open>Several sections of one thread in a row.\<close>

fun thread_run :: "('t \<Rightarrow> 's \<Rightarrow> ('t \<times> 's) option) \<Rightarrow> nat \<Rightarrow> 't \<Rightarrow> 's \<Rightarrow> ('t \<times> 's) option" where
  "thread_run step 0 th s = Some (th, s)"
| "thread_run step (Suc k) th s = do { (th, s) \<leftarrow> step th s; thread_run step k th s }"

lemma run_schedule_replicate:
  "i < length ts \<Longrightarrow> run_schedule step (replicate k i) (ts, s) =
     map_option (\<lambda>(th, s'). (ts[i := th], s')) (thread_run step k (ts ! i) s)"
proof (induction k arbitrary: ts s)
  case (Suc k)
  show ?case
  proof (cases "step (ts ! i) s")
    case (Some x)
    then show ?thesis using Suc by (cases x) simp
  qed (use Suc in simp)
qed simp

section \<open>Invariants of threads\<close>

text \<open>
  An invariant of the state with a condition on each thread: a section re-establishes its own thread's
  condition and keeps those of the others.
\<close>

locale thread_invariant =
  fixes step :: "'t \<Rightarrow> 's \<Rightarrow> ('t \<times> 's) option" and inv :: "'s \<Rightarrow> bool" and ready :: "'t list \<Rightarrow> nat \<Rightarrow> 's \<Rightarrow> bool"
  assumes section_ready: "inv s \<Longrightarrow> \<forall>j<length ts. ready ts j s \<Longrightarrow> i < length ts \<Longrightarrow> step (ts ! i) s = Some (th, s') \<Longrightarrow>
      inv s' \<and> (\<forall>j<length ts. ready (ts[i := th]) j s')"
begin

lemma section_keeps:
  assumes "interleaved step c c'" "inv (snd c)" "\<forall>j<length (fst c). ready (fst c) j (snd c)"
  shows "inv (snd c') \<and> (\<forall>j<length (fst c'). ready (fst c') j (snd c')) \<and> length (fst c') = length (fst c)"
  using assms
proof (induction rule: interleaved.induct)
  case (section_done i ts s th s')
  then show ?case using section_ready [of s ts i th s'] by simp
qed

lemma reachable:
  assumes "(interleaved step)\<^sup>*\<^sup>* (ts, s) (ts', s')" "inv s" "\<And>j. j < length ts \<Longrightarrow> ready ts j s"
  shows "inv s'" "length ts' = length ts" "j < length ts \<Longrightarrow> ready ts' j s'"
proof -
  have "inv (snd (ts', s')) \<and> (\<forall>j<length (fst (ts', s')). ready (fst (ts', s')) j (snd (ts', s'))) \<and>
      length (fst (ts', s')) = length ts"
    using assms(1) by (induction rule: rtranclp_induct) (use assms(2,3) section_keeps in \<open>force+\<close>)
  then show "inv s'" "length ts' = length ts" "j < length ts \<Longrightarrow> ready ts' j s'" by auto
qed

end

end
