(* ===== verification/Flow_Threads.thy ===== *)
theory Flow_Threads
  imports Acl_Service Threads
begin

text \<open>
  Requests for flows served by several threads of the gRPC server: \<open>FlowAddWrapper_\<close> and
  \<open>FlowRemoveWrapper_\<close> (\<open>agent/src/core_api_handler.cc\<close>) as the sequence of their critical sections, in the
  interleavings the locks allow.  The code takes a lock per access to a table, so a check and the action that relies on it are
  different sections.  A call of \<open>FlowAdd_\<close> or \<open>FlowRemove_\<close> is one section here, and a cache entry that
  another thread erases keeps its content for the thread that holds a pointer to it.
\<close>

section \<open>The sections of a request\<close>

datatype add_pc =
    Reading
  | Checking uint64
  | Checking_symmetric uint64
  | Fetching uint64
  | Installing_symmetric uint64 "nat \<Rightarrow> device_flow_params"
  | Allocating
  | Installing "uint16 list"
  | Freeing "uint16 list" status
  | Storing device_flow status
  | Linking status

datatype remove_pc =
    Looking_up
  | Getting
  | Clearing device_flow "uint16 list"
  | Returning device_flow uint16 "uint16 list"
  | Unlinking device_flow

datatype flow_thread = Adding flow add_pc | Removing flow remove_pc | Answered status

definition add_step :: "platform \<Rightarrow> flow \<Rightarrow> add_pc \<Rightarrow> olt \<Rightarrow> (flow_thread \<times> olt) option" where
  "add_step P req pc s =
     (let r = with_valid_onu req
      in case pc of
        Reading \<Rightarrow> Some (Adding req (Checking (find_symmetric_flow req s)), s)
      | Checking symm \<Rightarrow>
          Some (if is_voltha_flow_installed (flow_id r) s
                then Answered (Status_of ALREADY_EXISTS ''voltha-flow-already-installed'')
                else Adding req (if symm > 0 then Checking_symmetric symm else Allocating), s)
      | Checking_symmetric symm \<Rightarrow>
          Some (Adding req (if is_voltha_flow_installed symm s then Fetching symm else Allocating), s)
      | Fetching symm \<Rightarrow>
          Some (case get_device_flow_params symm s of
                  None \<Rightarrow> Answered (Status_of INTERNAL ''symmetric-flow-details-not-found'')
                | Some params \<Rightarrow> Adding req (Installing_symmetric symm params), s)
      | Installing_symmetric symm params \<Rightarrow>
          if \<not> replicate_flow r then
            let (st, s) = add_device_flow P r (params 0) s
            in Some (Adding req (if accepted st then Storing (single_flow P symm r (params 0) s) st
                                 else Freeing [dfp_flow_id (params 0)] st), s)
          else if length (pbit_to_gemport r) > NUMBER_OF_PBITS
          then Some (Answered (Status_of OUT_OF_RANGE ''pbit-to-gemport-map-len-invalid-for-flow-replication''), s)
          else
            let ds = map params [0..<length (pbit_to_gemport r)]
            in Some (case add_replicated P r accepted Status_OK ds [] s of
                 (Inl st, s) \<Rightarrow> (Answered st, s)
               | (Inr st, s) \<Rightarrow> (Adding req (Storing (replicated_flow P symm r ds s) st), s))
      | Allocating \<Rightarrow>
          if \<not> replicate_flow r then do {
            (f, s) \<leftarrow> get_flow_id s;
            Some (if f = INVALID_FLOW_ID then Answered (Status_of RESOURCE_EXHAUSTED ''flow-ids-exhausted'')
                  else Adding req (Installing [f]), s)
          } else if length (pbit_to_gemport r) > NUMBER_OF_PBITS
          then Some (Answered (Status_of OUT_OF_RANGE ''pbit-to-gemport-map-len-invalid-for-flow-replication''), s)
          else do {
            ((found, fs), s) \<leftarrow> get_flow_ids (int (length (pbit_to_gemport r))) s;
            Some (if \<not> found then Answered (Status_of RESOURCE_EXHAUSTED ''flow-ids-exhausted'')
                  else Adding req (Installing fs), s)
          }
      | Installing fs \<Rightarrow>
          if \<not> replicate_flow r then
            let f = hd fs;
                (st, s) = FlowAdd P f (get_aes_flag_for_gem_port (gemport_to_aes r) (u32_of_int (gemport_id r))) r s;
                d = \<lparr>dfp_pbit = ucast (o_pbits (f_classifier r)),
                     dfp_gemport_id = u32_of_int (gemport_id r), dfp_flow_id = f\<rparr>
            in Some (Adding req (if code st = OK then Storing (single_flow P (ucast INVALID_FLOW_ID) r d s) st
                                 else Freeing [f] st), s)
          else
            let ds = replicated_params (pbit_to_gemport r) fs
            in Some (case add_replicated P r (\<lambda>st. code st = OK) Status_OK ds [] s of
                 (Inl st, s) \<Rightarrow> (Adding req (Freeing fs st), s)
               | (Inr st, s) \<Rightarrow> (Adding req (Storing (replicated_flow P (ucast INVALID_FLOW_ID) r ds s) st), s))
      | Freeing fs st \<Rightarrow>
          Some (case fs of [] \<Rightarrow> (Answered st, s) | f # fs \<Rightarrow> (Adding req (Freeing fs st), free_flow_id f s))
      | Storing d st \<Rightarrow> Some (Adding req (Linking st), update_voltha_flow_to_cache (flow_id r) d s)
      | Linking st \<Rightarrow>
          Some (Answered st, if is_datapath_flow req
             then s\<lparr>symmetric_datapath_flow_id_map := (symmetric_datapath_flow_id_map s)
                       (datapath_key r (flow_type r) \<mapsto> flow_id r)\<rparr>
             else s))"

definition remove_step :: "platform \<Rightarrow> flow \<Rightarrow> remove_pc \<Rightarrow> olt \<Rightarrow> flow_thread \<times> olt" where
  "remove_step P req pc s =
     (case pc of
        Looking_up \<Rightarrow>
          (if is_voltha_flow_installed (flow_id req) s then Removing req Getting
           else Answered (Status_of NOT_FOUND ''voltha-flow-not-found''), s)
      | Getting \<Rightarrow>
          (case get_device_flow (flow_id req) s of
             None \<Rightarrow> Answered (Status_of INTERNAL ''device-flow-null-in-cache'')
           | Some d \<Rightarrow> Removing req (Clearing d (device_flow_ids d)), s)
      | Clearing d [] \<Rightarrow> (Removing req (Unlinking d), remove_voltha_flow_from_cache (flow_id req) s)
      | Clearing d (f # fs) \<Rightarrow>
          let (st, s) = FlowRemove P f (df_flow_type d) s
          in (Removing req (if code st = OK then Returning d f fs else Clearing d fs), s)
      | Returning d f fs \<Rightarrow> (Removing req (Clearing d fs), free_flow_id f s)
      | Unlinking d \<Rightarrow>
          (Answered Status_OK, s\<lparr>symmetric_datapath_flow_id_map :=
             (symmetric_datapath_flow_id_map s)(datapath_key req (df_flow_type d) := None)\<rparr>))"

text \<open>One section of a thread; \<open>None\<close> when it has answered or when its search for an id does not return.\<close>

fun flow_thread_step :: "platform \<Rightarrow> flow_thread \<Rightarrow> olt \<Rightarrow> (flow_thread \<times> olt) option" where
  "flow_thread_step P (Adding req pc) s = add_step P req pc s"
| "flow_thread_step P (Removing req pc) s = Some (remove_step P req pc s)"
| "flow_thread_step P (Answered st) s = None"

section \<open>A thread that is not interrupted\<close>

fun finish :: "nat \<Rightarrow> platform \<Rightarrow> flow_thread \<Rightarrow> olt \<Rightarrow> (status \<times> olt) option" where
  "finish n P (Answered st) s = Some (st, s)"
| "finish 0 P th s = None"
| "finish (Suc n) P th s = do { (th, s) \<leftarrow> flow_thread_step P th s; finish n P th s }"

lemma finish_add [simp]:
  "finish (Suc n) P (Adding req pc) s = do { (th, s) \<leftarrow> add_step P req pc s; finish n P th s }"
  "finish (Suc n) P (Removing req q) s = (case remove_step P req q s of (th, s) \<Rightarrow> finish n P th s)"
  by simp_all

lemma finish_freeing: "length fs < n \<Longrightarrow> finish n P (Adding req (Freeing fs st)) s = Some (st, free_flow_ids fs s)"
proof (induction fs arbitrary: n s)
  case Nil
  then show ?case by (cases n) (simp_all add: add_step_def)
next
  case (Cons f fs)
  then show ?case by (cases n) (simp_all add: add_step_def)
qed

lemma finish_storing:
  "1 < n \<Longrightarrow> finish n P (Adding req (Storing d st)) s =
    (let s = update_voltha_flow_to_cache (flow_id req) d s
     in Some (st, if is_datapath_flow req then s\<lparr>symmetric_datapath_flow_id_map := (symmetric_datapath_flow_id_map s)
            (datapath_key (with_valid_onu req) (flow_type req) \<mapsto> flow_id req)\<rparr> else s))"
  by (cases n; cases "n - 1") (simp_all add: add_step_def Let_def)

text \<open>What \<open>FlowAddWrapper_\<close> does once the flow is stored or refused.\<close>

definition conclude :: "flow \<Rightarrow> (status + status) \<times> olt \<Rightarrow> status \<times> olt" where
  "conclude req = (\<lambda>(res, s). case res of
     Inl st \<Rightarrow> (st, s)
   | Inr st \<Rightarrow> (st, if is_datapath_flow req
        then s\<lparr>symmetric_datapath_flow_id_map := (symmetric_datapath_flow_id_map s)
                  (datapath_key (with_valid_onu req) (flow_type req) \<mapsto> flow_id req)\<rparr>
        else s))"

lemma FlowAddWrapper_conclude:
  "FlowAddWrapper P req s =
     (if is_voltha_flow_installed (flow_id req) s
      then Some (Status_of ALREADY_EXISTS ''voltha-flow-already-installed'', s)
      else map_option (conclude req) (add_voltha_flow P (with_valid_onu req) (find_symmetric_flow req s) s))"
  by (auto simp: FlowAddWrapper_def conclude_def Let_def intro!: option.map_cong split: sum.split)

lemma finish_storing_conclude:
  "1 < n \<Longrightarrow> finish n P (Adding req (Storing d st)) s =
     Some (conclude req (Inr st, update_voltha_flow_to_cache (flow_id req) d s))"
  by (simp add: finish_storing conclude_def Let_def)

lemma finish_allocating:
  assumes "11 \<le> n" "r = with_valid_onu req"
  shows "finish n P (Adding req Allocating) s =
    map_option (conclude req) (if \<not> replicate_flow r then add_single P r s else add_with_replication P r s)"
proof -
  obtain m where n: "n = Suc (Suc m)" and m: "9 \<le> m"
    using assms(1) by (cases n; cases "n - 1") auto
  show ?thesis
  proof (cases "replicate_flow r")
    case False
    show ?thesis using False m assms(2)
      by (cases "get_flow_id s")
        (auto simp: n add_step_def add_single_def Let_def conclude_def finish_freeing finish_storing
          split: prod.splits if_splits)
  next
    case True
    show ?thesis
    proof (cases "length (pbit_to_gemport r) > NUMBER_OF_PBITS")
      case True
      then show ?thesis using \<open>replicate_flow r\<close> assms(2)
        by (simp add: n add_step_def add_with_replication_def conclude_def Let_def)
    next
      case False
      show ?thesis
      proof (cases "get_flow_ids (int (length (pbit_to_gemport r))) s")
        case None
        then show ?thesis using \<open>replicate_flow r\<close> False assms(2)
          by (simp add: n add_step_def add_with_replication_def Let_def)
      next
        case (Some x)
        then obtain found fs t where g: "get_flow_ids (int (length (pbit_to_gemport r))) s = Some ((found, fs), t)"
          by (cases x) auto
        have "int (length fs) = int (length (pbit_to_gemport r))"
          using get_flow_ids_Some(3) [OF g] False by simp
        then have "length fs < m" using False m by (simp add: NUMBER_OF_PBITS_def)
        moreover note g' = g [unfolded assms(2) with_valid_onu_sel]
        ultimately show ?thesis using \<open>replicate_flow r\<close> False assms(2) m
          by (auto simp: n g' add_step_def add_with_replication_def conclude_def finish_freeing finish_storing
              Let_def split: prod.splits sum.splits)
      qed
    qed
  qed
qed

lemma finish_installing_symmetric:
  assumes "3 < n" "r = with_valid_onu req"
  shows "finish n P (Adding req (Installing_symmetric symm params)) s =
    Some (conclude req (add_symmetric P r symm params s))"
proof -
  obtain m where n: "n = Suc m" and m: "2 < m" using assms(1) by (cases n) auto
  show ?thesis using m assms(2)
    by (cases "replicate_flow r")
      (auto simp: n add_step_def add_symmetric_def conclude_def finish_freeing finish_storing Let_def
        split: prod.splits sum.splits)
qed

lemma finish_adding:
  assumes "14 \<le> n"
  shows "finish n P (Adding req Reading) s = FlowAddWrapper P req s"
proof -
  obtain m where n: "n = Suc (Suc m)" "12 \<le> m" using assms by (cases n; cases "n - 1") auto
  obtain k where m: "m = Suc k" "11 \<le> k" using n(2) by (cases m) auto
  obtain j where k: "k = Suc j" "3 < j" using m(2) by (cases k) auto
  let ?r = "with_valid_onu req" and ?v = "find_symmetric_flow req s"
  show ?thesis
  proof (cases "is_voltha_flow_installed (flow_id req) s")
    case True
    then show ?thesis by (simp add: n add_step_def FlowAddWrapper_conclude)
  next
    case False
    then have start: "finish n P (Adding req Reading) s =
        finish m P (Adding req (if ?v > 0 then Checking_symmetric ?v else Allocating)) s"
      by (simp add: n(1) add_step_def)
    have alloc: "finish i P (Adding req Allocating) s = map_option (conclude req)
        (if \<not> replicate_flow ?r then add_single P ?r s else add_with_replication P ?r s)" if "11 \<le> i" for i
      using finish_allocating [OF that refl] .
    show ?thesis
    proof (cases "?v > 0 \<and> is_voltha_flow_installed ?v s")
      case True
      then obtain params where p: "get_device_flow_params ?v s = Some params"
        by (auto simp: is_voltha_flow_installed_def get_device_flow_params_def)
      have "finish n P (Adding req Reading) s = finish j P (Adding req (Installing_symmetric ?v params)) s"
        using True p start by (simp add: m(1) k(1) add_step_def)
      then show ?thesis using True False p finish_installing_symmetric [OF k(2) refl]
        by (simp add: FlowAddWrapper_conclude add_voltha_flow_def)
    next
      case no: False
      then have "finish n P (Adding req Reading) s = map_option (conclude req)
          (if \<not> replicate_flow ?r then add_single P ?r s else add_with_replication P ?r s)"
        using start alloc [of m] alloc [of k] n(2) m by (auto simp: add_step_def)
      then show ?thesis using False no by (auto simp: FlowAddWrapper_conclude add_voltha_flow_def)
    qed
  qed
qed

lemma finish_clearing:
  "2 * length fs + 1 < n \<Longrightarrow> finish n P (Removing req (Clearing d fs)) s =
     finish 1 P (Removing req (Unlinking d))
       (remove_voltha_flow_from_cache (flow_id req) (remove_and_free P (df_flow_type d) fs s))"
proof (induction fs arbitrary: n s)
  case Nil
  then show ?case by (cases n; cases "n - 1") (simp_all add: remove_step_def)
next
  case (Cons f fs)
  then obtain m where n: "n = Suc (Suc m)" "2 * length fs + 1 < m" by (cases n; cases "n - 1") auto
  obtain st u where u: "FlowRemove P f (df_flow_type d) s = (st, u)" by fastforce
  show ?case using u n Cons.IH [of m] Cons.IH [of "Suc m"] by (simp add: remove_step_def)
qed

lemma finish_removing:
  assumes "case voltha_flow_to_device_flow s (flow_id req) of None \<Rightarrow> 1 < n
     | Some d \<Rightarrow> 2 * length (device_flow_ids d) + 3 < n"
  shows "finish n P (Removing req Looking_up) s = Some (FlowRemoveWrapper P req s)"
proof -
  obtain m where n: "n = Suc (Suc m)" using assms by (cases n; cases "n - 1") (auto split: option.splits)
  show ?thesis
  proof (cases "voltha_flow_to_device_flow s (flow_id req)")
    case None
    then show ?thesis
      by (simp add: n remove_step_def is_voltha_flow_installed_def FlowRemoveWrapper_def get_device_flow_def)
  next
    case (Some d)
    then have "2 * length (device_flow_ids d) + 1 < m" using assms n by simp
    then show ?thesis using Some
      by (simp add: n remove_step_def is_voltha_flow_installed_def FlowRemoveWrapper_def get_device_flow_def
          finish_clearing Let_def)
  qed
qed

section \<open>Who owns an id\<close>

text \<open>The owner of an id is a thread that has it in hand or an installed flow; an id in use has one owner at most.\<close>

definition exclusive :: "('o \<Rightarrow> uint16 set) \<Rightarrow> nat set \<Rightarrow> bool" where
  "exclusive own B \<longleftrightarrow> (\<forall>i. unat ` own i \<subseteq> B) \<and> (\<forall>i j. i \<noteq> j \<longrightarrow> own i \<inter> own j = {})"

lemma exclusiveD:
  "exclusive own B \<Longrightarrow> unat ` own i \<subseteq> B" "exclusive own B \<Longrightarrow> i \<noteq> j \<Longrightarrow> own i \<inter> own j = {}"
  by (auto simp: exclusive_def)

lemma exclusive_mono: "exclusive own B \<Longrightarrow> B \<subseteq> B' \<Longrightarrow> exclusive own B'"
  by (auto simp: exclusive_def)

lemma exclusive_alloc:
  assumes "exclusive own B" "unat ` F \<inter> B = {}"
  shows "exclusive (own(i := F)) (B \<union> unat ` F)"
proof -
  have "F \<inter> own j = {}" for j using exclusiveD(1) [OF assms(1), of j] assms(2) by blast
  moreover have "unat ` (own(i := F)) j \<subseteq> B \<union> unat ` F" for j
    using exclusiveD(1) [OF assms(1), of j] by auto
  ultimately show ?thesis using exclusiveD(2) [OF assms(1)] by (auto simp: exclusive_def)
qed

lemma exclusive_free:
  assumes "exclusive own B" "f \<in> own i"
  shows "exclusive (own(i := own i - {f})) (B - {unat f})"
proof -
  have "unat g \<noteq> unat f" if "g \<in> own j" "j \<noteq> i" for g j
    using exclusiveD(2) [OF assms(1) that(2)] assms(2) that(1) by (auto dest: unsigned_word_eqI)
  moreover have "unat g \<noteq> unat f" if "g \<noteq> f" for g :: uint16 using that by (auto dest: unsigned_word_eqI)
  ultimately show ?thesis using assms(1) unfolding exclusive_def by auto blast+
qed

lemma exclusive_move:
  "exclusive own B \<Longrightarrow> i \<noteq> j \<Longrightarrow> exclusive (own(j := own i, i := {})) B"
  unfolding exclusive_def by auto

fun in_hand :: "flow_thread \<Rightarrow> uint16 list" where
  "in_hand (Adding req (Installing fs)) = fs"
| "in_hand (Adding req (Freeing fs st)) = fs"
| "in_hand (Adding req (Storing d st)) = device_flow_ids d"
| "in_hand th = []"

definition owned :: "flow_thread list \<Rightarrow> (uint64 \<rightharpoonup> device_flow) \<Rightarrow> nat + uint64 \<Rightarrow> uint16 set" where
  "owned ts C i = (case i of
     Inl t \<Rightarrow> if t < length ts then set (in_hand (ts ! t)) else {}
   | Inr v \<Rightarrow> (case C v of None \<Rightarrow> {} | Some d \<Rightarrow> set (device_flow_ids d)))"

lemma owned_update:
  "t < length ts \<Longrightarrow> owned (ts[t := th]) C = (owned ts C)(Inl t := set (in_hand th))"
  "owned ts (C(v \<mapsto> d)) = (owned ts C)(Inr v := set (device_flow_ids d))"
  by (auto simp: owned_def fun_eq_iff split: sum.split)

section \<open>Adding flows that are not symmetric to each other\<close>

definition fresh_thread :: "flow \<Rightarrow> flow_thread \<Rightarrow> bool" where
  "fresh_thread r th \<longleftrightarrow> (case th of Answered st \<Rightarrow> True | Removing q pc \<Rightarrow> False
     | Adding q pc \<Rightarrow> q = r \<and> (case pc of
         Reading \<Rightarrow> True | Checking v \<Rightarrow> v = 0 | Allocating \<Rightarrow> True
       | Installing fs \<Rightarrow> distinct fs \<and> length fs \<le> NUMBER_OF_PBITS \<and>
           length fs = (if replicate_flow r then length (pbit_to_gemport r) else 1)
       | Freeing fs st \<Rightarrow> distinct fs | Storing d st \<Rightarrow> True | Linking st \<Rightarrow> True | _ \<Rightarrow> False))"

lemma fresh_step_cases:
  assumes th: "fresh_thread r th" and none: "find_symmetric_flow r s = 0"
    and step: "flow_thread_step P th s = Some (th', s')"
  obtains (quiet) "fresh_thread r th'" "set (in_hand th') = set (in_hand th)"
      "voltha_flow_to_device_flow s' = voltha_flow_to_device_flow s" "flow_id_bitset s \<subseteq> flow_id_bitset s'"
      "symmetric_datapath_flow_id_map s' \<in> {symmetric_datapath_flow_id_map s, link_flow r (symmetric_datapath_flow_id_map s)}"
  | (alloc) "fresh_thread r th'" "in_hand th = []" "unat ` set (in_hand th') \<inter> flow_id_bitset s = {}"
      "flow_id_bitset s' = flow_id_bitset s \<union> unat ` set (in_hand th')"
      "voltha_flow_to_device_flow s' = voltha_flow_to_device_flow s"
      "symmetric_datapath_flow_id_map s' = symmetric_datapath_flow_id_map s"
  | (free) f where "fresh_thread r th'" "f \<in> set (in_hand th)" "set (in_hand th') = set (in_hand th) - {f}"
      "flow_id_bitset s' = flow_id_bitset s - {unat f}"
      "voltha_flow_to_device_flow s' = voltha_flow_to_device_flow s"
      "symmetric_datapath_flow_id_map s' = symmetric_datapath_flow_id_map s"
  | (store) d where "fresh_thread r th'" "in_hand th' = []" "set (device_flow_ids d) = set (in_hand th)"
      "voltha_flow_to_device_flow s' = (voltha_flow_to_device_flow s)(flow_id r \<mapsto> d)"
      "flow_id_bitset s' = flow_id_bitset s"
      "symmetric_datapath_flow_id_map s' = symmetric_datapath_flow_id_map s"
proof -
  obtain pc where pc: "th = Adding r pc" using th step by (cases th) (auto simp: fresh_thread_def)
  let ?r = "with_valid_onu r"
  consider "pc = Reading" | "pc = Checking 0" | "pc = Allocating"
    | fs where "pc = Installing fs" | fs st where "pc = Freeing fs st" | d st where "pc = Storing d st"
    | st where "pc = Linking st"
    using th pc by (cases pc) (auto simp: fresh_thread_def)
  then show thesis
  proof cases
    case 1
    then show thesis using step none pc by (intro quiet) (auto simp: add_step_def fresh_thread_def)
  next
    case 2
    then show thesis using step pc
      by (intro quiet) (auto simp: add_step_def fresh_thread_def Let_def split: if_splits)
  next
    case 3
    show thesis
    proof (cases "replicate_flow r")
      case False
      then obtain f where f: "flow_id_search (flow_id_bitset s) 1 = Some f"
        using step pc 3 by (auto simp: add_step_def get_flow_id_eq split: Option.bind_splits)
      then have new: "unat f \<notin> flow_id_bitset s" by (rule flow_id_search_free)
      show thesis
      proof (cases "f = INVALID_FLOW_ID")
        case True
        then show thesis using step pc 3 False f
          by (intro quiet) (auto simp: add_step_def get_flow_id_eq fresh_thread_def)
      next
        case valid: False
        then show thesis using step pc 3 False f new
          by (intro alloc) (auto simp: add_step_def get_flow_id_eq fresh_thread_def NUMBER_OF_PBITS_def)
      qed
    next
      case True
      let ?n = "length (pbit_to_gemport r)"
      show thesis
      proof (cases "?n > NUMBER_OF_PBITS")
        case many: True
        then show thesis using step pc 3 True by (intro quiet) (auto simp: add_step_def fresh_thread_def)
      next
        case False
        then obtain found fs t where g: "get_flow_ids (int ?n) s = Some ((found, fs), t)"
          using step pc 3 True by (auto simp: add_step_def split: Option.bind_splits)
        note ids = get_flow_ids_Some [OF g, unfolded of_nat_le_iff, OF of_nat_0_le_iff]
        have n: "?n \<le> NUMBER_OF_PBITS" using False by simp
        have "th' = Adding r (Installing fs)" "s' = t" using step pc 3 True False g ids(1) [OF n]
          by (simp_all add: add_step_def)
        then show thesis using ids [OF n] n True
          by (intro alloc) (simp_all add: pc 3 fresh_thread_def)
      qed
    qed
  next
    case (4 fs)
    then have fs: "distinct fs" "length fs \<le> NUMBER_OF_PBITS"
        "length fs = (if replicate_flow r then length (pbit_to_gemport r) else 1)"
      using th pc by (simp_all add: fresh_thread_def)
    show thesis
    proof (cases "replicate_flow r")
      case False
      then obtain f where f: "fs = [f]" using fs(3) by (cases fs) auto
      obtain st u where add: "FlowAdd P f (get_aes_flag_for_gem_port (gemport_to_aes ?r)
          (u32_of_int (gemport_id ?r))) ?r s = (st, u)" by fastforce
      note book = flow_book_eqD [OF FlowAdd_book [OF add]]
      have "s' = u" "set (in_hand th') = {f}" "fresh_thread r th'" using step pc 4 f False add
        by (auto simp: add_step_def Let_def fresh_thread_def split: if_splits)
      then show thesis using book pc 4 f by (intro quiet) simp_all
    next
      case True
      let ?ds = "replicated_params (pbit_to_gemport r) fs"
      obtain q u where add: "add_replicated P ?r (\<lambda>st. code st = OK) Status_OK ?ds [] s = (q, u)" by fastforce
      note book = flow_book_eqD [OF add_replicated_book [OF add]]
      have "map dfp_flow_id ?ds = fs" using fs(3) True by (simp add: replicated_params_ids)
      then have "s' = u" "set (in_hand th') = set fs" "fresh_thread r th'" using step pc 4 True add fs
        by (auto simp: add_step_def Let_def fresh_thread_def split: sum.splits)
      then show thesis using book pc 4 by (intro quiet) simp_all
    qed
  next
    case (5 fs st)
    show thesis
    proof (cases fs)
      case Nil
      then show thesis using step pc 5 by (intro quiet) (auto simp: add_step_def fresh_thread_def)
    next
      case (Cons f gs)
      then show thesis using step pc 5 th
        by (intro free [of f]) (auto simp: add_step_def fresh_thread_def free_flow_id_def)
    qed
  next
    case (6 d st)
    then show thesis using step pc
      by (intro store [of d]) (auto simp: add_step_def fresh_thread_def update_voltha_flow_to_cache_def)
  next
    case (7 st)
    then show thesis using step pc
      by (intro quiet) (auto simp: add_step_def fresh_thread_def link_flow_def Let_def)
  qed
qed

text \<open>None of the flows is the symmetric flow of an installed one or of another.\<close>

definition inverse_key :: "flow \<Rightarrow> symmetric_key" where
  "inverse_key r = datapath_key r (if flow_type r = upstream then downstream else upstream)"

definition unrelated :: "flow list \<Rightarrow> (symmetric_key \<rightharpoonup> uint64) \<Rightarrow> bool" where
  "unrelated rs m \<longleftrightarrow> (\<forall>r\<in>set rs. is_datapath_flow r \<longrightarrow> m (inverse_key r) = None \<and>
     (\<forall>q\<in>set rs. datapath_key (with_valid_onu q) (flow_type q) \<noteq> inverse_key r))"

lemma unrelated_find:
  "unrelated rs (symmetric_datapath_flow_id_map s) \<Longrightarrow> r \<in> set rs \<Longrightarrow> find_symmetric_flow r s = 0"
  by (auto simp: unrelated_def find_symmetric_flow_def inverse_key_def)

lemma unrelated_link: "unrelated rs m \<Longrightarrow> q \<in> set rs \<Longrightarrow> unrelated rs (link_flow q m)"
  unfolding unrelated_def link_flow_def by (simp split: if_split) metis

definition adds_inv :: "flow list \<Rightarrow> flow_thread list \<times> olt \<Rightarrow> bool" where
  "adds_inv rs c \<longleftrightarrow> (case c of (ts, s) \<Rightarrow>
     length ts = length rs \<and> (\<forall>i<length rs. fresh_thread (rs ! i) (ts ! i)) \<and>
     unrelated rs (symmetric_datapath_flow_id_map s) \<and>
     exclusive (owned ts (voltha_flow_to_device_flow s)) (flow_id_bitset s))"

lemma adds_inv_step:
  assumes inv: "adds_inv rs (ts, s)" and i: "i < length ts" and step: "flow_thread_step P (ts ! i) s = Some (th, s')"
  shows "adds_inv rs (ts[i := th], s')"
proof -
  let ?C = "voltha_flow_to_device_flow s"
  have len: "length ts = length rs" and th: "fresh_thread (rs ! i) (ts ! i)"
    and m: "unrelated rs (symmetric_datapath_flow_id_map s)"
    and ex: "exclusive (owned ts ?C) (flow_id_bitset s)"
    using inv i by (auto simp: adds_inv_def)
  have r: "rs ! i \<in> set rs" using i len by simp
  have hand: "owned ts ?C (Inl i) = set (in_hand (ts ! i))" using i by (simp add: owned_def)
  have concl: "adds_inv rs (ts[i := th], s')" if "fresh_thread (rs ! i) th"
      "unrelated rs (symmetric_datapath_flow_id_map s')"
      "exclusive (owned (ts[i := th]) (voltha_flow_to_device_flow s')) (flow_id_bitset s')"
  proof -
    have "fresh_thread (rs ! j) (ts[i := th] ! j)" if "j < length rs" for j
      using inv that \<open>fresh_thread (rs ! i) th\<close> len by (cases "j = i") (auto simp: adds_inv_def)
    then show ?thesis using that len by (simp add: adds_inv_def)
  qed
  from th unrelated_find [OF m r] step show ?thesis
  proof (cases rule: fresh_step_cases)
    case quiet
    have "owned (ts[i := th]) ?C = owned ts ?C"
      using quiet(2) hand owned_update(1) [OF i] by (simp add: fun_upd_idem)
    then show ?thesis using quiet m unrelated_link [OF m r] exclusive_mono [OF ex]
      by (intro concl) auto
  next
    case alloc
    then show ?thesis using m exclusive_alloc [OF ex, of "set (in_hand th)" "Inl i"]
      by (intro concl) (simp_all add: owned_update(1) [OF i])
  next
    case (free f)
    then show ?thesis using m exclusive_free [OF ex, of f "Inl i"]
      by (intro concl) (simp_all add: owned_update(1) [OF i] hand)
  next
    case (store d)
    have "exclusive ((owned ts ?C)(Inr (flow_id (rs ! i)) := owned ts ?C (Inl i), Inl i := {})) (flow_id_bitset s)"
      by (rule exclusive_move [OF ex]) simp
    then show ?thesis using store m
      by (intro concl) (simp_all add: owned_update(1) [OF i] owned_update(2) hand fun_upd_twist)
  qed
qed

interpretation concurrent_adds: step_invariant "adds_inv rs" "interleaved (flow_thread_step P)" "adds_inv rs" for rs P
proof
  fix c c' :: "flow_thread list \<times> olt"
  assume inv: "adds_inv rs c" and step: "interleaved (flow_thread_step P) c c'"
  from step inv show "adds_inv rs c'" by (cases rule: interleaved.cases) (auto intro: adds_inv_step)
qed

lemma adds_inv_start:
  assumes "unrelated rs (symmetric_datapath_flow_id_map s)"
    and "\<forall>v d. voltha_flow_to_device_flow s v = Some d \<longrightarrow> unat ` set (device_flow_ids d) \<subseteq> flow_id_bitset s"
    and "\<forall>v w d e. voltha_flow_to_device_flow s v = Some d \<longrightarrow> voltha_flow_to_device_flow s w = Some e \<longrightarrow> v \<noteq> w \<longrightarrow>
       set (device_flow_ids d) \<inter> set (device_flow_ids e) = {}"
  shows "adds_inv rs (map (\<lambda>r. Adding r Reading) rs, s)"
proof -
  have none: "owned (map (\<lambda>r. Adding r Reading) rs) C (Inl i) = {}" for C i by (simp add: owned_def)
  have some: "owned (map (\<lambda>r. Adding r Reading) rs) C (Inr v) = (case C v of None \<Rightarrow> {} | Some d \<Rightarrow> set (device_flow_ids d))"
    for C v by (simp add: owned_def)
  let ?own = "owned (map (\<lambda>r. Adding r Reading) rs) (voltha_flow_to_device_flow s)"
  have "unat ` ?own i \<subseteq> flow_id_bitset s" for i
    using assms(2) by (cases i) (auto simp: none some split: option.split)
  moreover have "?own i \<inter> ?own j = {}" if "i \<noteq> j" for i j
  proof (cases i)
    case (Inr v)
    then show ?thesis using assms(3) that by (cases j) (auto simp: none some split: option.split)
  qed (simp add: none)
  ultimately have "exclusive ?own (flow_id_bitset s)" by (simp add: exclusive_def)
  then show ?thesis using assms(1) by (simp add: adds_inv_def fresh_thread_def)
qed

section \<open>Several sections of one thread in a row\<close>

lemma thread_run_checks:
  "find_symmetric_flow r s = 0 \<Longrightarrow> voltha_flow_to_device_flow s (flow_id r) = None \<Longrightarrow>
   thread_run (flow_thread_step P) 2 (Adding r Reading) s = Some (Adding r Allocating, s)"
  by (simp add: numeral_2_eq_2 add_step_def is_voltha_flow_installed_def)

lemma thread_run_adds:
  assumes "thread_run (flow_thread_step P) 4 (Adding r Allocating) s = Some (Answered st, s')" "code st = OK" "\<not> replicate_flow r"
  obtains f d where "flow_id_search (flow_id_bitset s) 1 = Some f" "device_flow_ids d = [f]"
    "voltha_flow_to_device_flow s' = (voltha_flow_to_device_flow s)(flow_id r \<mapsto> d)"
    "flow_id_bitset s' = insert (unat f) (flow_id_bitset s)"
proof -
  let ?r = "with_valid_onu r"
  have four: "(4 :: nat) = Suc (Suc (Suc (Suc 0)))" by simp
  obtain f where f: "flow_id_search (flow_id_bitset s) 1 = Some f"
    using assms(1,3) by (auto simp: four add_step_def get_flow_id_eq split: Option.bind_splits)
  let ?s = "s\<lparr>flow_id_bitset := insert (unat f) (flow_id_bitset s)\<rparr>"
  have valid: "f \<noteq> INVALID_FLOW_ID"
    using assms f by (auto simp: four add_step_def get_flow_id_eq)
  obtain st1 u where add: "FlowAdd P f (get_aes_flag_for_gem_port (gemport_to_aes ?r)
      (u32_of_int (gemport_id ?r))) ?r ?s = (st1, u)" by fastforce
  note book = flow_book_eqD [OF FlowAdd_book [OF add]]
  let ?d = "single_flow P (ucast INVALID_FLOW_ID) ?r \<lparr>dfp_pbit = ucast (o_pbits (f_classifier ?r)),
                     dfp_gemport_id = u32_of_int (gemport_id ?r), dfp_flow_id = f\<rparr> u"
  have ok: "code st1 = OK"
    using assms f valid add by (auto simp: four add_step_def get_flow_id_eq Let_def split: if_splits)
  then have "voltha_flow_to_device_flow s' = (voltha_flow_to_device_flow u)(flow_id r \<mapsto> ?d) \<and>
      flow_id_bitset s' = flow_id_bitset u"
    using assms f valid add
    by (cases "is_datapath_flow r")
      (auto simp: four add_step_def get_flow_id_eq Let_def update_voltha_flow_to_cache_def)
  then show thesis using that [OF f, of ?d] book by simp
qed

lemma thread_run_looks_up:
  "voltha_flow_to_device_flow s (flow_id r) = Some d \<Longrightarrow>
   thread_run (flow_thread_step P) 2 (Removing r Looking_up) s = Some (Removing r (Clearing d (device_flow_ids d)), s)"
  by (simp add: numeral_2_eq_2 remove_step_def is_voltha_flow_installed_def get_device_flow_def)

lemma thread_run_removes:
  assumes "clears_accepted P" "flow_key_type (df_flow_type d) \<noteq> None"
  obtains s' where "thread_run (flow_thread_step P) 4 (Removing r (Clearing d [x])) s = Some (Answered Status_OK, s')"
    "voltha_flow_to_device_flow s' = (voltha_flow_to_device_flow s)(flow_id r := None)"
    "flow_id_bitset s' = flow_id_bitset s - {unat x}"
    "flow_to_acl_map s (acl_key (df_flow_type d) x) = None \<longrightarrow> acl_state s' = acl_state s"
proof -
  have four: "(4 :: nat) = Suc (Suc (Suc (Suc 0)))" by simp
  obtain st u where u: "FlowRemove P x (df_flow_type d) s = (st, u)" by fastforce
  then have "code st = OK" using FlowRemove_accepted [OF assms, of x s] by simp
  then show thesis using that u flow_book_eqD [OF FlowRemove_book [OF u]] FlowRemove_no_acl [OF u _ assms(2)]
    by (simp add: four remove_step_def remove_voltha_flow_from_cache_def free_flow_id_def)
qed

section \<open>Properties\<close>




text \<open>
  C9: two threads that add the same flow at the same time.  Both find it not installed, both answer OK, the second
  entry replaces the first in the cache, and the id the first took is never given back: it is in use and
  no installed flow has it.
\<close>

theorem concurrent_adds_leak_id:
  assumes "\<not> replicate_flow r" "find_symmetric_flow r s = 0" "voltha_flow_to_device_flow s (flow_id r) = None"
    and "\<forall>v d. voltha_flow_to_device_flow s v = Some d \<longrightarrow> unat ` set (device_flow_ids d) \<subseteq> flow_id_bitset s"
    and "run_schedule (flow_thread_step P) (replicate 2 0 @ replicate 2 1 @ replicate 4 0 @ replicate 4 1)
           ([Adding r Reading, Adding r Reading], s) = Some ([Answered st1, Answered st2], s')"
    and "code st1 = OK" "code st2 = OK"
  shows "\<exists>f. unat f \<in> flow_id_bitset s' \<and> unat f \<notin> flow_id_bitset s \<and>
    (\<forall>v d. voltha_flow_to_device_flow s' v = Some d \<longrightarrow> f \<notin> set (device_flow_ids d))"
proof -
  note check = thread_run_checks [OF assms(2,3), of P]
  obtain s1 where first: "thread_run (flow_thread_step P) 4 (Adding r Allocating) s = Some (Answered st1, s1)"
      and second: "thread_run (flow_thread_step P) 4 (Adding r Allocating) s1 = Some (Answered st2, s')"
    using assms(5) by (auto simp: run_schedule_append run_schedule_replicate check bind_eq_Some_conv)
  obtain f d where f: "flow_id_search (flow_id_bitset s) 1 = Some f" "device_flow_ids d = [f]"
      "voltha_flow_to_device_flow s1 = (voltha_flow_to_device_flow s)(flow_id r \<mapsto> d)"
      "flow_id_bitset s1 = insert (unat f) (flow_id_bitset s)"
    using thread_run_adds [OF first assms(6,1)] .
  obtain g e where g: "flow_id_search (flow_id_bitset s1) 1 = Some g" "device_flow_ids e = [g]"
      "voltha_flow_to_device_flow s' = (voltha_flow_to_device_flow s1)(flow_id r \<mapsto> e)"
      "flow_id_bitset s' = insert (unat g) (flow_id_bitset s1)"
    using thread_run_adds [OF second assms(7,1)] .
  have new: "unat f \<notin> flow_id_bitset s" "unat g \<notin> flow_id_bitset s1"
    using flow_id_search_free f(1) g(1) by blast+
  have "f \<notin> set (device_flow_ids d')" if "voltha_flow_to_device_flow s' v = Some d'" for v d'
  proof (cases "v = flow_id r")
    case True
    then show ?thesis using that f(4) g(2,3) new by auto
  next
    case False
    then have "unat ` set (device_flow_ids d') \<subseteq> flow_id_bitset s" using that f(3) g(3) assms(4) by simp
    then show ?thesis using new(1) by blast
  qed
  then show ?thesis using new f(4) g(4) by blast
qed

lemma sample_trap_thread:
  assumes "flow_id_search (flow_id_bitset s) 1 = Some f" "f \<noteq> 0"
    and "finite (acl_id_bitset s)" "card (acl_id_bitset s) < MAX_ACL_ID"
  obtains s' where "thread_run (flow_thread_step (const_platform ok_rsp)) 4 (Adding sample_trap_flow Allocating) s = Some (Answered Status_OK, s')"
    "finite (acl_id_bitset s')" "card (acl_id_bitset s') \<le> Suc (card (acl_id_bitset s))"
proof -
  have four: "(4 :: nat) = Suc (Suc (Suc (Suc 0)))" by simp
  have data: "\<not> is_datapath_flow sample_trap_flow" by (simp add: is_datapath_flow_def)
  have "code Status_OK = OK" by (simp add: Status_OK_def)
  moreover obtain u where "FlowAdd (const_platform ok_rsp) f (get_aes_flag_for_gem_port (gemport_to_aes sample_trap_flow)
      (u32_of_int (gemport_id sample_trap_flow))) sample_trap_flow
      (s\<lparr>flow_id_bitset := insert (unat f) (flow_id_bitset s)\<rparr>) = (Status_OK, u)"
    "finite (acl_id_bitset u)" "card (acl_id_bitset u) \<le> Suc (card (acl_id_bitset s))"
    using sample_trap_FlowAdd [of "s\<lparr>flow_id_bitset := insert (unat f) (flow_id_bitset s)\<rparr>"] assms(3,4) by auto
  ultimately show thesis using that assms(1,2) data
    by (simp add: four add_step_def get_flow_id_eq INVALID_FLOW_ID_def Let_def update_voltha_flow_to_cache_def)
qed

theorem concurrent_adds_leak_id_witness:
  "\<exists>s'. run_schedule (flow_thread_step (const_platform ok_rsp)) (replicate 2 0 @ replicate 2 1 @ replicate 4 0 @ replicate 4 1)
       ([Adding sample_trap_flow Reading, Adding sample_trap_flow Reading], init_olt) =
       Some ([Answered Status_OK, Answered Status_OK], s') \<and>
     (\<exists>f. unat f \<in> flow_id_bitset s' \<and>
       (\<forall>v d. voltha_flow_to_device_flow s' v = Some d \<longrightarrow> f \<notin> set (device_flow_ids d)))"
proof -
  let ?P = "const_platform ok_rsp" and ?r = sample_trap_flow
  have none: "find_symmetric_flow ?r s = 0" for s by (simp add: find_symmetric_flow_def is_datapath_flow_def)
  have ok: "code Status_OK = OK" by (simp add: Status_OK_def)
  have check: "thread_run (flow_thread_step ?P) 2 (Adding ?r Reading) init_olt = Some (Adding ?r Allocating, init_olt)"
    by (intro thread_run_checks none) simp
  obtain s1 where first: "thread_run (flow_thread_step ?P) 4 (Adding ?r Allocating) init_olt = Some (Answered Status_OK, s1)"
      "finite (acl_id_bitset s1)" "card (acl_id_bitset s1) \<le> Suc (card (acl_id_bitset init_olt))"
    using sample_trap_thread [of init_olt 1] by (auto simp: init_olt_sel MAX_ACL_ID_def)
  have "flow_id_bitset s1 = {1}" using thread_run_adds [OF first(1) ok] by simp
  moreover have "flow_id_search {1} 1 = Some 2"
    using flow_id_search_least [of 1 2 "{1}"] by (simp add: atLeastLessThan_nat_numeral numeral_2_eq_2 atLeastLessThanSuc)
  ultimately obtain s2 where "thread_run (flow_thread_step ?P) 4 (Adding ?r Allocating) s1 = Some (Answered Status_OK, s2)"
    using sample_trap_thread [of s1 2] first(2,3) by (auto simp: init_olt_sel MAX_ACL_ID_def)
  then have run: "run_schedule (flow_thread_step ?P) (replicate 2 0 @ replicate 2 1 @ replicate 4 0 @ replicate 4 1)
      ([Adding ?r Reading, Adding ?r Reading], init_olt) = Some ([Answered Status_OK, Answered Status_OK], s2)"
    using first(1) check by (simp add: run_schedule_append run_schedule_replicate)
  show ?thesis using concurrent_adds_leak_id [OF _ none _ _ run ok ok] run by auto
qed



end
