(* ===== verification/Subscriber.thy ===== *)
theory Subscriber
  imports System
begin

text \<open>
  A subscriber from creation to removal (\<open>agent/src/core_api_handler.cc\<close>): \<open>CreateTrafficSchedulers_\<close>,
  \<open>CreateTrafficQueues_\<close>, \<open>RemoveTrafficQueues_\<close> and \<open>RemoveTrafficSchedulers_\<close> one after the other, and what is left
  in the tables of schedulers, mapping profiles and QoS types; and the orders of the requests after which
  something is left.
\<close>

section \<open>The tables of the traffic manager\<close>

definition profile_view :: "olt \<Rightarrow>
    (sched_qmp_id_map_key, int) omap \<times> (int, uint32 list) omap \<times> nat set \<times>
    (uint32 \<times> uint32 \<times> uint32 \<rightharpoonup> egress_qos_type)" where
  "profile_view s = (sched_qmp_id_map s, qmp_id_to_qmp_map s, tm_qmp_bitset s, qos_type_map s)"

definition sched_view :: "olt \<Rightarrow> (sched_map_key \<rightharpoonup> int) \<times> nat set" where
  "sched_view s = (sched_map s, tm_sched_bitset s)"

definition tm_view :: "olt \<Rightarrow> _" where
  "tm_view s = (sched_view s, profile_view s)"

lemmas view_defs = tm_view_def sched_view_def profile_view_def

lemma tm_view_agent_part: "agent_part s' = agent_part s \<Longrightarrow> tm_view s' = tm_view s"
  by (metis (no_types) agent_part_sel(4-9) view_defs)

lemma tm_view_other [simp]:
  "tm_view (s\<lparr>bal_trace := t\<rparr>) = tm_view s" "tm_view (s\<lparr>pon_gem_to_onu_uni_map := g\<rparr>) = tm_view s"
  by (simp_all add: view_defs)

lemma tm_inv_view: "tm_view s' = tm_view s \<Longrightarrow> tm_inv s' = tm_inv s"
  by (simp add: view_defs tm_inv_def sched_inv_def qmp_inv_def)

section \<open>Schedulers\<close>

abbreviation key_of :: "uint32 \<Rightarrow> uint32 \<Rightarrow> uint32 \<Rightarrow> string \<Rightarrow> uint32 \<Rightarrow> sched_map_key" where
  "key_of i n u d tp \<equiv> sched_key (uint i) (uint n) (uint u) d (uint tp)"

definition sched_keys :: "traffic_schedulers \<Rightarrow> sched_map_key set" where
  "sched_keys req = (\<lambda>ts. key_of (tss_intf_id req) (tss_onu_id req) (tss_uni_id req) (GetDirection (ts_direction ts))
     (ts_tech_profile_id ts)) ` set (tss_scheds req)"

lemma sched_key_sint: "sched_key (sint i) (sint n) (sint u) d (sint tp) = key_of i n u d tp"
  by (simp add: sched_key_def u32_of_int_def)

lemma get_tm_sched_id_map:
  "get_tm_sched_id i n u d tp s = (k, s') \<Longrightarrow> profile_view s' = profile_view s \<and>
     (\<forall>x. x \<noteq> sched_key i n u d tp \<longrightarrow> sched_map s' x = sched_map s x)"
  by (auto simp: get_tm_sched_id_def tm_sched_alloc_def profile_view_def Let_def split: if_splits option.splits)

lemma CreateSched_map:
  assumes "CreateSched P d i n u ts s = (e, s')"
  shows "profile_view s' = profile_view s \<and>
    (\<forall>x. x \<noteq> key_of i n u d (ts_tech_profile_id ts) \<longrightarrow> sched_map s' x = sched_map s x)"
proof (cases "d = downstream")
  case True
  obtain k t where g: "get_tm_sched_id (uint i) (uint n) (uint u) d (uint (ts_tech_profile_id ts)) s = (k, t)"
    by fastforce
  have "tm_view s' = tm_view t"
    using assms True g by (auto simp: CreateSched_def CreateSched_downstream_def bal_err_def bal_call_def)
  then have "sched_map s' = sched_map t" "profile_view s' = profile_view t" by (simp_all add: tm_view_def sched_view_def)
  then show ?thesis using get_tm_sched_id_map [OF g] by simp
next
  case False
  then have "agent_part s' = agent_part s" using assms CreateSched_upstream_frame by (simp add: CreateSched_def)
  from tm_view_agent_part [OF this] show ?thesis by (simp add: tm_view_def sched_view_def)
qed

lemma create_scheds_map:
  "create_scheds P i n u tss s = (st, s') \<Longrightarrow> profile_view s' = profile_view s \<and>
     (\<forall>x. x \<notin> (\<lambda>ts. key_of i n u (GetDirection (ts_direction ts)) (ts_tech_profile_id ts)) ` set tss \<longrightarrow>
        sched_map s' x = sched_map s x)"
proof (induction tss arbitrary: s)
  case (Cons ts tss)
  obtain e t where c: "CreateSched P (GetDirection (ts_direction ts)) i n u ts s = (e, t)" by fastforce
  then have "s' = s \<or> s' = t \<or> create_scheds P i n u tss t = (st, s')"
    using Cons.prems by (auto simp: Let_def split: if_splits)
  then show ?case using CreateSched_map [OF c] Cons.IH [of t] by (elim disjE) simp_all
qed simp

lemma free_tm_sched_id_map:
  "sched_map (free_tm_sched_id i n u d tp s) = (sched_map s)(sched_key i n u d tp := None)"
  "profile_view (free_tm_sched_id i n u d tp s) = profile_view s"
  by (auto simp: free_tm_sched_id_def profile_view_def Let_def fun_upd_idem split: option.split)

lemma RemoveSched_map:
  assumes "RemoveSched P i n u a d tp s = (BCM_ERR_OK, s')" "sched_inv s"
  shows "sched_map s' = (sched_map s)(sched_key i n u d tp := None)" "profile_view s' = profile_view s"
proof -
  let ?k = "sched_key i n u d tp"
  have "\<exists>t. tm_view t = tm_view s \<and> (s' = free_tm_sched_id i n u d tp t \<or> s' = t \<and> sched_map s ?k = None)"
  proof -
    consider "d = upstream" | "d = downstream" "sched_map s ?k = None" | j where "d = downstream" "sched_map s ?k = Some j"
      | "d \<noteq> upstream" "d \<noteq> downstream" by blast
    then show ?thesis
    proof cases
      case 1
      then show ?thesis using assms(1)
        by (auto simp: RemoveSched_def Let_def split: prod.splits if_splits dest!: alloc_frames) (metis tm_view_agent_part)+
    next
      case 2
      then show ?thesis using assms(1) by (auto simp: RemoveSched_def is_tm_sched_id_present_def upstream_def downstream_def)
    next
      case 3
      then show ?thesis using assms(1) get_tm_sched_id_cached [OF assms(2) 3(2)]
        by (auto simp: RemoveSched_def is_tm_sched_id_present_def upstream_def downstream_def bal_err_def bal_call_def Let_def
            split: if_splits) (metis tm_view_other(1))
    next
      case 4
      then show ?thesis using assms(1) by (auto simp: RemoveSched_def)
    qed
  qed
  then obtain t where t: "tm_view t = tm_view s"
      "s' = free_tm_sched_id i n u d tp t \<or> s' = t \<and> sched_map s ?k = None" by blast
  then show "sched_map s' = (sched_map s)(?k := None)" "profile_view s' = profile_view s"
    using free_tm_sched_id_map [of i n u d tp t] by (auto simp: view_defs fun_upd_idem)
qed

lemma remove_scheds_map:
  assumes "remove_scheds P i n u tss s = (st, s')" "code st = OK" "sched_inv s"
  shows "profile_view s' = profile_view s"
    and "sched_map s' = sched_map s |` (- (\<lambda>ts. key_of i n u (GetDirection (ts_direction ts)) (ts_tech_profile_id ts)) ` set tss)"
proof -
  have "profile_view s' = profile_view s \<and>
      sched_map s' = sched_map s |` (- (\<lambda>ts. key_of i n u (GetDirection (ts_direction ts)) (ts_tech_profile_id ts)) ` set tss)"
    using assms
  proof (induction tss arbitrary: s)
    case Nil
    then show ?case by (simp add: restrict_map_def)
  next
    case (Cons ts tss)
    let ?d = "GetDirection (ts_direction ts)"
    obtain e t where r: "RemoveSched P (sint i) (sint n) (sint u) (sint (ts_alloc_id ts)) ?d
        (sint (ts_tech_profile_id ts)) s = (e, t)" by fastforce
    have ok: "e = BCM_ERR_OK" "remove_scheds P i n u tss t = (st, s')"
      using Cons.prems(1,2) r by (auto simp: Let_def split: if_splits)
    note m = RemoveSched_map [OF r [unfolded ok(1)] Cons.prems(3), unfolded sched_key_sint]
    have "sched_inv t" using sched_inv_RemoveSched [OF Cons.prems(3) r] .
    from Cons.IH [OF ok(2) Cons.prems(2) this] m show ?case
      by (auto simp: restrict_map_def fun_eq_iff)
  qed
  then show "profile_view s' = profile_view s"
    "sched_map s' = sched_map s |` (- (\<lambda>ts. key_of i n u (GetDirection (ts_direction ts)) (ts_tech_profile_id ts)) ` set tss)"
    by blast+
qed

section \<open>Queues\<close>

text \<open>The scheduler of the queues is that of the uplink, or one the subscriber has.\<close>

definition has_scheduler :: "string \<Rightarrow> traffic_queues \<Rightarrow> olt \<Rightarrow> bool" where
  "has_scheduler d req s \<longleftrightarrow> d = upstream \<or>
     d = downstream \<and>
       sched_map s (key_of (tqs_intf_id req) (tqs_onu_id req) (tqs_uni_id req) d (tqs_tech_profile_id req)) \<noteq> None"

definition queues_sched :: "platform \<Rightarrow> string \<Rightarrow> traffic_queues \<Rightarrow> olt \<Rightarrow> uint32" where
  "queues_sched P d req s =
     (if d = upstream then u32_of_int (get_default_tm_sched_id P (sint (tqs_network_intf_id req)) d)
      else u32_of_int (the (sched_map s (key_of (tqs_intf_id req) (tqs_onu_id req) (tqs_uni_id req) d
                                           (tqs_tech_profile_id req)))))"

definition profile_key :: "platform \<Rightarrow> string \<Rightarrow> traffic_queues \<Rightarrow> olt \<Rightarrow> sched_qmp_id_map_key" where
  "profile_key P d req s = (queues_sched P d req s, tqs_intf_id req, tqs_onu_id req, tqs_uni_id req)"

lemma upstream_neq_downstream [simp]: "upstream \<noteq> downstream" "downstream \<noteq> upstream"
  by (simp_all add: upstream_def downstream_def)

lemma queue_sched_id_has_scheduler:
  assumes "sched_inv s" "has_scheduler d req s"
  shows "queue_sched_id P d (tqs_network_intf_id req) (tqs_intf_id req) (tqs_onu_id req) (tqs_uni_id req)
     (tqs_tech_profile_id req) s = (queues_sched P d req s, s)"
  using assms get_tm_sched_id_cached [OF assms(1)]
  by (auto simp: has_scheduler_def queue_sched_id_def queues_sched_def)

lemma has_scheduler_view: "sched_map t = sched_map s \<Longrightarrow> has_scheduler d req t = has_scheduler d req s"
  by (simp add: has_scheduler_def)

lemma profile_key_view: "sched_map t = sched_map s \<Longrightarrow> profile_key P d req t = profile_key P d req s"
  by (simp add: profile_key_def queues_sched_def)

lemma tm_view_sched_map: "tm_view t = tm_view s \<Longrightarrow> sched_map t = sched_map s"
  by (simp add: view_defs)

lemma CreateQueue_view:
  assumes "sched_inv s" "has_scheduler d req s"
    and "CreateQueue P d (tqs_network_intf_id req) (tqs_intf_id req) (tqs_onu_id req) (tqs_uni_id req) qos prio gem
           (tqs_tech_profile_id req) s = (e, s')"
  shows "tm_view s' = tm_view s"
  using assms(3) queue_sched_id_has_scheduler [OF assms(1,2), of P]
  by (auto simp: CreateQueue_def Let_def bal_err_def bal_call_def split: prod.splits if_splits
      dest!: install_gem_port_cases dest: tm_view_agent_part)

lemma create_queues_view:
  assumes "create_queues P req qos qs s = (st, s')" "\<forall>q\<in>set qs. GetDirection (tq_direction q) = d"
    and "tm_inv s" "has_scheduler d req s"
  shows "tm_view s' = tm_view s"
  using assms
proof (induction qs arbitrary: s)
  case (Cons q qs)
  obtain e t where c: "CreateQueue P d (tqs_network_intf_id req) (tqs_intf_id req) (tqs_onu_id req) (tqs_uni_id req) qos
      (tq_priority q) (tq_gemport_id q) (tqs_tech_profile_id req) s = (e, t)" by fastforce
  then have t: "tm_view t = tm_view s" using Cons.prems(3,4) by (intro CreateQueue_view) (auto simp: tm_inv_def)
  have "s' = s \<or> s' = t \<or> create_queues P req qos qs t = (st, s')"
    using Cons.prems(1,2) c by (auto simp: Let_def split: if_splits)
  then show ?case
  proof (elim disjE)
    assume "create_queues P req qos qs t = (st, s')"
    moreover have "tm_inv t" "has_scheduler d req t"
      using Cons.prems(3,4) tm_inv_view [OF t] has_scheduler_view [OF tm_view_sched_map [OF t]] by simp_all
    ultimately show ?thesis using Cons.IH [of t] Cons.prems(2) t by simp
  qed (use t in simp_all)
qed simp

lemma RemoveQueue_view:
  assumes "tm_inv s" "has_scheduler d req s"
    and "RemoveQueue P d (tqs_intf_id req) (tqs_onu_id req) (tqs_uni_id req) qos prio gem (tqs_tech_profile_id req) s =
      Some (e, s')"
  shows "tm_view s' = tm_view s"
proof -
  let ?k = "key_of (tqs_intf_id req) (tqs_onu_id req) (tqs_uni_id req) d (tqs_tech_profile_id req)"
  obtain st t where r: "remove_gem_port P (sint (tqs_intf_id req)) (sint (tqs_onu_id req)) (sint (tqs_uni_id req))
      (sint gem) (board_technology s) s = (st, t)" by fastforce
  have t: "tm_view t = tm_view s" using remove_gem_port_cases [OF r] tm_view_agent_part by blast
  consider "d = upstream" | j where "d = downstream" "sched_map s ?k = Some j"
    using assms(2) by (auto simp: has_scheduler_def)
  then show ?thesis
  proof cases
    case 1
    then show ?thesis using assms(3) r t by (auto simp: RemoveQueue_def Let_def)
  next
    case 2
    have "sched_inv t" using assms(1) tm_inv_view [OF t] by (simp add: tm_inv_def)
    moreover have "sched_map t ?k = Some j" using 2(2) tm_view_sched_map [OF t] by simp
    ultimately have g: "get_tm_sched_id (uint (tqs_intf_id req)) (uint (tqs_onu_id req)) (uint (tqs_uni_id req)) d
        (uint (tqs_tech_profile_id req)) t = (u32_of_int j, t)" by (rule get_tm_sched_id_cached)
    then show ?thesis using assms(3) r t 2 \<open>sched_map t ?k = Some j\<close>
      by (auto simp: RemoveQueue_def is_tm_sched_id_present_def bal_err_def bal_call_def Let_def
          split: Option.bind_splits prod.splits)
  qed
qed

lemma remove_queues_view:
  assumes "remove_queues P req qos qs st d0 s = Some ((fin, st', d'), s')" "fin"
    and "\<forall>q\<in>set qs. GetDirection (tq_direction q) = d" "tm_inv s" "has_scheduler d req s"
  shows "tm_view s' = tm_view s \<and> d' = (if qs = [] then d0 else d)"
  using assms
proof (induction qs arbitrary: s st d0)
  case (Cons q qs)
  obtain e t where c: "RemoveQueue P d (tqs_intf_id req) (tqs_onu_id req) (tqs_uni_id req) qos (tq_priority q)
        (tq_gemport_id q) (tqs_tech_profile_id req) s = Some (e, t)"
      and "\<exists>st. remove_queues P req qos qs st d t = Some ((fin, st', d'), s')"
    using Cons.prems(1,2,3) by (auto simp: Let_def split: if_splits Option.bind_splits)
  then obtain st1 where r: "remove_queues P req qos qs st1 d t = Some ((fin, st', d'), s')" by blast
  have t: "tm_view t = tm_view s" using RemoveQueue_view [OF Cons.prems(4,5) c] .
  have inv: "tm_inv t" "has_scheduler d req t"
    using Cons.prems(4,5) tm_inv_view [OF t] has_scheduler_view [OF tm_view_sched_map [OF t]] by simp_all
  have "\<forall>q\<in>set qs. GetDirection (tq_direction q) = d" using Cons.prems(3) by simp
  from Cons.IH [OF r Cons.prems(2) this inv] show ?case using t by simp
qed simp

section \<open>Profiles\<close>

lemma om_erase_insert:
  assumes "om_sorted (<) m" "(k :: 'k::linorder) \<notin> fst ` set m"
  shows "om_erase (<) k (om_insert (<) k v m) = m"
proof -
  have "om_erase (<) k (om_put (<) k v m) = m" if "k \<notin> fst ` set m" for m :: "('k, 'a) omap"
    using that by (induction m) auto
  moreover have "om_insert (<) k v m = om_put (<) k v m"
    using om_find_None_iff [OF assms(1), of k] assms(2) by (simp add: om_insert_def)
  ultimately show ?thesis using assms(2) by simp
qed

lemma om_find_insert_new:
  "om_sorted (<) m \<Longrightarrow> (k :: 'k::linorder) \<notin> fst ` set m \<Longrightarrow> om_find (<) k (om_insert (<) k v m) = Some v"
  using om_find_iff [of "om_insert (<) k v m" k v] lin.om_sorted_put [of m k v] om_find_None_iff [of m k]
  by (simp add: om_put_set_new om_insert_def)

text \<open>
  Giving a profile to a scheduler that has none, in the view of the tables: a new one, or one that is
  there.
\<close>

definition gains_profile :: "sched_qmp_id_map_key \<Rightarrow> olt \<Rightarrow> olt \<Rightarrow> bool" where
  "gains_profile key s t \<longleftrightarrow> sched_view t = sched_view s \<and>
     ((\<exists>j profile. j \<notin> tm_qmp_bitset s \<and> int j \<notin> fst ` set (qmp_id_to_qmp_map s) \<and>
         profile_view t = (om_insert (<) key (int j) (sched_qmp_id_map s),
           om_insert (<) (int j) profile (qmp_id_to_qmp_map s), insert j (tm_qmp_bitset s), qos_type_map s)) \<or>
      (\<exists>q. q \<in> fst ` set (qmp_id_to_qmp_map s) \<and>
         profile_view t = (om_insert (<) key q (sched_qmp_id_map s), qmp_id_to_qmp_map s, tm_qmp_bitset s,
           qos_type_map s)))"

lemma ensure_profile_gains:
  assumes "ensure_profile P req s = Some (None, t)" "tm_inv s" "has_scheduler d req s"
    and "tqs_queues req \<noteq> []" "\<forall>q\<in>set (tqs_queues req). GetDirection (tq_direction q) = d"
    and "profile_key P d req s \<notin> fst ` set (sched_qmp_id_map s)"
  shows "gains_profile (profile_key P d req s) s t"
proof -
  let ?key = "profile_key P d req s"
  have "directions_of qs d0 = Some (if qs = [] then d0 else d)"
    if "\<forall>q\<in>set qs. GetDirection (tq_direction q) = d" for qs d0
    using that assms(3) by (induction qs arbitrary: d0) (auto simp: has_scheduler_def upstream_def downstream_def)
  then have d: "directions_of (tqs_queues req) [] = Some d" using assms(4,5) by simp
  have inv: "sched_inv s" "qmp_inv s" using assms(2) by (simp_all add: tm_inv_def)
  note q = queue_sched_id_has_scheduler [OF inv(1) assms(3), of P]
  have none: "get_tm_qmp_id ?key s = -1"
    using inv(2) assms(6) om_find_None_iff [of "sched_qmp_id_map s" ?key] by (simp add: get_tm_qmp_id_def qmp_inv_def)
  obtain profile where p: "get_tmq_map_profile (get_valid_queues_pbit_map (map tq_pbit_map (tqs_queues req)))
      (map tq_priority (tqs_queues req)) = Some profile"
    using assms(1) d by (auto simp: ensure_profile_def split: Option.bind_splits)
  show ?thesis
  proof (cases "get_tm_qmp_id_by_profile profile s = -1")
    case False
    then have "t = update_sched_qmp_id_map ?key (get_tm_qmp_id_by_profile profile s) s"
      using assms(1) d p q none by (simp add: ensure_profile_def profile_key_def Let_def split: if_splits)
    moreover have "get_tm_qmp_id_by_profile profile s \<in> fst ` set (qmp_id_to_qmp_map s)"
      using False find_qmp_mem by (simp add: get_tm_qmp_id_by_profile_def)
    ultimately show ?thesis unfolding gains_profile_def
      by (intro conjI disjI2 exI [of _ "get_tm_qmp_id_by_profile profile s"])
        (simp_all add: view_defs update_sched_qmp_id_map_def)
  next
    case True
    obtain i u where a: "alloc_tm_qmp_id ?key profile s = (i, u)" by fastforce
    have t: "i \<noteq> -1" "tm_view t = tm_view u"
      using assms(1) d p q True a
      by (auto simp: ensure_profile_def profile_key_def CreateTrafficQueueMappingProfile_def bal_err_def bal_call_def Let_def
          split: if_splits)
    then obtain j where j: "first_free (tm_qmp_bitset s) 0 MAX_TM_QMP_ID = Some j" "i = int j"
      using a by (auto simp: alloc_tm_qmp_id_def split: option.splits)
    have "j \<notin> tm_qmp_bitset s" using first_free_Some [OF j(1)] by blast
    moreover from this have "int j \<notin> fst ` set (qmp_id_to_qmp_map s)"
      using inv(2) by (force simp: qmp_inv_def)
    moreover have "u = update_sched_qmp_id_map ?key (int j) (s\<lparr>tm_qmp_bitset := insert j (tm_qmp_bitset s),
        qmp_id_to_qmp_map := om_insert (<) (int j) profile (qmp_id_to_qmp_map s)\<rparr>)"
      using a j(1) by (auto simp: alloc_tm_qmp_id_def)
    ultimately show ?thesis using t(2) unfolding gains_profile_def
      by (intro conjI disjI1 exI [of _ j] exI [of _ profile]) (simp_all add: view_defs update_sched_qmp_id_map_def)
  qed
qed

text \<open>Freeing it restores the tables, if every profile was in use before.\<close>

lemma free_gained_profile:
  assumes "gains_profile key s t" "qmp_inv s" "key \<notin> fst ` set (sched_qmp_id_map s)"
    and "fst ` set (qmp_id_to_qmp_map s) \<subseteq> snd ` set (sched_qmp_id_map s)"
    and "free_tm_qmp_id P key (get_tm_qmp_id key t) t = (r, u)"
  shows "tm_view u = tm_view s"
proof -
  have sorted: "om_sorted (<) (qmp_id_to_qmp_map s)" "om_sorted (<) (sched_qmp_id_map s)"
    using assms(2) by (simp_all add: qmp_inv_def)
  note restored = om_erase_insert [OF sorted(2) assms(3)]
  have sv: "sched_map t = sched_map s" "tm_sched_bitset t = tm_sched_bitset s"
    using assms(1) by (simp_all add: gains_profile_def sched_view_def)
  consider (new) j profile where "j \<notin> tm_qmp_bitset s" "int j \<notin> fst ` set (qmp_id_to_qmp_map s)"
      "profile_view t = (om_insert (<) key (int j) (sched_qmp_id_map s),
           om_insert (<) (int j) profile (qmp_id_to_qmp_map s), insert j (tm_qmp_bitset s), qos_type_map s)"
    | (shared) q where "q \<in> fst ` set (qmp_id_to_qmp_map s)"
      "profile_view t = (om_insert (<) key q (sched_qmp_id_map s), qmp_id_to_qmp_map s, tm_qmp_bitset s, qos_type_map s)"
    using assms(1) unfolding gains_profile_def by blast
  then show ?thesis
  proof cases
    case new
    have g: "get_tm_qmp_id key t = int j"
      using new(3) om_find_insert_new [OF sorted(2) assms(3)] by (simp add: get_tm_qmp_id_def profile_view_def)
    have "int j \<notin> snd ` set (sched_qmp_id_map s)" using assms(2) new(2) by (auto simp: qmp_inv_def)
    then have "qmp_ref_count (int j) (sched_qmp_id_map s) = 0"
      by (force simp: qmp_ref_count_def filter_empty_conv)
    moreover have "om_find (<) (int j) (qmp_id_to_qmp_map t) = Some profile"
      using new(3) om_find_insert_new [OF sorted(1) new(2)] by (simp add: profile_view_def)
    ultimately show ?thesis
      using assms(5) new restored om_erase_insert [OF sorted(1) new(2), of profile] sv g
      by (auto simp: free_tm_qmp_id_def view_defs)
  next
    case shared
    have g: "get_tm_qmp_id key t = q"
      using shared(2) om_find_insert_new [OF sorted(2) assms(3)] by (simp add: get_tm_qmp_id_def profile_view_def)
    have "q \<in> snd ` set (sched_qmp_id_map s)" using assms(4) shared(1) by blast
    then have "qmp_ref_count q (sched_qmp_id_map s) \<noteq> 0"
      by (auto simp: qmp_ref_count_def filter_empty_conv)
    then show ?thesis using assms(5) shared restored sv g by (auto simp: free_tm_qmp_id_def view_defs)
  qed
qed

section \<open>Creating and removing queues\<close>

definition qos_of :: "traffic_queues \<Rightarrow> egress_qos_type" where
  "qos_of req = (if length (tqs_queues req) > 1 then QOS_PRIORITY_TO_QUEUE else QOS_FIXED_QUEUE)"

abbreviation uni_of :: "traffic_queues \<Rightarrow> uint32 \<times> uint32 \<times> uint32" where
  "uni_of req \<equiv> (tqs_intf_id req, tqs_onu_id req, tqs_uni_id req)"

lemma ensure_profile_fails: "ensure_profile P req s = Some (Some st, t) \<Longrightarrow> code st \<noteq> OK"
  by (auto simp: ensure_profile_def Let_def split: option.splits Option.bind_splits prod.splits if_splits)

text \<open>The state after the QoS type was fixed.\<close>

definition fix_qos :: "traffic_queues \<Rightarrow> olt \<Rightarrow> olt" where
  "fix_qos req s = s\<lparr>qos_type_map := (qos_type_map s)(uni_of req \<mapsto> qos_of req)\<rparr>"

lemma fix_qos_sel [simp]:
  "tm_inv (fix_qos req s) = tm_inv s" "has_scheduler d q (fix_qos req s) = has_scheduler d q s"
  "profile_key P d q (fix_qos req s) = profile_key P d q s"
  "sched_qmp_id_map (fix_qos req s) = sched_qmp_id_map s" "qmp_id_to_qmp_map (fix_qos req s) = qmp_id_to_qmp_map s"
  by (simp_all add: fix_qos_def has_scheduler_def profile_key_def queues_sched_def)

lemma CreateTrafficQueues_gains:
  assumes "CreateTrafficQueues P req s = Some (st, t)" "code st = OK" "tm_inv s" "has_scheduler d req s"
    and "tqs_queues req \<noteq> []" "\<forall>q\<in>set (tqs_queues req). GetDirection (tq_direction q) = d"
    and "qos_type_map s (uni_of req) = None" "profile_key P d req s \<notin> fst ` set (sched_qmp_id_map s)"
  shows "if qos_of req = QOS_PRIORITY_TO_QUEUE then gains_profile (profile_key P d req s) (fix_qos req s) t
    else tm_view t = tm_view (fix_qos req s)"
proof -
  have q: "get_qos_type (tqs_intf_id req) (tqs_onu_id req) (tqs_uni_id req) (length (tqs_queues req)) s =
      (qos_of req, fix_qos req s)"
    using assms(7) by (simp add: get_qos_type_def qos_of_def fix_qos_def Let_def)
  show ?thesis
  proof (cases "qos_of req = QOS_PRIORITY_TO_QUEUE")
    case True
    obtain r u where u: "ensure_profile P req (fix_qos req s) = Some (r, u)"
      using assms(1) q True by (auto simp: CreateTrafficQueues_def split: Option.bind_splits)
    have r: "r = None" using assms(1,2) q True u ensure_profile_fails by (cases r) (auto simp: CreateTrafficQueues_def)
    then have c: "create_queues P req (qos_of req) (tqs_queues req) u = (st, t)"
      using assms(1) q True u by (simp add: CreateTrafficQueues_def)
    have g: "gains_profile (profile_key P d req s) (fix_qos req s) u"
      using ensure_profile_gains [OF u [unfolded r], of d] assms(3-6,8) by simp
    then have "sched_map u = sched_map s" by (simp add: gains_profile_def sched_view_def fix_qos_def)
    moreover have "tm_inv u" using tm_inv_ensure_profile [OF _ u] assms(3) by simp
    ultimately have "tm_view t = tm_view u"
      using create_queues_view [OF c assms(6)] assms(4) has_scheduler_view by blast
    then show ?thesis using g True by (simp add: gains_profile_def tm_view_def)
  next
    case False
    then have "create_queues P req (qos_of req) (tqs_queues req) (fix_qos req s) = (st, t)"
      using assms(1) q by (simp add: CreateTrafficQueues_def)
    from create_queues_view [OF this assms(6)] show ?thesis using assms(3,4) False by simp
  qed
qed

lemma release_profile_free:
  assumes "release_profile P req QOS_PRIORITY_TO_QUEUE d s = (e, u)" "sched_inv s" "has_scheduler d req s"
  shows "\<exists>r v. free_tm_qmp_id P (profile_key P d req s) (get_tm_qmp_id (profile_key P d req s) s) s = (r, v) \<and>
    tm_view u = tm_view v"
proof -
  let ?k = "profile_key P d req s"
  have "d = upstream \<or> d = downstream \<and> is_tm_sched_id_present (uint (tqs_intf_id req)) (uint (tqs_onu_id req))
      (uint (tqs_uni_id req)) d (uint (tqs_tech_profile_id req)) s"
    using assms(3) by (auto simp: has_scheduler_def is_tm_sched_id_present_def)
  moreover obtain r v where "free_tm_qmp_id P ?k (get_tm_qmp_id ?k s) s = (r, v)" by fastforce
  ultimately show ?thesis
    using assms(1) queue_sched_id_has_scheduler [OF assms(2,3), of P]
    by (auto simp: release_profile_def profile_key_def RemoveTrafficQueueMappingProfile_def bal_err_def bal_call_def Let_def
        split: if_splits)
qed

lemma RemoveTrafficQueues_view:
  assumes "RemoveTrafficQueues P req s = Some (st, t)" "code st = OK" "tm_inv s" "has_scheduler d req s"
    and "tqs_queues req \<noteq> []" "\<forall>q\<in>set (tqs_queues req). GetDirection (tq_direction q) = d"
    and "qos_type_map s (uni_of req) = Some (qos_of req)"
  shows "\<exists>v. t = clear_qos_type (tqs_intf_id req) (tqs_onu_id req) (tqs_uni_id req) v \<and>
    (if qos_of req = QOS_PRIORITY_TO_QUEUE
     then \<exists>r u w. tm_view u = tm_view s \<and>
       free_tm_qmp_id P (profile_key P d req s) (get_tm_qmp_id (profile_key P d req s) u) u = (r, w) \<and> tm_view v = tm_view w
     else tm_view v = tm_view s)"
proof -
  have q: "get_qos_type (tqs_intf_id req) (tqs_onu_id req) (tqs_uni_id req) (length (tqs_queues req)) s = (qos_of req, s)"
    using assms(7) by (simp add: get_qos_type_def)
  obtain fin st' d' u where r: "remove_queues P req (qos_of req) (tqs_queues req) Status_OK [] s = Some ((fin, st', d'), u)"
    using assms(1) q by (auto simp: RemoveTrafficQueues_def split: Option.bind_splits)
  have failed: "code st' \<noteq> OK" if "remove_queues P req qos qs st0 d0 s0 = Some ((False, st', d'), u)" for qos qs st0 d0 s0
    using that by (induction qs arbitrary: st0 d0 s0) (auto simp: Let_def split: if_splits Option.bind_splits)
  have fin: "fin" using assms(1,2) q r failed by (cases fin) (auto simp: RemoveTrafficQueues_def)
  have u: "tm_view u = tm_view s" "d' = d"
    using remove_queues_view [OF r fin assms(6,3,4)] assms(5) by simp_all
  obtain e v where v: "release_profile P req (qos_of req) d u = (e, v)" by fastforce
  have t: "t = clear_qos_type (tqs_intf_id req) (tqs_onu_id req) (tqs_uni_id req) v"
    using assms(1,2) q r fin u(2) v by (auto simp: RemoveTrafficQueues_def Let_def split: if_splits)
  have su: "sched_map u = sched_map s" using tm_view_sched_map [OF u(1)] .
  show ?thesis
  proof (cases "qos_of req = QOS_PRIORITY_TO_QUEUE")
    case True
    have "sched_inv u" "has_scheduler d req u"
      using tm_inv_view [OF u(1)] assms(3,4) has_scheduler_view [OF su] by (simp_all add: tm_inv_def)
    from release_profile_free [OF v [unfolded True] this] show ?thesis
      using t u(1) True profile_key_view [OF su] by (intro exI [of _ v]) auto
  next
    case False
    then have "v = u" using v by (simp add: release_profile_def)
    then show ?thesis using t u(1) False by auto
  qed
qed


text \<open>Removing the queues undoes what creating them did to the tables.\<close>

lemma gains_profile_view:
  "tm_view t' = tm_view t \<Longrightarrow> gains_profile key s t' = gains_profile key s t"
  by (simp add: gains_profile_def tm_view_def)

lemma gains_profile_qos: "gains_profile key s t \<Longrightarrow> qos_type_map t = qos_type_map s \<and> sched_map t = sched_map s"
  by (auto simp: gains_profile_def view_defs)

lemma queues_roundtrip:
  assumes "CreateTrafficQueues P req s = Some (st, t)" "code st = OK" "tm_inv s" "has_scheduler d req s"
    and req: "tqs_queues req \<noteq> []" "\<forall>q\<in>set (tqs_queues req). GetDirection (tq_direction q) = d"
    and fresh: "qos_type_map s (uni_of req) = None" "profile_key P d req s \<notin> fst ` set (sched_qmp_id_map s)"
    and used: "fst ` set (qmp_id_to_qmp_map s) \<subseteq> snd ` set (sched_qmp_id_map s)"
    and t': "tm_view t' = tm_view t"
    and "RemoveTrafficQueues P req t' = Some (st', u)" "code st' = OK"
  shows "tm_view u = tm_view s"
proof -
  note gains = CreateTrafficQueues_gains [OF assms(1-8)]
  have "sched_map t = sched_map s \<and> qos_type_map t = (qos_type_map s)(uni_of req \<mapsto> qos_of req)"
    using gains gains_profile_qos [of _ "fix_qos req s" t] by (auto simp: fix_qos_def view_defs split: if_splits)
  then have same: "sched_map t' = sched_map s" "qos_type_map t' = (qos_type_map s)(uni_of req \<mapsto> qos_of req)"
    using t' by (simp_all add: view_defs)
  have "tm_inv t" using tm_inv_CreateTrafficQueues [OF assms(3,1)] .
  then have inv: "tm_inv t'" "has_scheduler d req t'" "qos_type_map t' (uni_of req) = Some (qos_of req)"
    using tm_inv_view [OF t'] has_scheduler_view [OF same(1)] assms(4) same(2) by simp_all
  obtain v where u: "u = clear_qos_type (tqs_intf_id req) (tqs_onu_id req) (tqs_uni_id req) v"
    and v: "if qos_of req = QOS_PRIORITY_TO_QUEUE
      then \<exists>r u w. tm_view u = tm_view t' \<and>
         free_tm_qmp_id P (profile_key P d req s) (get_tm_qmp_id (profile_key P d req s) u) u = (r, w) \<and>
         tm_view v = tm_view w
      else tm_view v = tm_view t'"
    using RemoveTrafficQueues_view [OF assms(11,12) inv(1,2) req inv(3), unfolded profile_key_view [OF same(1)]] by blast
  have "tm_view v = tm_view (fix_qos req s)"
  proof (cases "qos_of req = QOS_PRIORITY_TO_QUEUE")
    case True
    then obtain r x w where w: "tm_view x = tm_view t'" "tm_view v = tm_view w"
      "free_tm_qmp_id P (profile_key P d req s) (get_tm_qmp_id (profile_key P d req s) x) x = (r, w)"
      using v unfolding if_P [OF True] by blast
    have "gains_profile (profile_key P d req s) (fix_qos req s) x"
      using gains True gains_profile_view [OF trans [OF w(1) t']] by simp
    moreover have "qmp_inv (fix_qos req s)"
      using assms(3) fix_qos_sel(1) [of req s] by (simp add: tm_inv_def)
    ultimately have "tm_view w = tm_view (fix_qos req s)"
      using free_gained_profile [OF _ _ _ _ w(3), of "fix_qos req s"] fresh(2) used by simp
    then show ?thesis using w(2) by simp
  next
    case False
    then show ?thesis using v gains t' by simp
  qed
  then show ?thesis using u fresh(1) by (auto simp: clear_qos_type_def fix_qos_def view_defs fun_upd_idem)
qed

section \<open>A subscriber from creation to removal\<close>

lemma sched_inv_bitset: "sched_inv s \<Longrightarrow> sched_inv t \<Longrightarrow> sched_map t = sched_map s \<Longrightarrow> sched_view t = sched_view s"
  by (simp add: sched_inv_def sched_view_def)

lemma uni_fresh: "\<forall>q. (q, uni_of req) \<notin> fst ` set m \<Longrightarrow> profile_key P d req s \<notin> fst ` set m"
  by (simp add: profile_key_def)

text \<open>
  C15: a subscriber leaves nothing behind.  From a state in which every mapping profile is in use and which has no
  scheduler, profile or QoS type of the subscriber, create the schedulers, create the queues of one direction, do
  anything that leaves these tables alone, remove the queues, remove the schedulers: when the answers are OK, the
  tables of schedulers, profiles and QoS types and the ids in use are those from before, whether the profile was new
  or shared with other subscribers.
\<close>

theorem subscriber_roundtrip:
  assumes "tm_inv s" "sched_keys S \<inter> dom (sched_map s) = {}" "qos_type_map s (uni_of Q) = None"
    and "\<forall>q. (q, uni_of Q) \<notin> fst ` set (sched_qmp_id_map s)"
    and "fst ` set (qmp_id_to_qmp_map s) \<subseteq> snd ` set (sched_qmp_id_map s)"
    and "tqs_queues Q \<noteq> []" "\<forall>q\<in>set (tqs_queues Q). GetDirection (tq_direction q) = d"
    and "CreateTrafficSchedulers P S s = (st1, s1)" "has_scheduler d Q s1"
    and "CreateTrafficQueues P Q s1 = Some (st2, s2)" "code st2 = OK"
    and "tm_view t = tm_view s2"
    and "RemoveTrafficQueues P Q t = Some (st3, s3)" "code st3 = OK"
    and "RemoveTrafficSchedulers P S s3 = (st4, s4)" "code st4 = OK"
  shows "tm_view s4 = tm_view s"
proof -
  have s1: "profile_view s1 = profile_view s" "\<forall>x. x \<notin> sched_keys S \<longrightarrow> sched_map s1 x = sched_map s x"
    using create_scheds_map assms(8) unfolding CreateTrafficSchedulers_def sched_keys_def by blast+
  have inv1: "tm_inv s1" using tm_inv_schedulers(1) [OF assms(1), of P S] assms(8) by simp
  have s3: "tm_view s3 = tm_view s1"
    using queues_roundtrip [OF assms(10,11) inv1 assms(9,6,7) _ uni_fresh _ assms(12-14)] s1(1) assms(3-5)
    by (simp add: profile_view_def)
  then have inv3: "tm_inv s3" using inv1 tm_inv_view by blast
  then have "sched_inv s3" by (simp add: tm_inv_def)
  note s4 = remove_scheds_map [OF assms(15) [unfolded RemoveTrafficSchedulers_def] assms(16) this, folded sched_keys_def]
  have "sched_map s4 = sched_map s"
  proof
    fix x
    have "x \<in> sched_keys S \<Longrightarrow> sched_map s x = None" using assms(2) by blast
    then show "sched_map s4 x = sched_map s x"
      using s4(2) s1(2) [rule_format, of x] tm_view_sched_map [OF s3] by (cases "x \<in> sched_keys S") simp_all
  qed
  moreover have "tm_inv s4" using tm_inv_schedulers(2) [OF inv3, of P S] assms(15) by simp
  ultimately have "sched_view s4 = sched_view s" using sched_inv_bitset assms(1) by (simp add: tm_inv_def)
  then show ?thesis using s4(1) s3 s1(1) by (simp add: tm_view_def)
qed

text \<open>A downlink with two queues.\<close>

definition sample_schedulers :: traffic_schedulers where
  "sample_schedulers = \<lparr>tss_intf_id = 0, tss_onu_id = 1, tss_uni_id = 0, tss_port_no = 16,
     tss_scheds = [\<lparr>ts_direction = TP_DOWNSTREAM, ts_alloc_id = 1024, ts_additional_bw = AdditionalBW_None,
       ts_priority = 1, ts_weight = 0,
       ts_shaping = \<lparr>cir = 100, cbs = 0, pir = 200, pbs = 0, gir = 0\<rparr>,
       ts_tech_profile_id = 64\<rparr>]\<rparr>"

definition sample_queues :: traffic_queues where
  "sample_queues = \<lparr>tqs_intf_id = 0, tqs_network_intf_id = 0, tqs_onu_id = 1, tqs_uni_id = 0,
     tqs_tech_profile_id = 64, tqs_queues =
       [\<lparr>tq_direction = TP_DOWNSTREAM, tq_priority = 0, tq_gemport_id = 1024, tq_pbit_map = ''0b00000001''\<rparr>,
        \<lparr>tq_direction = TP_DOWNSTREAM, tq_priority = 1, tq_gemport_id = 1025, tq_pbit_map = ''0b11111110''\<rparr>]\<rparr>"

abbreviation all_ok :: platform where
  "all_ok \<equiv> const_platform ok_rsp"

lemma sample_scheduler_created:
  "\<exists>s. CreateTrafficSchedulers all_ok sample_schedulers init_olt = (Status_OK, s) \<and>
     sched_map s (key_of 0 1 0 downstream 64) = Some 0"
  by (simp add: sample_schedulers_def CreateTrafficSchedulers_def CreateSched_def CreateSched_downstream_def
     get_tm_sched_id_def tm_sched_alloc_def first_free.simps MAX_TM_SCHED_ID_def bal_err_def bal_call_def init_olt_def
     sched_key_def u32_of_int_def)

text \<open>When BAL answers OK and no ONU is active, queues are created and removed without an error.\<close>

lemma quiet_gem_ports: "fst (install_gem_port all_ok i n u g b s) = Status_OK"
  by (simp add: install_gem_port_def gem_wait_needed_def get_onu_state_def bal_err_def bal_call_def Let_def)

lemma quiet_CreateQueue: "\<not> prio > 7 \<Longrightarrow> \<exists>s'. CreateQueue all_ok d nni i n u qos prio g tp s = (BCM_ERR_OK, s')"
  by (simp add: CreateQueue_def bal_err_def bal_call_def case_prod_beta Let_def quiet_gem_ports)

lemma quiet_create_queues:
  "\<forall>q\<in>set qs. \<not> tq_priority q > 7 \<and> GetDirection (tq_direction q) \<noteq> ''direction-not-supported'' \<Longrightarrow>
     \<exists>s'. create_queues all_ok req qos qs s = (Status_OK, s')"
proof (induction qs arbitrary: s)
  case (Cons q qs)
  obtain t where "CreateQueue all_ok (GetDirection (tq_direction q)) (tqs_network_intf_id req) (tqs_intf_id req)
      (tqs_onu_id req) (tqs_uni_id req) qos (tq_priority q) (tq_gemport_id q) (tqs_tech_profile_id req) s = (BCM_ERR_OK, t)"
    using quiet_CreateQueue Cons.prems by fastforce
  then show ?case using Cons by (simp add: Let_def)
qed simp

lemma quiet_RemoveQueue:
  assumes "queue_of_priority prio = Some q"
  shows "\<exists>s'. RemoveQueue all_ok d i n u qos prio g tp s = Some (BCM_ERR_OK, s')"
  using assms by (simp add: RemoveQueue_def bal_err_def bal_call_def case_prod_beta Let_def)

lemma quiet_remove_queues:
  "\<forall>q\<in>set qs. queue_of_priority (tq_priority q) \<noteq> None \<and> GetDirection (tq_direction q) \<noteq> ''direction-not-supported'' \<Longrightarrow>
     \<exists>d' s'. remove_queues all_ok req qos qs st d s = Some ((True, st, d'), s')"
proof (induction qs arbitrary: s d)
  case (Cons q qs)
  obtain t where "RemoveQueue all_ok (GetDirection (tq_direction q)) (tqs_intf_id req) (tqs_onu_id req) (tqs_uni_id req) qos
      (tq_priority q) (tq_gemport_id q) (tqs_tech_profile_id req) s = Some (BCM_ERR_OK, t)"
    using quiet_RemoveQueue Cons.prems by fastforce
  then show ?case using Cons by (simp add: Let_def)
qed simp

lemma quiet_RemoveTrafficQueues:
  assumes "\<forall>q\<in>set (tqs_queues req). queue_of_priority (tq_priority q) \<noteq> None \<and>
     GetDirection (tq_direction q) \<noteq> ''direction-not-supported''"
  shows "\<exists>s'. RemoveTrafficQueues all_ok req s = Some (Status_OK, s')"
proof -
  obtain q u where q: "get_qos_type (tqs_intf_id req) (tqs_onu_id req) (tqs_uni_id req) (length (tqs_queues req)) s = (q, u)"
    by fastforce
  obtain d v where "remove_queues all_ok req q (tqs_queues req) Status_OK [] u = Some ((True, Status_OK, d), v)"
    using quiet_remove_queues [OF assms] by blast
  moreover have "fst (release_profile all_ok req q d v) = BCM_ERR_OK"
    by (simp add: release_profile_def RemoveTrafficQueueMappingProfile_def bal_err_def bal_call_def case_prod_beta Let_def)
  ultimately show ?thesis using q by (simp add: RemoveTrafficQueues_def case_prod_beta Let_def)
qed

lemma sample_profile:
  "get_tmq_map_profile (get_valid_queues_pbit_map (map tq_pbit_map (tqs_queues sample_queues)))
     (map tq_priority (tqs_queues sample_queues)) = Some [0, 1, 1, 1, 1, 1, 1, 1]"
  by (simp add: sample_queues_def get_tmq_map_profile_def get_valid_queues_pbit_map_def queue_of_priority_def
      queue_id_list_def numeral_eq_Suc)

lemma sample_queues_supported:
  "\<forall>q\<in>set (tqs_queues sample_queues). \<not> tq_priority q > 7 \<and>
     GetDirection (tq_direction q) \<noteq> ''direction-not-supported''"
  by (simp add: sample_queues_def)

lemma sample_queues_created:
  assumes "profile_view s = profile_view init_olt" "sched_inv s" "has_scheduler downstream sample_queues s"
  shows "\<exists>s'. CreateTrafficQueues all_ok sample_queues s = Some (Status_OK, s')"
proof -
  let ?s = "fix_qos sample_queues s"
  have "qos_of sample_queues = QOS_PRIORITY_TO_QUEUE" by (simp add: qos_of_def sample_queues_def)
  then have q: "get_qos_type (tqs_intf_id sample_queues) (tqs_onu_id sample_queues) (tqs_uni_id sample_queues)
      (length (tqs_queues sample_queues)) s = (QOS_PRIORITY_TO_QUEUE, ?s)"
    using assms(1) by (simp add: get_qos_type_def fix_qos_def qos_of_def profile_view_def Let_def split: if_splits)
  have "sched_inv ?s" using assms(2) by (simp add: fix_qos_def sched_inv_def)
  note sched = queue_sched_id_has_scheduler [OF this, of downstream sample_queues all_ok]
  have "directions_of (tqs_queues sample_queues) [] = Some downstream" by (simp add: sample_queues_def)
  moreover have "get_tm_qmp_id_by_profile p ?s = -1" for p
    using assms(1) by (simp add: get_tm_qmp_id_by_profile_def profile_view_def)
  moreover have "tm_qmp_bitset ?s = {}" using assms(1) by (simp add: profile_view_def fix_qos_def)
  ultimately have "\<exists>u. ensure_profile all_ok sample_queues ?s = Some (None, u)"
    using sched assms(3) sample_profile
    by (simp add: ensure_profile_def CreateTrafficQueueMappingProfile_def alloc_tm_qmp_id_def first_free.simps
        MAX_TM_QMP_ID_def bal_err_def bal_call_def Let_def)
  then obtain u where u: "ensure_profile all_ok sample_queues ?s = Some (None, u)" by blast
  obtain t where "create_queues all_ok sample_queues QOS_PRIORITY_TO_QUEUE (tqs_queues sample_queues) u = (Status_OK, t)"
    using quiet_create_queues [OF sample_queues_supported] by blast
  then show ?thesis using q u by (simp add: CreateTrafficQueues_def)
qed

lemma sample_scheduler_removed: "\<exists>s'. RemoveTrafficSchedulers all_ok sample_schedulers s = (Status_OK, s')"
proof -
  have "fst (RemoveSched all_ok 0 1 0 1024 downstream 64 s) = BCM_ERR_OK"
    by (simp add: RemoveSched_def bal_err_def bal_call_def case_prod_beta Let_def)
  then show ?thesis by (simp add: RemoveTrafficSchedulers_def sample_schedulers_def case_prod_beta Let_def)
qed

lemma subscriber_roundtrip_witness:
  "\<exists>s1 s2 s3 s4. CreateTrafficSchedulers all_ok sample_schedulers init_olt = (Status_OK, s1) \<and>
     CreateTrafficQueues all_ok sample_queues s1 = Some (Status_OK, s2) \<and>
     RemoveTrafficQueues all_ok sample_queues s2 = Some (Status_OK, s3) \<and>
     RemoveTrafficSchedulers all_ok sample_schedulers s3 = (Status_OK, s4) \<and>
     tm_view s1 \<noteq> tm_view init_olt \<and> tm_view s4 = tm_view init_olt"
proof -
  obtain s1 where s1: "CreateTrafficSchedulers all_ok sample_schedulers init_olt = (Status_OK, s1)"
      "sched_map s1 (key_of 0 1 0 downstream 64) = Some 0"
    using sample_scheduler_created by blast
  have inv: "tm_inv s1" using tm_inv_schedulers(1) [of init_olt all_ok sample_schedulers] s1(1) by (simp add: tm_inv_def)
  have d: "has_scheduler downstream sample_queues s1" using s1(2) by (simp add: has_scheduler_def sample_queues_def)
  have "profile_view s1 = profile_view init_olt"
    using create_scheds_map s1(1) unfolding CreateTrafficSchedulers_def by blast
  then obtain s2 where s2: "CreateTrafficQueues all_ok sample_queues s1 = Some (Status_OK, s2)"
    using sample_queues_created inv d unfolding tm_inv_def by blast
  obtain s3 where s3: "RemoveTrafficQueues all_ok sample_queues s2 = Some (Status_OK, s3)"
    using quiet_RemoveTrafficQueues [of sample_queues s2]
    by (auto simp: sample_queues_def queue_of_priority_def queue_id_list_def)
  obtain s4 where s4: "RemoveTrafficSchedulers all_ok sample_schedulers s3 = (Status_OK, s4)"
    using sample_scheduler_removed by blast
  have "tm_view s4 = tm_view init_olt"
    using subscriber_roundtrip [of init_olt sample_schedulers sample_queues downstream all_ok,
        OF _ _ _ _ _ _ _ s1(1) d s2 _ refl s3 _ s4]
    by (simp add: tm_inv_def sample_queues_def)
  moreover have "tm_view s1 \<noteq> tm_view init_olt"
    using s1(2) tm_view_sched_map [of s1 init_olt] by (auto simp: init_olt_def)
  ultimately show ?thesis using s1(1) s2 s3 s4 by blast
qed

section \<open>What is left when the requests come in another order\<close>

text \<open>
  A second profile for a scheduler of a subscriber that has one, as the second technology profile of an uplink
  needs it, is registered, but the scheduler keeps referring to the first: nothing refers to the new one, so that
  it is never released.
\<close>

theorem second_profile_leaks:
  assumes "qmp_inv s" "om_find (<) key (sched_qmp_id_map s) = Some q"
    and "alloc_tm_qmp_id key profile s = (i, s')" "i \<noteq> -1"
  shows "i \<in> fst ` set (qmp_id_to_qmp_map s')" "i \<notin> snd ` set (sched_qmp_id_map s')" "get_tm_qmp_id key s' = q"
proof -
  obtain j where j: "first_free (tm_qmp_bitset s) 0 MAX_TM_QMP_ID = Some j" "i = int j"
    using assms(3,4) by (auto simp: alloc_tm_qmp_id_def split: option.splits)
  then have "j \<notin> tm_qmp_bitset s" using first_free_Some by blast
  then have new: "int j \<notin> fst ` set (qmp_id_to_qmp_map s)" using assms(1) by (force simp: qmp_inv_def)
  have s': "sched_qmp_id_map s' = sched_qmp_id_map s"
      "qmp_id_to_qmp_map s' = om_insert (<) (int j) profile (qmp_id_to_qmp_map s)"
    using assms(2,3) j by (auto simp: alloc_tm_qmp_id_def update_sched_qmp_id_map_def om_insert_def)
  show "i \<in> fst ` set (qmp_id_to_qmp_map s')"
    using s'(2) j(2) new assms(1) by (simp add: om_lin_simps qmp_inv_def)
  show "i \<notin> snd ` set (sched_qmp_id_map s')" using s'(1) j(2) new assms(1) by (auto simp: qmp_inv_def)
  show "get_tm_qmp_id key s' = q" using s'(1) assms(2) by (simp add: get_tm_qmp_id_def)
qed

text \<open>
  When the scheduler of a downlink is removed before its queues, the queues and the mapping profile stay:
  \<open>RemoveTrafficQueues_\<close> answers OK and leaves the tables of profiles as they are.
\<close>

lemma RemoveQueue_without_scheduler:
  assumes "RemoveQueue P downstream i n u qos prio gem tp s = Some (e, s')" "sched_map s (key_of i n u downstream tp) = None"
  shows "e = BCM_ERR_OK \<and> tm_view s' = tm_view s"
proof -
  obtain st t where r: "remove_gem_port P (sint i) (sint n) (sint u) (sint gem) (board_technology s) s = (st, t)" by fastforce
  have t: "tm_view t = tm_view s" using remove_gem_port_cases [OF r] tm_view_agent_part by blast
  then show ?thesis using assms r tm_view_sched_map [OF t] by (auto simp: RemoveQueue_def is_tm_sched_id_present_def)
qed

lemma remove_queues_without_scheduler:
  assumes "remove_queues P req qos qs st d0 s = Some ((fin, st', d'), s')"
    and "\<forall>q\<in>set qs. GetDirection (tq_direction q) = downstream"
    and "sched_map s (key_of (tqs_intf_id req) (tqs_onu_id req) (tqs_uni_id req) downstream (tqs_tech_profile_id req)) = None"
  shows "fin \<and> st' = st \<and> tm_view s' = tm_view s \<and> d' = (if qs = [] then d0 else downstream)"
  using assms
proof (induction qs arbitrary: s d0)
  case (Cons q qs)
  obtain e t where c: "RemoveQueue P downstream (tqs_intf_id req) (tqs_onu_id req) (tqs_uni_id req) qos (tq_priority q)
      (tq_gemport_id q) (tqs_tech_profile_id req) s = Some (e, t)"
    using Cons.prems by (auto simp: Let_def split: if_splits Option.bind_splits)
  note t = RemoveQueue_without_scheduler [OF c Cons.prems(3)]
  have "remove_queues P req qos qs st downstream t = Some ((fin, st', d'), s')"
    using Cons.prems(1,2) c t by (auto simp: Let_def)
  then show ?case using Cons.IH [of downstream t] Cons.prems(2,3) t tm_view_sched_map [of t s] by auto
qed simp

theorem queues_without_scheduler_leak:
  assumes "RemoveTrafficQueues P req s = Some (st, t)" "tqs_queues req \<noteq> []"
    and "\<forall>q\<in>set (tqs_queues req). GetDirection (tq_direction q) = downstream"
    and "sched_map s (key_of (tqs_intf_id req) (tqs_onu_id req) (tqs_uni_id req) downstream (tqs_tech_profile_id req)) = None"
  shows "code st = OK \<and> sched_qmp_id_map t = sched_qmp_id_map s \<and> qmp_id_to_qmp_map t = qmp_id_to_qmp_map s"
proof -
  obtain q u where q: "get_qos_type (tqs_intf_id req) (tqs_onu_id req) (tqs_uni_id req) (length (tqs_queues req)) s = (q, u)"
    by fastforce
  then have u: "sched_map u = sched_map s" "sched_qmp_id_map u = sched_qmp_id_map s" "qmp_id_to_qmp_map u = qmp_id_to_qmp_map s"
    by (auto simp: get_qos_type_def Let_def split: option.splits)
  obtain fin st' d' v where r: "remove_queues P req q (tqs_queues req) Status_OK [] u = Some ((fin, st', d'), v)"
    using assms(1) q by (auto simp: RemoveTrafficQueues_def split: Option.bind_splits)
  have v: "fin" "st' = Status_OK" "tm_view v = tm_view u" "d' = downstream"
    using remove_queues_without_scheduler [OF r assms(3)] assms(2,4) u(1) by simp_all
  have "sched_map v = sched_map s" using tm_view_sched_map [OF v(3)] u(1) by simp
  then have "release_profile P req q downstream v = (BCM_ERR_OK, v)"
    using assms(4) by (simp add: release_profile_def is_tm_sched_id_present_def)
  then show ?thesis using assms(1) q r v u by (auto simp: RemoveTrafficQueues_def clear_qos_type_def view_defs)
qed

end
