(* ===== verification/Profile_Service.thy ===== *)
theory Profile_Service
  imports Subscriber
begin

text \<open>
  The mapping profiles in the states the agent can reach (\<open>agent/src/core_utils.cc\<close>, \<open>agent/src/core_api_handler.cc\<close>):
  as long as no scheduler is given a second profile, every profile that is registered is in use.
\<close>

section \<open>Only the requests for queues change the tables\<close>

definition qmp_tables :: "olt \<Rightarrow> (sched_qmp_id_map_key, int) omap \<times> (int, uint32 list) omap" where
  "qmp_tables s = (sched_qmp_id_map s, qmp_id_to_qmp_map s)"

interpretation qmp_quiet: quiet_view qmp_tables
proof
  fix s
  show "qmp_tables (agent_part s) = qmp_tables s" by (simp add: qmp_tables_def agent_part_sel)
  show "qmp_tables (ind_rest s) = qmp_tables s" "qmp_tables (device_rest s) = qmp_tables s"
    by (simp_all add: qmp_tables_def ind_rest_def device_rest_def)
qed

lemma qmp_tables_updates [simp]:
  "qmp_tables (s\<lparr>sched_map := a\<rparr>) = qmp_tables s" "qmp_tables (s\<lparr>tm_sched_bitset := b\<rparr>) = qmp_tables s"
  "qmp_tables (s\<lparr>qos_type_map := c\<rparr>) = qmp_tables s" "qmp_tables (s\<lparr>pon_gem_to_onu_uni_map := d\<rparr>) = qmp_tables s"
  "qmp_tables (s\<lparr>tm_qmp_bitset := q\<rparr>) = qmp_tables s"
  "qmp_tables (s\<lparr>flow_to_acl_map := e\<rparr>) = qmp_tables s" "qmp_tables (s\<lparr>flow_map := f\<rparr>) = qmp_tables s"
  "qmp_tables (s\<lparr>flow_id_counters := g\<rparr>) = qmp_tables s" "qmp_tables (s\<lparr>flowid_to_port := h\<rparr>) = qmp_tables s"
  "qmp_tables (s\<lparr>flowid_to_gemport := i\<rparr>) = qmp_tables s" "qmp_tables (s\<lparr>port_to_flows := j\<rparr>) = qmp_tables s"
  "qmp_tables (s\<lparr>flow_id_bitset := k\<rparr>) = qmp_tables s" "qmp_tables (s\<lparr>voltha_flow_to_device_flow := l\<rparr>) = qmp_tables s"
  "qmp_tables (s\<lparr>symmetric_datapath_flow_id_map := m\<rparr>) = qmp_tables s"
  by (simp_all add: qmp_tables_def)

lemmas qmp_same = qmp_quiet.view_same

lemma qmp_acl_rest: "acl_rest s' = acl_rest s \<Longrightarrow> qmp_tables s' = qmp_tables s"
proof -
  have "qmp_tables (acl_rest t) = qmp_tables t" for t by (simp add: qmp_tables_def acl_rest_def)
  then show "acl_rest s' = acl_rest s \<Longrightarrow> qmp_tables s' = qmp_tables s" by metis
qed

lemma qmp_get_tm_sched_id [simp]: "qmp_tables (snd (get_tm_sched_id i n u d tp s)) = qmp_tables s"
  by (auto simp: get_tm_sched_id_def tm_sched_alloc_def Let_def split: option.split)

lemma qmp_get_sched: "get_tm_sched_id i n u d tp s = (k, s') \<Longrightarrow> qmp_tables s' = qmp_tables s"
  using qmp_get_tm_sched_id [of i n u d tp s] by simp

lemma qmp_get_qos_type: "get_qos_type i n u l s = (q, s') \<Longrightarrow> qmp_tables s' = qmp_tables s"
  by (auto simp: get_qos_type_def Let_def split: option.splits)

lemma qmp_flow_qos: "flow_qos P t r s = (fs, s') \<Longrightarrow> qmp_tables s' = qmp_tables s"
  by (auto simp: flow_qos_def Let_def split: prod.splits if_splits dest!: qmp_get_sched qmp_get_qos_type)

lemma qmp_flow_message: "flow_message P t r s = (m, s') \<Longrightarrow> qmp_tables s' = qmp_tables s"
  by (auto simp: flow_message_def Let_def split: prod.splits dest: qmp_flow_qos)

lemma qmp_commit_flow: "commit_flow P t f r aes cfg s = (st, s') \<Longrightarrow> qmp_tables s' = qmp_tables s"
  unfolding commit_flow_def
  by (auto simp: Let_def bal_err_def bal_call_def qmp_same(1) [OF agent_part_encryption] split: if_splits)

lemma qmp_FlowAdd: "FlowAdd P f aes r s = (st, s') \<Longrightarrow> qmp_tables s' = qmp_tables s"
  by (auto simp: FlowAdd_def Let_def record_flow_port_def split: option.splits prod.splits if_splits
      dest!: qmp_acl_rest [OF acl_rest_install] qmp_flow_message qmp_commit_flow qmp_same(1) [OF agent_part_find_duplicate])

lemma qmp_FlowRemove: "FlowRemove P f d s = (st, s') \<Longrightarrow> qmp_tables s' = qmp_tables s"
  by (auto simp: FlowRemove_def forget_flow_port_def bal_err_def bal_call_def Let_def
      split: option.splits prod.splits if_splits dest!: qmp_acl_rest [OF acl_rest_remove_trap])

interpretation qmp_flows: kept_by_flows "\<lambda>s. qmp_tables s = v" for v
  by unfold_locales (auto dest: qmp_FlowAdd qmp_FlowRemove)

lemma qmp_CreateSched: "CreateSched P d i n u ts s = (e, s') \<Longrightarrow> qmp_tables s' = qmp_tables s"
  by (auto simp: CreateSched_def CreateSched_downstream_def bal_err_def bal_call_def Let_def
      split: if_splits prod.splits dest!: qmp_same(1) [OF CreateSched_upstream_frame] qmp_get_sched)

lemma qmp_create_scheds: "create_scheds P i n u tss s = (st, s') \<Longrightarrow> qmp_tables s' = qmp_tables s"
  by (induction P i n u tss s rule: create_scheds.induct)
    (auto simp: Let_def split: if_splits prod.splits dest: qmp_CreateSched)

lemma qmp_free_tm_sched_id [simp]: "qmp_tables (free_tm_sched_id i n u d tp s) = qmp_tables s"
  by (auto simp: free_tm_sched_id_def Let_def split: option.split)

lemma qmp_RemoveSched: "RemoveSched P i n u a d tp s = (e, s') \<Longrightarrow> qmp_tables s' = qmp_tables s"
  by (auto simp: RemoveSched_def Let_def split: if_splits prod.splits dest!: qmp_get_sched alloc_frames dest: qmp_same(1))

lemma qmp_remove_scheds: "remove_scheds P i n u tss s = (st, s') \<Longrightarrow> qmp_tables s' = qmp_tables s"
  by (induction P i n u tss s rule: remove_scheds.induct)
    (auto simp: Let_def split: if_splits prod.splits dest: qmp_RemoveSched)

lemma qmp_schedulers [simp]:
  "qmp_tables (snd (CreateTrafficSchedulers P req s)) = qmp_tables s"
  "qmp_tables (snd (RemoveTrafficSchedulers P req s)) = qmp_tables s"
  using qmp_create_scheds [OF prod.collapse [symmetric]] qmp_remove_scheds [OF prod.collapse [symmetric]]
  by (simp_all add: CreateTrafficSchedulers_def RemoveTrafficSchedulers_def)

text \<open>The queues themselves do not, only the profile of a request does.\<close>

lemma qmp_queue_sched_id: "queue_sched_id P d nni i n u tp s = (k, s') \<Longrightarrow> qmp_tables s' = qmp_tables s"
  by (auto simp: queue_sched_id_def split: if_splits dest: qmp_get_sched)

lemma qmp_CreateQueue: "CreateQueue P d nni i n u qos prio gem tp s = (e, s') \<Longrightarrow> qmp_tables s' = qmp_tables s"
  by (auto simp: CreateQueue_def Let_def bal_err_def bal_call_def split: prod.splits if_splits
      dest!: install_gem_port_cases qmp_queue_sched_id dest: qmp_same(1))

lemma qmp_create_queues: "create_queues P req qos qs s = (st, s') \<Longrightarrow> qmp_tables s' = qmp_tables s"
proof (induction qs arbitrary: s)
  case (Cons q qs)
  then show ?case by (auto simp: Let_def split: prod.splits if_splits dest: qmp_CreateQueue)
qed simp

lemma qmp_RemoveQueue:
  assumes "RemoveQueue P d i n u qos prio gem tp s = Some (e, s')"
  shows "qmp_tables s' = qmp_tables s"
proof -
  obtain st t where r: "remove_gem_port P (sint i) (sint n) (sint u) (sint gem) (board_technology s) s = (st, t)" by fastforce
  have t: "qmp_tables t = qmp_tables s" using remove_gem_port_cases [OF r] qmp_same(1) by blast
  show ?thesis using assms r t
    by (auto simp: RemoveQueue_def bal_err_def bal_call_def Let_def split: if_splits prod.splits Option.bind_splits
        dest!: qmp_get_sched)
qed

lemma qmp_remove_queues: "remove_queues P req qos qs st d s = Some (r, s') \<Longrightarrow> qmp_tables s' = qmp_tables s"
proof (induction qs arbitrary: s st d)
  case (Cons q qs)
  then show ?case by (auto simp: Let_def split: prod.splits if_splits Option.bind_splits dest: qmp_RemoveQueue)
qed simp

section \<open>Profiles in use\<close>

definition profiles_in_use :: "olt \<Rightarrow> bool" where
  "profiles_in_use s \<longleftrightarrow> fst ` set (qmp_id_to_qmp_map s) \<subseteq> snd ` set (sched_qmp_id_map s)"

definition profile_inv :: "olt \<Rightarrow> bool" where
  "profile_inv s \<longleftrightarrow> qmp_inv s \<and> profiles_in_use s"

lemma profiles_in_use_tables: "qmp_tables s' = qmp_tables s \<Longrightarrow> profiles_in_use s' = profiles_in_use s"
  by (simp add: qmp_tables_def profiles_in_use_def)

text \<open>
  A request creates a profile only for a scheduler that has none: the scheduler and the profile of the
  request, as \<open>CreateTrafficQueues_\<close> determines them.
\<close>

definition single_profile :: "platform \<Rightarrow> traffic_queues \<Rightarrow> olt \<Rightarrow> bool" where
  "single_profile P req s \<longleftrightarrow>
     (case (directions_of (tqs_queues req) [],
            get_tmq_map_profile (get_valid_queues_pbit_map (map tq_pbit_map (tqs_queues req)))
              (map tq_priority (tqs_queues req))) of
        (Some d, Some profile) \<Rightarrow>
          get_tm_qmp_id_by_profile profile s \<noteq> -1 \<or>
          om_find (<) (fst (queue_sched_id P d (tqs_network_intf_id req) (tqs_intf_id req) (tqs_onu_id req)
                              (tqs_uni_id req) (tqs_tech_profile_id req) s),
                       tqs_intf_id req, tqs_onu_id req, tqs_uni_id req) (sched_qmp_id_map s) = None
      | _ \<Rightarrow> True)"

lemma in_use_update:
  "om_sorted (<) (sched_qmp_id_map s) \<Longrightarrow> profiles_in_use s \<Longrightarrow> profiles_in_use (update_sched_qmp_id_map key q s)"
  by (auto simp: profiles_in_use_def update_sched_qmp_id_map_def om_insert_set)

lemma in_use_CreateProfile:
  assumes "CreateTrafficQueueMappingProfile P key profile s = (e, s')" "qmp_inv s" "profiles_in_use s"
    and "om_find (<) key (sched_qmp_id_map s) = None"
  shows "profiles_in_use s'"
proof (cases "first_free (tm_qmp_bitset s) 0 MAX_TM_QMP_ID")
  case None
  then show ?thesis using assms(1,3) by (simp add: CreateTrafficQueueMappingProfile_def alloc_tm_qmp_id_def)
next
  case (Some i)
  have sorted: "om_sorted (<) (qmp_id_to_qmp_map s)" "om_sorted (<) (sched_qmp_id_map s)"
    using assms(2) by (simp_all add: qmp_inv_def)
  have "key \<notin> fst ` set (sched_qmp_id_map s)" using assms(4) om_find_None_iff [OF sorted(2)] by simp
  moreover have "sched_qmp_id_map s' = om_insert (<) key (int i) (sched_qmp_id_map s) \<and>
      qmp_id_to_qmp_map s' = om_insert (<) (int i) profile (qmp_id_to_qmp_map s)"
    using assms(1) Some by (auto simp: CreateTrafficQueueMappingProfile_def alloc_tm_qmp_id_def
      update_sched_qmp_id_map_def bal_err_def bal_call_def)
  ultimately show ?thesis using assms(3)
    by (auto simp: profiles_in_use_def om_insert_set [OF sorted(1)] om_insert_set [OF sorted(2)])
qed

lemma in_use_ensure_profile:
  assumes "ensure_profile P req s = Some (r, s')" "qmp_inv s" "profiles_in_use s" "single_profile P req s"
  shows "profiles_in_use s'"
proof (cases "directions_of (tqs_queues req) []")
  case None
  then show ?thesis using assms(1,3) by (simp add: ensure_profile_def)
next
  case (Some d)
  obtain profile where p: "get_tmq_map_profile (get_valid_queues_pbit_map (map tq_pbit_map (tqs_queues req)))
      (map tq_priority (tqs_queues req)) = Some profile"
    using assms(1) Some by (auto simp: ensure_profile_def split: Option.bind_splits)
  obtain k t where q: "queue_sched_id P d (tqs_network_intf_id req) (tqs_intf_id req)
      (tqs_onu_id req) (tqs_uni_id req) (tqs_tech_profile_id req) s = (k, t)" by fastforce
  note same = qmp_queue_sched_id [OF q]
  then have tab: "sched_qmp_id_map t = sched_qmp_id_map s" "qmp_id_to_qmp_map t = qmp_id_to_qmp_map s"
    by (simp_all add: qmp_tables_def)
  have t: "qmp_inv t" "profiles_in_use t"
    using queue_sched_id_invs(1) [OF q] assms(2,3) profiles_in_use_tables [OF same] by simp_all
  let ?key = "(k, tqs_intf_id req, tqs_onu_id req, tqs_uni_id req)"
  show ?thesis
  proof (cases "get_tm_qmp_id_by_profile profile t = -1")
    case True
    then have "om_find (<) ?key (sched_qmp_id_map t) = None"
      using assms(4) Some p q tab by (simp add: single_profile_def get_tm_qmp_id_by_profile_def)
    moreover obtain e u where c: "CreateTrafficQueueMappingProfile P ?key profile t = (e, u)" by fastforce
    ultimately have "profiles_in_use u" using in_use_CreateProfile t by blast
    then show ?thesis using assms(1) Some p q True c by (auto simp: ensure_profile_def split: if_splits)
  next
    case False
    then have "s' = t \<or> s' = update_sched_qmp_id_map ?key (get_tm_qmp_id_by_profile profile t) t"
      using assms(1) Some p q by (auto simp: ensure_profile_def Let_def split: if_splits)
    then show ?thesis using t in_use_update by (auto simp: qmp_inv_def)
  qed
qed

lemma in_use_free:
  assumes "free_tm_qmp_id P key (get_tm_qmp_id key s) s = (r, s')" "qmp_inv s" "profiles_in_use s"
  shows "profiles_in_use s'"
proof -
  let ?q = "get_tm_qmp_id key s" and ?m = "om_erase (<) key (sched_qmp_id_map s)"
  have sorted: "om_sorted (<) (qmp_id_to_qmp_map s)" "om_sorted (<) (sched_qmp_id_map s)"
    using assms(2) by (simp_all add: qmp_inv_def)
  have none: "qmp_ref_count ?q ?m = 0 \<longleftrightarrow> ?q \<notin> snd ` set ?m"
    by (force simp: qmp_ref_count_def filter_empty_conv)
  have gone: "x = ?q" if "x \<in> snd ` set (sched_qmp_id_map s)" "x \<notin> snd ` set ?m" for x
    using that
  proof -
    obtain k where k: "(k, x) \<in> set (sched_qmp_id_map s)" using \<open>x \<in> snd ` set (sched_qmp_id_map s)\<close> by force
    then have "k = key" using \<open>x \<notin> snd ` set ?m\<close> by (force simp: om_erase_set [OF sorted(2)])
    then show "x = ?q" using k om_find_iff [OF sorted(2), of key x] by (simp add: get_tm_qmp_id_def)
  qed
  show ?thesis
  proof (cases "?q \<in> snd ` set ?m")
    case True
    have "snd ` set (sched_qmp_id_map s) \<subseteq> snd ` set ?m"
    proof
      fix x assume "x \<in> snd ` set (sched_qmp_id_map s)"
      then show "x \<in> snd ` set ?m" using gone [of x] True by metis
    qed
    moreover have "s' = s\<lparr>sched_qmp_id_map := ?m\<rparr>"
      using assms(1) True none by (simp add: free_tm_qmp_id_def)
    ultimately show ?thesis using assms(3) by (simp add: profiles_in_use_def)
  next
    case False
    have T: "fst ` set (om_erase (<) ?q (qmp_id_to_qmp_map s)) = fst ` set (qmp_id_to_qmp_map s) - {?q}"
      by (auto simp: om_erase_set [OF sorted(1)])
    have sub: "fst ` set (qmp_id_to_qmp_map s) - {?q} \<subseteq> snd ` set ?m"
      using assms(3) gone unfolding profiles_in_use_def by blast
    show ?thesis
    proof (cases "om_find (<) ?q (qmp_id_to_qmp_map s)")
      case None
      then have "?q \<notin> fst ` set (qmp_id_to_qmp_map s)" using om_find_None_iff [OF sorted(1)] by simp
      moreover have "s' = s\<lparr>sched_qmp_id_map := ?m\<rparr>" using assms(1) False none None by (simp add: free_tm_qmp_id_def Let_def)
      ultimately show ?thesis using sub by (simp add: profiles_in_use_def)
    next
      case (Some p)
      then have "s' = s\<lparr>sched_qmp_id_map := ?m, tm_qmp_bitset := tm_qmp_bitset s - {nat ?q},
          qmp_id_to_qmp_map := om_erase (<) ?q (qmp_id_to_qmp_map s)\<rparr>"
        using assms(1) False none by (simp add: free_tm_qmp_id_def)
      then show ?thesis using sub T by (simp add: profiles_in_use_def)
    qed
  qed
qed

lemma qos_type_only: "get_qos_type i n u l s = (q, t) \<Longrightarrow> \<exists>m. t = s\<lparr>qos_type_map := m\<rparr>"
proof -
  have "\<exists>m. s = s\<lparr>qos_type_map := m\<rparr>" by (rule exI [of _ "qos_type_map s"]) simp
  then show "get_qos_type i n u l s = (q, t) \<Longrightarrow> \<exists>m. t = s\<lparr>qos_type_map := m\<rparr>"
    by (auto simp: get_qos_type_def Let_def split: option.splits)
qed

lemma queue_sched_id_qos:
  "fst (queue_sched_id P d nni i n u tp (s\<lparr>qos_type_map := m\<rparr>)) = fst (queue_sched_id P d nni i n u tp s)"
  by (simp add: queue_sched_id_def get_tm_sched_id_def tm_sched_alloc_def Let_def split: option.split)

lemma in_use_CreateTrafficQueues:
  assumes "CreateTrafficQueues P req s = Some (st, s')" "profile_inv s" "single_profile P req s"
  shows "profiles_in_use s'"
proof -
  obtain q t where q: "get_qos_type (tqs_intf_id req) (tqs_onu_id req) (tqs_uni_id req) (length (tqs_queues req)) s = (q, t)"
    by fastforce
  then obtain m where t: "t = s\<lparr>qos_type_map := m\<rparr>" using qos_type_only [OF q] by blast
  have inv: "qmp_inv t" "profiles_in_use t" "single_profile P req t"
    using assms(2,3) by (simp_all add: t profile_inv_def qmp_inv_def profiles_in_use_def single_profile_def
      get_tm_qmp_id_by_profile_def queue_sched_id_qos split: option.splits)
  show ?thesis
  proof (cases "q = QOS_PRIORITY_TO_QUEUE")
    case False
    then have "create_queues P req q (tqs_queues req) t = (st, s')" using assms(1) q by (simp add: CreateTrafficQueues_def)
    then show ?thesis using qmp_create_queues inv(2) profiles_in_use_tables by blast
  next
    case True
    obtain r u where u: "ensure_profile P req t = Some (r, u)"
      using assms(1) q True by (auto simp: CreateTrafficQueues_def split: Option.bind_splits)
    then have "profiles_in_use u" using in_use_ensure_profile inv by blast
    moreover have "s' = u \<or> create_queues P req q (tqs_queues req) u = (st, s')"
      using assms(1) q True u by (auto simp: CreateTrafficQueues_def split: option.splits)
    ultimately show ?thesis using qmp_create_queues profiles_in_use_tables by blast
  qed
qed

lemma in_use_release_profile:
  assumes "release_profile P req qos d s = (e, s')" "qmp_inv s" "profiles_in_use s"
  shows "profiles_in_use s'"
proof (cases "qmp_tables s' = qmp_tables s")
  case True
  then show ?thesis using assms(3) profiles_in_use_tables by blast
next
  case False
  obtain k t where q: "queue_sched_id P d (tqs_network_intf_id req) (tqs_intf_id req)
      (tqs_onu_id req) (tqs_uni_id req) (tqs_tech_profile_id req) s = (k, t)" by fastforce
  let ?key = "(k, tqs_intf_id req, tqs_onu_id req, tqs_uni_id req)"
  obtain r u where u: "free_tm_qmp_id P ?key (get_tm_qmp_id ?key t) t = (r, u)" by fastforce
  have "qmp_tables s' = qmp_tables u"
    using assms(1) False q u by (auto simp: release_profile_def RemoveTrafficQueueMappingProfile_def bal_err_def bal_call_def
      Let_def split: if_splits)
  moreover have "profiles_in_use u"
    using in_use_free [OF u] queue_sched_id_invs(1) [OF q] assms(2,3) profiles_in_use_tables [OF qmp_queue_sched_id [OF q]]
    by simp
  ultimately show ?thesis using profiles_in_use_tables by blast
qed

lemma in_use_RemoveTrafficQueues:
  assumes "RemoveTrafficQueues P req s = Some (st, s')" "tm_inv s" "profiles_in_use s"
  shows "profiles_in_use s'"
proof -
  obtain q t where q: "get_qos_type (tqs_intf_id req) (tqs_onu_id req) (tqs_uni_id req) (length (tqs_queues req)) s = (q, t)"
    by fastforce
  then have t: "tm_inv t" "profiles_in_use t"
    using get_qos_type_frame [OF q] profiles_in_use_tables [OF qmp_get_qos_type [OF q]] assms(2,3) by simp_all
  obtain fin st' d u where r: "remove_queues P req q (tqs_queues req) Status_OK [] t = Some ((fin, st', d), u)"
    using assms(1) q by (auto simp: RemoveTrafficQueues_def split: Option.bind_splits)
  have u: "qmp_inv u" "profiles_in_use u"
    using tm_inv_remove_queues [OF t(1) r] profiles_in_use_tables [OF qmp_remove_queues [OF r]] t(2)
    by (simp_all add: tm_inv_def)
  obtain e v where v: "release_profile P req q d u = (e, v)" by fastforce
  have "profiles_in_use v" using in_use_release_profile [OF v u] .
  moreover have "qmp_tables s' = qmp_tables u \<or> qmp_tables s' = qmp_tables v"
    using assms(1) q r v by (auto simp: RemoveTrafficQueues_def clear_qos_type_def Let_def split: if_splits)
  ultimately show ?thesis using u(2) profiles_in_use_tables by blast
qed

section \<open>Every reachable state\<close>

definition separate_profiles :: "platform \<Rightarrow> request \<Rightarrow> olt \<Rightarrow> bool" where
  "separate_profiles P req s \<longleftrightarrow>
     (case req of Provisioning (Create_traffic_queues q) \<Rightarrow> single_profile P q s | _ \<Rightarrow> True)"

lemma qmp_OpenoltService:
  assumes "OpenoltService P req s = Some r" "\<And>q. req \<noteq> Provisioning (Create_traffic_queues q)"
    "\<And>q. req \<noteq> Provisioning (Remove_traffic_queues q)"
  shows "qmp_tables (snd r) = qmp_tables s"
proof (cases req)
  case (Flow_add f)
  then show ?thesis using qmp_flows.inv_FlowAddWrapper [of P f s "fst r" "snd r" "qmp_tables s"] assms(1) by simp
next
  case (Flow_remove f)
  then show ?thesis using qmp_flows.inv_FlowRemoveWrapper [of s "qmp_tables s" P f] assms(1) by auto
next
  case (Provisioning q)
  then show ?thesis using assms by (cases q) auto
qed (use assms(1) in auto)

lemma in_use_OpenoltService:
  assumes "OpenoltService P req s = Some (st, s')" "separate_profiles P req s" "tm_inv s" "profiles_in_use s"
  shows "profiles_in_use s'"
proof -
  consider q where "req = Provisioning (Create_traffic_queues q)" | q where "req = Provisioning (Remove_traffic_queues q)"
    | "\<And>q. req \<noteq> Provisioning (Create_traffic_queues q)" "\<And>q. req \<noteq> Provisioning (Remove_traffic_queues q)"
    by blast
  then show ?thesis
  proof cases
    case (1 q)
    then show ?thesis using in_use_CreateTrafficQueues [of P q s st s'] assms
      by (simp add: separate_profiles_def profile_inv_def tm_inv_def)
  next
    case (2 q)
    then show ?thesis using in_use_RemoveTrafficQueues [of P q s st s'] assms by simp
  next
    case 3
    have "qmp_tables s' = qmp_tables s" using qmp_OpenoltService [OF assms(1) 3] by simp
    from profiles_in_use_tables [OF this] show ?thesis using assms(4) by simp
  qed
qed

interpretation profiles: step_invariant "\<lambda>s. s = init_olt" "guarded_step (separate_profiles P) P"
  "\<lambda>s. tm_inv s \<and> profiles_in_use s" for P
proof
  fix s s' :: olt
  show "s = init_olt \<Longrightarrow> tm_inv s \<and> profiles_in_use s" by (simp add: tm_inv_def profiles_in_use_def)
  assume inv: "tm_inv s \<and> profiles_in_use s" and step: "guarded_step (separate_profiles P) P s s'"
  have "guarded_step (\<lambda>_ _. True) P s s'"
    using step by (cases rule: guarded_step.cases) (auto intro: guarded_step.intros)
  then have "tm_inv s'" using tm_tables.inv_step inv by blast
  moreover have "qmp_tables s' = qmp_tables s \<or> (\<exists>req st. separate_profiles P req s \<and> OpenoltService P req s = Some (st, s'))"
    using step by (cases rule: guarded_step.cases)
      (auto simp: qmp_quiet.view_Enable qmp_quiet.view_Probe qmp_quiet.view_starts qmp_quiet.view_callback
        qmp_quiet.view_stream_step qmp_quiet.view_agent_step)
  then have "profiles_in_use s'" using inv in_use_OpenoltService profiles_in_use_tables [of s' s] by blast
  ultimately show "tm_inv s' \<and> profiles_in_use s'" by simp
qed



section \<open>Two directions with different numbers of queues\<close>

lemma om_erase_absent: "om_sorted (<) m \<Longrightarrow> om_find (<) k m = None \<Longrightarrow> om_erase (<) (k :: 'k::linorder) m = m"
  by (induction m) (auto simp: om_sorted_def split: if_splits)

text \<open>The release of a profile a scheduler does not have is decided by a variable that was never set.\<close>

lemma release_without_profile:
  assumes "tm_inv s" "has_scheduler d req s" "profile_key P d req s \<notin> fst ` set (sched_qmp_id_map s)"
  shows "release_profile P req QOS_PRIORITY_TO_QUEUE d s =
    (if uninit_u P s ''result'' \<noteq> 0 then RemoveTrafficQueueMappingProfile P (-1) s else (BCM_ERR_OK, s))"
proof -
  have inv: "sched_inv s" "qmp_inv s" using assms(1) by (simp_all add: tm_inv_def)
  let ?k = "profile_key P d req s"
  have sorted: "om_sorted (<) (qmp_id_to_qmp_map s)" "om_sorted (<) (sched_qmp_id_map s)"
    using inv(2) by (simp_all add: qmp_inv_def)
  have none: "om_find (<) ?k (sched_qmp_id_map s) = None" using om_find_None_iff [OF sorted(2)] assms(3) by simp
  have nonneg: "-1 \<notin> fst ` set (qmp_id_to_qmp_map s)" using inv(2) by (auto simp: qmp_inv_def)
  then have "-1 \<notin> snd ` set (sched_qmp_id_map s)" using inv(2) by (auto simp: qmp_inv_def)
  then have "qmp_ref_count (-1) (sched_qmp_id_map s) = 0" by (force simp: qmp_ref_count_def filter_empty_conv)
  moreover have "om_find (<) (-1) (qmp_id_to_qmp_map s) = None" using nonneg om_find_None_iff [OF sorted(1)] by simp
  ultimately have "free_tm_qmp_id P ?k (get_tm_qmp_id ?k s) s = (uninit_u P s ''result'' \<noteq> 0, s)"
    using none om_erase_absent [OF sorted(2) none] by (simp add: free_tm_qmp_id_def get_tm_qmp_id_def)
  moreover have "get_tm_qmp_id ?k s = -1" using none by (simp add: get_tm_qmp_id_def)
  moreover have "d = upstream \<or> d = downstream \<and> is_tm_sched_id_present (uint (tqs_intf_id req)) (uint (tqs_onu_id req))
      (uint (tqs_uni_id req)) d (uint (tqs_tech_profile_id req)) s"
    using assms(2) by (auto simp: has_scheduler_def is_tm_sched_id_present_def)
  ultimately show ?thesis using queue_sched_id_has_scheduler [OF inv(1) assms(2), of P]
    by (auto simp: release_profile_def profile_key_def Let_def)
qed

text \<open>
  A subscriber with one queue upwards and several downwards.  The first request makes the QoS type that of a
  single queue for both, so that the second creates no profile; the removal of the first forgets the QoS type, and
  the removal of the second takes it for that of several queues and releases a profile it does not have.
\<close>

theorem mixed_queue_counts:
  assumes "tm_inv s" "qos_type_map s (uni_of U) = None" "uni_of D = uni_of U"
    and U: "length (tqs_queues U) = 1" "\<forall>q\<in>set (tqs_queues U). GetDirection (tq_direction q) = upstream"
    and D: "1 < length (tqs_queues D)" "\<forall>q\<in>set (tqs_queues D). GetDirection (tq_direction q) = downstream"
    and "has_scheduler downstream D s" "\<forall>q. (q, uni_of U) \<notin> fst ` set (sched_qmp_id_map s)"
    and "CreateTrafficQueues P U s = Some (st1, s1)" "code st1 = OK"
    and "CreateTrafficQueues P D s1 = Some (st2, s2)" "code st2 = OK"
    and "RemoveTrafficQueues P U s2 = Some (st3, s3)" "code st3 = OK"
  shows "tm_view s3 = tm_view s \<and>
    fst (get_qos_type (tqs_intf_id D) (tqs_onu_id D) (tqs_uni_id D) (length (tqs_queues D)) s3) = QOS_PRIORITY_TO_QUEUE \<and>
    release_profile P D QOS_PRIORITY_TO_QUEUE downstream s3 =
      (if uninit_u P s3 ''result'' \<noteq> 0 then RemoveTrafficQueueMappingProfile P (-1) s3 else (BCM_ERR_OK, s3))"
proof -
  have up: "has_scheduler upstream U s" by (simp add: has_scheduler_def)
  have fixed: "qos_of U = QOS_FIXED_QUEUE" "tqs_queues U \<noteq> []" using U(1) by (auto simp: qos_of_def)
  have fresh: "profile_key P d r s \<notin> fst ` set (sched_qmp_id_map s)" if "uni_of r = uni_of U" for d r
    using assms(9) that by (simp add: profile_key_def)
  have s1: "tm_view s1 = tm_view (fix_qos U s)"
    using CreateTrafficQueues_gains [OF assms(10,11,1) up fixed(2) U(2) assms(2) fresh] fixed(1) by simp
  then have t1: "tm_inv s1" "qos_type_map s1 = (qos_type_map s)(uni_of U \<mapsto> QOS_FIXED_QUEUE)" "sched_map s1 = sched_map s"
    using tm_inv_view [OF s1] assms(1) fixed(1) by (simp_all add: view_defs fix_qos_def)
  then have "get_qos_type (tqs_intf_id D) (tqs_onu_id D) (tqs_uni_id D) (length (tqs_queues D)) s1 = (QOS_FIXED_QUEUE, s1)"
    using assms(3) by (simp add: get_qos_type_def)
  then have "create_queues P D QOS_FIXED_QUEUE (tqs_queues D) s1 = (st2, s2)"
    using assms(12) by (simp add: CreateTrafficQueues_def)
  then have s2: "tm_view s2 = tm_view s1"
    using create_queues_view D(2) t1(1,3) assms(8) has_scheduler_view by blast
  have t2: "tm_inv s2" "has_scheduler upstream U s2" "qos_type_map s2 (uni_of U) = Some (qos_of U)"
    using tm_inv_view [OF s2] t1 s2 fixed(1) by (simp_all add: has_scheduler_def view_defs)
  obtain v where v: "s3 = clear_qos_type (tqs_intf_id U) (tqs_onu_id U) (tqs_uni_id U) v" "tm_view v = tm_view s2"
    using RemoveTrafficQueues_view [OF assms(14,15) t2(1,2) fixed(2) U(2) t2(3)] fixed(1) by auto
  have s3: "tm_view s3 = tm_view s"
    using v s2 s1 assms(2) by (auto simp: clear_qos_type_def fix_qos_def view_defs fun_upd_idem)
  have t3: "tm_inv s3" "has_scheduler downstream D s3" "sched_qmp_id_map s3 = sched_qmp_id_map s"
    "qos_type_map s3 (uni_of D) = None" "sched_map s3 = sched_map s"
    using tm_inv_view [OF s3] assms(1-3,8) s3 by (simp_all add: view_defs has_scheduler_def)
  have "profile_key P downstream D s3 \<notin> fst ` set (sched_qmp_id_map s3)"
    using fresh [OF assms(3)] profile_key_view [OF t3(5)] t3(3) by simp
  from release_without_profile [OF t3(1,2) this] show ?thesis
    using s3 t3(4) D(1) by (simp add: get_qos_type_def)
qed

end
