(* ===== verification/Profile_Threads.thy ===== *)
theory Profile_Threads
  imports Profile_Service Threads
begin

text \<open>
  Requests for queues served by several threads of the gRPC server, as far as they share mapping profiles:
  the part of \<open>CreateTrafficQueues_\<close> that finds or creates the profile and the part of \<open>RemoveTrafficQueues_\<close>
  that releases it (\<open>agent/src/core_api_handler.cc\<close>, \<open>agent/src/core_utils.cc\<close>), as the sequence of their
  sections.  The tables are written under \<open>tm_qmp_bitset_lock\<close> and read without it; a read is a section of its own.
\<close>

section \<open>The sections of a request\<close>

datatype ensure_pc =
    Finding
  | Looking int
  | Registering
  | Referring int bool
  | Sending int

datatype release_pc =
    Fetching_id
  | Locating int
  | Erasing int bool
  | Clearing_profile int

text \<open>\<open>Undefined\<close> is a thread that erases through an iterator of an entry that is gone.\<close>

datatype profile_thread =
    Ensuring sched_qmp_id_map_key "uint32 list" ensure_pc
  | Releasing sched_qmp_id_map_key release_pc
  | Answered bcmos_errno
  | Undefined

definition register_profile :: "uint32 list \<Rightarrow> olt \<Rightarrow> nat option \<times> olt" where
  "register_profile profile s =
     (case first_free (tm_qmp_bitset s) 0 MAX_TM_QMP_ID of
        Some i \<Rightarrow> (Some i, s\<lparr>tm_qmp_bitset := insert i (tm_qmp_bitset s),
                              qmp_id_to_qmp_map := om_insert (<) (int i) profile (qmp_id_to_qmp_map s)\<rparr>)
      | None \<Rightarrow> (None, s))"

definition send_profile :: "platform \<Rightarrow> int \<Rightarrow> uint32 list \<Rightarrow> olt \<Rightarrow> bcmos_errno \<times> olt" where
  "send_profile P qmp profile s =
     bal_err P (Cfg_set (Obj ''tm_qmp'' [qmp])
       [(''type'', Sym ''BCMOLT_TM_QMP_TYPE_PBITS''), (''pbits_to_tmq_id'', Bytes (pbits_to_tmq_id profile))]) s"

definition ensure_step ::
    "platform \<Rightarrow> sched_qmp_id_map_key \<Rightarrow> uint32 list \<Rightarrow> ensure_pc \<Rightarrow> olt \<Rightarrow> profile_thread \<times> olt" where
  "ensure_step P key profile pc s =
     (case pc of
        Finding \<Rightarrow>
          (let q = get_tm_qmp_id_by_profile profile s
           in (Ensuring key profile (if q = -1 then Registering else Looking q), s))
      | Looking q \<Rightarrow>
          (if get_tm_qmp_id key s = -1 then Ensuring key profile (Referring q False) else Answered BCM_ERR_OK, s)
      | Registering \<Rightarrow>
          (case register_profile profile s of
             (Some i, s) \<Rightarrow> (Ensuring key profile (Referring (int i) True), s)
           | (None, s) \<Rightarrow> (Answered BCM_ERR_RANGE, s))
      | Referring q new \<Rightarrow>
          (if new then Ensuring key profile (Sending q) else Answered BCM_ERR_OK, update_sched_qmp_id_map key q s)
      | Sending q \<Rightarrow> (let (err, s) = send_profile P q profile s in (Answered err, s)))"

text \<open>The count of the references and the removal of a profile without any.\<close>

definition drop_unreferenced :: "platform \<Rightarrow> int \<Rightarrow> olt \<Rightarrow> bool \<times> olt" where
  "drop_unreferenced P q s =
     (if qmp_ref_count q (sched_qmp_id_map s) = 0 then
        (case om_find (<) q (qmp_id_to_qmp_map s) of
           Some _ \<Rightarrow> (True, s\<lparr>tm_qmp_bitset := tm_qmp_bitset s - {nat q},
                             qmp_id_to_qmp_map := om_erase (<) q (qmp_id_to_qmp_map s)\<rparr>)
         | None \<Rightarrow> (uninit_u P s ''result'' \<noteq> 0, s))
      else (False, s))"

definition release_step :: "platform \<Rightarrow> sched_qmp_id_map_key \<Rightarrow> release_pc \<Rightarrow> olt \<Rightarrow> profile_thread \<times> olt" where
  "release_step P key pc s =
     (case pc of
        Fetching_id \<Rightarrow> (Releasing key (Locating (get_tm_qmp_id key s)), s)
      | Locating q \<Rightarrow> (Releasing key (Erasing q (om_find (<) key (sched_qmp_id_map s) \<noteq> None)), s)
      | Erasing q found \<Rightarrow>
          if found \<and> om_find (<) key (sched_qmp_id_map s) = None then (Undefined, s)
          else
            let s = (if found then s\<lparr>sched_qmp_id_map := om_erase (<) key (sched_qmp_id_map s)\<rparr> else s);
                (last, s) = drop_unreferenced P q s
            in (if last then Releasing key (Clearing_profile q) else Answered BCM_ERR_OK, s)
      | Clearing_profile q \<Rightarrow> (let (err, s) = RemoveTrafficQueueMappingProfile P q s in (Answered err, s)))"

fun profile_thread_step :: "platform \<Rightarrow> profile_thread \<Rightarrow> olt \<Rightarrow> (profile_thread \<times> olt) option" where
  "profile_thread_step P (Ensuring key profile pc) s = Some (ensure_step P key profile pc s)"
| "profile_thread_step P (Releasing key pc) s = Some (release_step P key pc s)"
| "profile_thread_step P (Answered e) s = None"
| "profile_thread_step P Undefined s = None"

section \<open>A thread that is not interrupted\<close>

fun complete :: "nat \<Rightarrow> platform \<Rightarrow> profile_thread \<Rightarrow> olt \<Rightarrow> (bcmos_errno \<times> olt) option" where
  "complete n P (Answered e) s = Some (e, s)"
| "complete 0 P th s = None"
| "complete (Suc n) P th s = do { (th, s) \<leftarrow> profile_thread_step P th s; complete n P th s }"

lemma complete_step [simp]:
  "complete (Suc n) P (Ensuring key profile pc) s = (case ensure_step P key profile pc s of (th, s) \<Rightarrow> complete n P th s)"
  "complete (Suc n) P (Releasing key rpc) s = (case release_step P key rpc s of (th, s) \<Rightarrow> complete n P th s)"
  by simp_all

lemma complete_ensuring:
  "complete 4 P (Ensuring key profile Finding) s =
     Some (let q = get_tm_qmp_id_by_profile profile s
           in if q = -1 then CreateTrafficQueueMappingProfile P key profile s
              else (BCM_ERR_OK, if get_tm_qmp_id key s = -1 then update_sched_qmp_id_map key q s else s))"
  by (simp add: eval_nat_numeral ensure_step_def register_profile_def send_profile_def
      CreateTrafficQueueMappingProfile_def alloc_tm_qmp_id_def Let_def split: option.split prod.split)

lemma free_tm_qmp_id_sections:
  "free_tm_qmp_id P key q s = drop_unreferenced P q (s\<lparr>sched_qmp_id_map := om_erase (<) key (sched_qmp_id_map s)\<rparr>)"
  by (simp add: free_tm_qmp_id_def drop_unreferenced_def Let_def)

lemma complete_releasing:
  assumes "om_sorted (<) (sched_qmp_id_map s)"
  shows "complete 4 P (Releasing key Fetching_id) s =
     Some (let q = get_tm_qmp_id key s; (last, s) = free_tm_qmp_id P key q s
           in if last then RemoveTrafficQueueMappingProfile P q s else (BCM_ERR_OK, s))"
proof -
  have "(if om_find (<) key (sched_qmp_id_map s) \<noteq> None
       then s\<lparr>sched_qmp_id_map := om_erase (<) key (sched_qmp_id_map s)\<rparr> else s) =
      s\<lparr>sched_qmp_id_map := om_erase (<) key (sched_qmp_id_map s)\<rparr>"
    using om_erase_absent [OF assms, of key] by simp
  then show ?thesis
    by (cases "om_find (<) key (sched_qmp_id_map s)")
      (simp_all add: eval_nat_numeral release_step_def free_tm_qmp_id_sections Let_def split: prod.split)
qed

section \<open>Threads that create profiles\<close>

definition registered :: "int \<Rightarrow> uint32 list \<Rightarrow> olt \<Rightarrow> bool" where
  "registered q profile s \<longleftrightarrow>
     (\<exists>p. om_find (<) q (qmp_id_to_qmp_map s) = Some p \<and> check_tm_qmp_equality profile p)"

definition profile_of :: "sched_qmp_id_map_key \<Rightarrow> olt \<Rightarrow> int option" where
  "profile_of key s = om_find (<) key (sched_qmp_id_map s)"

lemma check_tm_qmp_equality_refl [simp]: "check_tm_qmp_equality p p"
  by (simp add: check_tm_qmp_equality_def list_all_iff)

lemma find_qmp_registered:
  "om_sorted (<) m \<Longrightarrow> find_qmp profile m \<noteq> -1 \<Longrightarrow>
     \<exists>p. om_find (<) (find_qmp profile m) m = Some p \<and> check_tm_qmp_equality profile p"
proof -
  have "find_qmp profile m \<noteq> -1 \<Longrightarrow> \<exists>p. (find_qmp profile m, p) \<in> set m \<and> check_tm_qmp_equality profile p" for m
    by (induction profile m rule: find_qmp.induct) auto
  then show "om_sorted (<) m \<Longrightarrow> find_qmp profile m \<noteq> -1 \<Longrightarrow>
     \<exists>p. om_find (<) (find_qmp profile m) m = Some p \<and> check_tm_qmp_equality profile p"
    using om_find_iff by metis
qed

text \<open>What a section adds to the tables: nothing, a profile under a new id, or the reference of its own key.\<close>

definition extends_tables :: "sched_qmp_id_map_key \<Rightarrow> olt \<Rightarrow> olt \<Rightarrow> bool" where
  "extends_tables key s s' \<longleftrightarrow>
     (\<forall>k. k \<noteq> key \<longrightarrow> profile_of k s' = profile_of k s) \<and>
     (\<forall>q p. om_find (<) q (qmp_id_to_qmp_map s) = Some p \<longrightarrow> om_find (<) q (qmp_id_to_qmp_map s') = Some p)"

lemma extends_tables_registered: "extends_tables key s s' \<Longrightarrow> registered q p s \<Longrightarrow> registered q p s'"
  by (auto simp: extends_tables_def registered_def)

lemma extends_tables_other: "extends_tables key s s' \<Longrightarrow> key \<noteq> k \<Longrightarrow> profile_of k s' = profile_of k s"
  unfolding extends_tables_def by metis

lemma extends_tables_refl [simp]: "extends_tables key s s"
  by (simp add: extends_tables_def)

lemma om_find_insert:
  assumes "om_sorted (<) m"
  shows "om_find (<) (j :: 'k::linorder) (om_insert (<) k v m) =
    (if j = k \<and> om_find (<) k m = None then Some v else om_find (<) j m)"
  using lin.om_find_put [OF assms, of j k v] by (auto simp: om_insert_def split: option.split)

lemma om_find_insert_other:
  "om_sorted (<) m \<Longrightarrow> k \<noteq> j \<Longrightarrow> om_find (<) j (om_insert (<) (k :: 'k::linorder) v m) = om_find (<) j m"
  by (simp add: om_find_insert)

lemma om_insert_keeps:
  "om_sorted (<) m \<Longrightarrow> om_find (<) (j :: 'k::linorder) m = Some p \<Longrightarrow> om_find (<) j (om_insert (<) k v m) = Some p"
  by (auto simp: om_find_insert)

lemma same_tables:
  assumes "profile_view s' = profile_view s"
  shows "qmp_inv s' = qmp_inv s" "extends_tables key s s'" "registered q p s' = registered q p s"
    "profile_of k s' = profile_of k s"
  using assms by (simp_all add: profile_view_def qmp_inv_def extends_tables_def registered_def profile_of_def)

lemma register_profile_tables:
  assumes "qmp_inv s" "register_profile profile s = (Some i, s')"
  shows "qmp_inv s'" "extends_tables key s s'" "registered (int i) profile s'" "sched_qmp_id_map s' = sched_qmp_id_map s"
proof -
  have i: "first_free (tm_qmp_bitset s) 0 MAX_TM_QMP_ID = Some i"
    and s': "s' = s\<lparr>tm_qmp_bitset := insert i (tm_qmp_bitset s),
                  qmp_id_to_qmp_map := om_insert (<) (int i) profile (qmp_id_to_qmp_map s)\<rparr>"
    using assms(2) by (auto simp: register_profile_def split: option.splits)
  have j: "i < MAX_TM_QMP_ID" "i \<notin> tm_qmp_bitset s" using first_free_Some [OF i] by auto
  then have new: "int i \<notin> fst ` set (qmp_id_to_qmp_map s)" using assms(1) by (force simp: qmp_inv_def)
  have sorted: "om_sorted (<) (qmp_id_to_qmp_map s)" using assms(1) by (simp add: qmp_inv_def)
  show "qmp_inv s'" using assms(1) j new unfolding s' by (auto simp: qmp_inv_def om_lin_simps)
  show "extends_tables key s s'" using om_insert_keeps [OF sorted] by (simp add: extends_tables_def profile_of_def s')
  show "registered (int i) profile s'" using om_find_insert_new [OF sorted new] by (simp add: registered_def s')
  show "sched_qmp_id_map s' = sched_qmp_id_map s" by (simp add: s')
qed

lemma update_sched_qmp_id_map_tables:
  assumes "qmp_inv s" "registered q p s" "profile_of key s = None"
  shows "qmp_inv (update_sched_qmp_id_map key q s)" "extends_tables key s (update_sched_qmp_id_map key q s)"
    "registered q p (update_sched_qmp_id_map key q s)" "profile_of key (update_sched_qmp_id_map key q s) = Some q"
proof -
  have sorted: "om_sorted (<) (qmp_id_to_qmp_map s)" "om_sorted (<) (sched_qmp_id_map s)"
    using assms(1) by (simp_all add: qmp_inv_def)
  have "q \<in> fst ` set (qmp_id_to_qmp_map s)"
    using assms(2) om_find_None_iff [OF sorted(1), of q] by (auto simp: registered_def)
  then show "qmp_inv (update_sched_qmp_id_map key q s)" by (rule qmp_inv_update [OF assms(1)])
  show "extends_tables key s (update_sched_qmp_id_map key q s)"
    using om_find_insert_other [OF sorted(2)] by (simp add: extends_tables_def profile_of_def update_sched_qmp_id_map_def)
  show "registered q p (update_sched_qmp_id_map key q s)"
    using assms(2) by (simp add: registered_def update_sched_qmp_id_map_def)
  show "profile_of key (update_sched_qmp_id_map key q s) = Some q"
    using assms(3) om_find_insert_new [OF sorted(2), of key q] om_find_None_iff [OF sorted(2), of key]
    by (simp add: profile_of_def update_sched_qmp_id_map_def)
qed

text \<open>What a thread that ensures a profile relies on, section by section.\<close>

definition ensuring :: "sched_qmp_id_map_key \<Rightarrow> uint32 list \<Rightarrow> profile_thread \<Rightarrow> olt \<Rightarrow> bool" where
  "ensuring key profile th s \<longleftrightarrow>
     (case th of
        Ensuring k p pc \<Rightarrow> k = key \<and> p = profile \<and>
          (case pc of
             Looking q \<Rightarrow> profile_of key s = None \<and> registered q profile s
           | Referring q _ \<Rightarrow> profile_of key s = None \<and> registered q profile s
           | Sending q \<Rightarrow> profile_of key s = Some q \<and> registered q profile s
           | _ \<Rightarrow> profile_of key s = None)
      | Answered e \<Rightarrow> e = BCM_ERR_OK \<longrightarrow> (\<exists>q. profile_of key s = Some q \<and> registered q profile s)
      | _ \<Rightarrow> False)"

lemma ensuring_extends:
  "extends_tables k s s' \<Longrightarrow> k \<noteq> key \<Longrightarrow> ensuring key profile th s \<Longrightarrow> ensuring key profile th s'"
  using extends_tables_registered [of k s s'] extends_tables_other [of k s s' key]
  by (auto simp: ensuring_def split: profile_thread.splits ensure_pc.splits)

lemma ensuring_step:
  assumes "qmp_inv s" "ensuring key profile th s" "profile_thread_step P th s = Some (th', s')"
  shows "qmp_inv s' \<and> extends_tables key s s' \<and> ensuring key profile th' s'"
proof -
  obtain pc where th: "th = Ensuring key profile pc"
    using assms(2,3) by (cases th) (auto simp: ensuring_def)
  have step: "ensure_step P key profile pc s = (th', s')" using assms(3) th by simp
  show ?thesis
  proof (cases pc)
    case Finding
    then show ?thesis using step assms(1,2) th find_qmp_registered [of "qmp_id_to_qmp_map s" profile]
      by (auto simp: ensure_step_def ensuring_def Let_def get_tm_qmp_id_by_profile_def registered_def qmp_inv_def)
  next
    case (Looking q)
    then show ?thesis using step assms(1,2) th
      by (auto simp: ensure_step_def ensuring_def get_tm_qmp_id_def profile_of_def split: if_splits)
  next
    case Registering
    obtain r u where u: "register_profile profile s = (r, u)" by fastforce
    show ?thesis
    proof (cases r)
      case None
      then have "u = s" using u by (auto simp: register_profile_def split: option.splits)
      then show ?thesis using step Registering u None assms(1) by (auto simp: ensure_step_def ensuring_def)
    next
      case (Some i)
      note t = register_profile_tables [OF assms(1) u [unfolded Some]]
      show ?thesis using step Registering u Some t assms(2) th
        by (auto simp: ensure_step_def ensuring_def profile_of_def)
    qed
  next
    case (Referring q new)
    then have "registered q profile s" "profile_of key s = None" using assms(2) th by (simp_all add: ensuring_def)
    note t = update_sched_qmp_id_map_tables [OF assms(1) this]
    show ?thesis using step Referring t by (auto simp: ensure_step_def ensuring_def)
  next
    case (Sending q)
    then have pv: "profile_view s' = profile_view s" and "\<exists>e. th' = Answered e"
      using step by (auto simp: ensure_step_def send_profile_def bal_err_def bal_call_def profile_view_def)
    then show ?thesis using same_tables(1,3) [OF pv] same_tables(2,4) [OF pv, of key] assms(1,2) th Sending
      by (auto simp: ensuring_def)
  qed
qed

interpretation ensures: thread_invariant "profile_thread_step P" qmp_inv
  "\<lambda>ts i s. distinct (map fst rs) \<and> length ts = length rs \<and> ensuring (fst (rs ! i)) (snd (rs ! i)) (ts ! i) s" for P rs
proof
  fix s s' :: olt and ts :: "profile_thread list" and i th
  let ?ready = "\<lambda>ts i s. distinct (map fst rs) \<and> length ts = length rs \<and>
     ensuring (fst (rs ! i)) (snd (rs ! i)) (ts ! i) s"
  assume a: "qmp_inv s" "\<forall>j<length ts. ?ready ts j s" "i < length ts" "profile_thread_step P (ts ! i) s = Some (th, s')"
  then have t: "qmp_inv s'" "extends_tables (fst (rs ! i)) s s'" "ensuring (fst (rs ! i)) (snd (rs ! i)) th s'"
    using ensuring_step [OF a(1) _ a(4)] by blast+
  have rs: "distinct (map fst rs)" "length ts = length rs" using a(2,3) by blast+
  have "ensuring (fst (rs ! j)) (snd (rs ! j)) (ts[i := th] ! j) s'" if j: "j < length ts" for j
  proof (cases "j = i")
    case True
    then show ?thesis using t(3) j by simp
  next
    case False
    then have "fst (rs ! i) \<noteq> fst (rs ! j)" using rs a(3) j by (simp add: distinct_conv_nth)
    then show ?thesis using ensuring_extends [OF t(2)] a(2) j False by simp
  qed
  then show "qmp_inv s' \<and> (\<forall>j<length ts. ?ready (ts[i := th]) j s')" using t(1) rs by simp
qed

section \<open>Properties\<close>

text \<open>
  A thread that is not interrupted by another does what the requests of theory \<open>Traffic_Queues\<close> do: the sections of
  finding or creating a profile give what \<open>CreateTrafficQueues_\<close> does with the profile of its queues, those of
  releasing it what \<open>RemoveTrafficQueues_\<close> does with the profile of a scheduler.
\<close>

theorem uninterrupted_profile_thread:
  "ensure_profile P req s =
     (case directions_of (tqs_queues req) [] of
        None \<Rightarrow> Some (Some (bcm_to_grpc_err P BCM_ERR_PARM ''direction-not-supported''), s)
      | Some direction \<Rightarrow> do {
          profile \<leftarrow> get_tmq_map_profile (get_valid_queues_pbit_map (map tq_pbit_map (tqs_queues req)))
                       (map tq_priority (tqs_queues req));
          let (sched_id, s) = queue_sched_id P direction (tqs_network_intf_id req) (tqs_intf_id req)
                (tqs_onu_id req) (tqs_uni_id req) (tqs_tech_profile_id req) s;
          (err, s) \<leftarrow> complete 4 P (Ensuring (sched_id, tqs_intf_id req, tqs_onu_id req, tqs_uni_id req) profile Finding) s;
          Some (if err = BCM_ERR_OK then None
                else Some (bcm_to_grpc_err P err ''Failed to create tm queue mapping profile''), s) }) \<and>
   (om_sorted (<) (sched_qmp_id_map s) \<longrightarrow>
     Some (release_profile P req QOS_PRIORITY_TO_QUEUE upstream s) =
     (let (sched_id, s) = queue_sched_id P upstream (tqs_network_intf_id req) (tqs_intf_id req) (tqs_onu_id req)
            (tqs_uni_id req) (tqs_tech_profile_id req) s
      in complete 4 P (Releasing (sched_id, tqs_intf_id req, tqs_onu_id req, tqs_uni_id req) Fetching_id) s))"
  unfolding complete_ensuring
  by (auto simp: ensure_profile_def release_profile_def queue_sched_id_def Let_def complete_releasing
      split: option.split prod.split intro!: Option.bind_cong)

lemma uninterrupted_profile_thread_witness:
  "let s = init_olt\<lparr>sched_qmp_id_map := [((0, 0, 1, 0), 0)], qmp_id_to_qmp_map := [(0, replicate 8 1)], tm_qmp_bitset := {0}\<rparr>
   in Some (release_profile all_ok sample_queues QOS_PRIORITY_TO_QUEUE upstream s) =
     (let (sched_id, s) = queue_sched_id all_ok upstream (tqs_network_intf_id sample_queues) (tqs_intf_id sample_queues)
            (tqs_onu_id sample_queues) (tqs_uni_id sample_queues) (tqs_tech_profile_id sample_queues) s
      in complete 4 all_ok (Releasing (sched_id, tqs_intf_id sample_queues, tqs_onu_id sample_queues,
           tqs_uni_id sample_queues) Fetching_id) s)"
proof -
  let ?s = "init_olt\<lparr>sched_qmp_id_map := [((0, 0, 1, 0), 0)], qmp_id_to_qmp_map := [(0, replicate 8 1)], tm_qmp_bitset := {0}\<rparr>"
  have "om_sorted (<) (sched_qmp_id_map ?s)" by (simp add: om_sorted_def)
  then show ?thesis using conjunct2 [OF uninterrupted_profile_thread [of all_ok sample_queues ?s]] by (simp only: Let_def)
qed



text \<open>
  C12: a profile is released while it is being given to another scheduler.  The thread that creates queues finds
  the profile of its queues, the thread that removes the queues of the only scheduler with this profile
  releases it, and then the first stores its reference: it answers OK, its scheduler refers to a profile that is
  gone, and the id of that profile is free for another one.
\<close>

theorem concurrent_release_dangles:
  assumes "qmp_inv s" "profile_of old s = Some q" "\<forall>k. k \<noteq> old \<longrightarrow> profile_of k s \<noteq> Some q"
    and "get_tm_qmp_id_by_profile profile s = q" "profile_of new s = None"
    and "run_schedule (profile_thread_step P) ([0, 0] @ [1, 1, 1] @ [0])
           ([Ensuring new profile Finding, Releasing old Fetching_id], s) = Some (ts, s')"
  shows "ts ! 0 = Answered BCM_ERR_OK \<and> profile_of new s' = Some q \<and>
    om_find (<) q (qmp_id_to_qmp_map s') = None \<and> nat q \<notin> tm_qmp_bitset s' \<and> \<not> qmp_inv s'"
proof -
  let ?t = "s\<lparr>sched_qmp_id_map := om_erase (<) old (sched_qmp_id_map s)\<rparr>"
  let ?u = "?t\<lparr>tm_qmp_bitset := tm_qmp_bitset s - {nat q}, qmp_id_to_qmp_map := om_erase (<) q (qmp_id_to_qmp_map s)\<rparr>"
  have sorted: "om_sorted (<) (qmp_id_to_qmp_map s)" "om_sorted (<) (sched_qmp_id_map s)"
    using assms(1) by (simp_all add: qmp_inv_def)
  have "(old, q) \<in> set (sched_qmp_id_map s)" using assms(2) om_find_iff [OF sorted(2)] by (simp add: profile_of_def)
  then have "q \<in> fst ` set (qmp_id_to_qmp_map s)" using assms(1) by (force simp: qmp_inv_def)
  then have q: "q \<noteq> -1" "om_find (<) q (qmp_id_to_qmp_map s) \<noteq> None"
    using assms(1) om_find_None_iff [OF sorted(1), of q] by (auto simp: qmp_inv_def)
  have "q \<notin> snd ` set (om_erase (<) old (sched_qmp_id_map s))"
    using assms(3) om_find_iff [OF sorted(2)] by (auto simp: om_erase_set [OF sorted(2)] profile_of_def)
  then have "qmp_ref_count q (om_erase (<) old (sched_qmp_id_map s)) = 0"
    by (force simp: qmp_ref_count_def filter_empty_conv)
  then have drop: "drop_unreferenced P q ?t = (True, ?u)" using q(2) by (auto simp: drop_unreferenced_def)
  have "ts ! 0 = Answered BCM_ERR_OK \<and> s' = update_sched_qmp_id_map new q ?u"
    using assms(2,4-6) q(1) drop
    by (auto simp: ensure_step_def release_step_def get_tm_qmp_id_def profile_of_def Let_def)
  moreover have "profile_of new (update_sched_qmp_id_map new q ?u) = Some q"
    using assms(2,5) lin.om_find_erase [OF sorted(2), of new old]
      om_find_insert [OF lin.om_sorted_erase [OF sorted(2)], of new new q]
    by (auto simp: profile_of_def update_sched_qmp_id_map_def)
  moreover have "om_find (<) q (om_erase (<) q (qmp_id_to_qmp_map s)) = None"
    using lin.om_find_erase [OF sorted(1), of q q] by simp
  moreover have "\<not> qmp_inv s'" if "profile_of new s' = Some q" "om_find (<) q (qmp_id_to_qmp_map s') = None"
    using that om_find_iff [of "sched_qmp_id_map s'" new q] om_find_None_iff [of "qmp_id_to_qmp_map s'" q]
    by (force simp: qmp_inv_def profile_of_def)
  ultimately show ?thesis by (simp add: update_sched_qmp_id_map_def)
qed

lemma concurrent_release_dangles_witness:
  "\<exists>ts s'. run_schedule (profile_thread_step all_ok) ([0, 0] @ [1, 1, 1] @ [0])
       ([Ensuring (2, 0, 2, 0) (replicate 8 1) Finding, Releasing (1, 0, 1, 0) Fetching_id],
        init_olt\<lparr>sched_qmp_id_map := [((1, 0, 1, 0), 0)], qmp_id_to_qmp_map := [(0, replicate 8 1)], tm_qmp_bitset := {0}\<rparr>) =
      Some (ts, s') \<and> ts ! 0 = Answered BCM_ERR_OK \<and> profile_of (2, 0, 2, 0) s' = Some 0 \<and> \<not> qmp_inv s'"
proof -
  let ?s = "init_olt\<lparr>sched_qmp_id_map := [((1, 0, 1, 0), 0)], qmp_id_to_qmp_map := [(0, replicate 8 1)], tm_qmp_bitset := {0}\<rparr>"
  let ?ts = "[Ensuring (2, 0, 2, 0) (replicate 8 1) Finding, Releasing (1, 0, 1, 0) Fetching_id]"
  have inv: "qmp_inv ?s" by (simp add: qmp_inv_def om_sorted_def MAX_TM_QMP_ID_def)
  have "om_sorted (<) (sched_qmp_id_map ?s)" by (simp add: om_sorted_def)
  then have only: "\<forall>k. k \<noteq> (1, 0, 1, 0) \<longrightarrow> profile_of k ?s \<noteq> Some 0"
    unfolding profile_of_def by (subst om_find_iff) simp_all
  have s: "profile_of (1, 0, 1, 0) ?s = Some 0"
    "get_tm_qmp_id_by_profile (replicate 8 1) ?s = 0" "profile_of (2, 0, 2, 0) ?s = None"
    by (simp_all add: profile_of_def get_tm_qmp_id_by_profile_def)
  have "\<exists>c. run_schedule (profile_thread_step all_ok) ([0, 0] @ [1, 1, 1] @ [0]) (?ts, ?s) = Some c"
    by (simp add: ensure_step_def release_step_def get_tm_qmp_id_by_profile_def get_tm_qmp_id_def drop_unreferenced_def
        qmp_ref_count_def)
  then obtain ts s' where run: "run_schedule (profile_thread_step all_ok) ([0, 0] @ [1, 1, 1] @ [0]) (?ts, ?s) = Some (ts, s')"
    by (metis surj_pair)
  show ?thesis using concurrent_release_dangles [OF inv s(1) only s(2,3) run] run by blast
qed

text \<open>
  Two removals of the same queues at the same time: both look the entry up before they take the lock, and the
  second erases through an iterator that the first has made invalid.
\<close>

theorem concurrent_releases_undefined:
  assumes "om_sorted (<) (sched_qmp_id_map s)" "profile_of key s = Some q"
    and "run_schedule (profile_thread_step P) [0, 0, 1, 1, 0, 1]
           ([Releasing key Fetching_id, Releasing key Fetching_id], s) = Some (ts, s')"
  shows "ts ! 1 = Undefined"
proof -
  obtain last t where t: "drop_unreferenced P q (s\<lparr>sched_qmp_id_map := om_erase (<) key (sched_qmp_id_map s)\<rparr>) = (last, t)"
    by fastforce
  then have "sched_qmp_id_map t = om_erase (<) key (sched_qmp_id_map s)"
    by (auto simp: drop_unreferenced_def split: if_splits option.splits)
  then show ?thesis using assms(2,3) t lin.om_find_erase [OF assms(1), of key key]
    by (auto simp: release_step_def get_tm_qmp_id_def profile_of_def Let_def split: if_splits)
qed

end
