(* ===== verification/Completion_Protocol.thy ===== *)
theory Completion_Protocol
  imports Indications
begin

text \<open>
  The waits for a completion indication and the indication callbacks as concurrent threads
  (\<open>wait_for_alloc_action\<close>, \<open>wait_for_gem_action\<close>, \<open>wait_for_onu_deactivate_complete\<close> of
  \<open>agent/src/core_utils.cc\<close>, the completion callbacks of \<open>agent/src/indications.cc\<close>): a step is what
  a thread does while it holds the lock of the map, or between two such sections.  Any number of
  requests may wait for the same key.

  A queue lives on the stack of its waiter and is named by it; a name is free again once the waiter
  has returned.  An entry of the map is the node the container allocated, with the queue it points to
  (\<open>None\<close> for \<open>NULL\<close>); assigning to an entry that exists keeps its node, as \<open>operator[]\<close> does.
\<close>

section \<open>Threads and steps\<close>

datatype 'r phase =
    Waiting
  | Popped 'r
  | Expired
  | Invalidated
  | Erased

record 'r proto =
  entries :: "cfg_compltd_key \<rightharpoonup> nat \<times> nat option"
  waiters :: "nat \<rightharpoonup> cfg_compltd_key \<times> 'r phase"
  queues :: "nat \<Rightarrow> 'r list"
  next_node :: nat
  iterator :: "(cfg_compltd_key \<times> nat) option"

text \<open>\<open>map[k] = q\<close>.\<close>

definition assign_entry :: "cfg_compltd_key \<Rightarrow> nat option \<Rightarrow> 'r proto \<Rightarrow> 'r proto" where
  "assign_entry k q \<sigma> =
     (case entries \<sigma> k of
        Some (n, _) \<Rightarrow> \<sigma>\<lparr>entries := (entries \<sigma>)(k \<mapsto> (n, q))\<rparr>
      | None \<Rightarrow> \<sigma>\<lparr>entries := (entries \<sigma>)(k \<mapsto> (next_node \<sigma>, q)), next_node := Suc (next_node \<sigma>)\<rparr>)"

definition erase_entry :: "cfg_compltd_key \<Rightarrow> 'r proto \<Rightarrow> 'r proto" where
  "erase_entry k \<sigma> = \<sigma>\<lparr>entries := (entries \<sigma>)(k := None)\<rparr>"

definition set_phase :: "nat \<Rightarrow> cfg_compltd_key \<Rightarrow> 'r phase \<Rightarrow> 'r proto \<Rightarrow> 'r proto" where
  "set_phase w k ph \<sigma> = \<sigma>\<lparr>waiters := (waiters \<sigma>)(w \<mapsto> (k, ph))\<rparr>"

definition return_waiter :: "nat \<Rightarrow> 'r proto \<Rightarrow> 'r proto" where
  "return_waiter w \<sigma> = \<sigma>\<lparr>waiters := (waiters \<sigma>)(w := None)\<rparr>"

definition push_result :: "nat \<Rightarrow> 'r \<Rightarrow> 'r proto \<Rightarrow> 'r proto" where
  "push_result w r \<sigma> = \<sigma>\<lparr>queues := (queues \<sigma>)(w := queues \<sigma> w @ [r])\<rparr>"

text \<open>The steps of a waiting request.\<close>

inductive wait_step :: "'r proto \<Rightarrow> 'r proto \<Rightarrow> bool" where
  register: "waiters \<sigma> w = None \<Longrightarrow>
     wait_step \<sigma> (assign_entry k (Some w) (set_phase w k Waiting (\<sigma>\<lparr>queues := (queues \<sigma>)(w := [])\<rparr>)))"
| pop: "waiters \<sigma> w = Some (k, Waiting) \<Longrightarrow> queues \<sigma> w = r # rs \<Longrightarrow>
     wait_step \<sigma> (set_phase w k (Popped r) (\<sigma>\<lparr>queues := (queues \<sigma>)(w := rs)\<rparr>))"
| expire: "waiters \<sigma> w = Some (k, Waiting) \<Longrightarrow> queues \<sigma> w = [] \<Longrightarrow>
     wait_step \<sigma> (set_phase w k Expired \<sigma>)"
| invalidate: "waiters \<sigma> w = Some (k, Expired) \<Longrightarrow>
     wait_step \<sigma> (assign_entry k None (set_phase w k Invalidated \<sigma>))"
| early_return: "waiters \<sigma> w = Some (k, Invalidated) \<Longrightarrow> wait_step \<sigma> (return_waiter w \<sigma>)"
| erase: "waiters \<sigma> w = Some (k, ph) \<Longrightarrow> ph = Popped r \<or> ph = Invalidated \<Longrightarrow>
     wait_step \<sigma> (erase_entry k (set_phase w k Erased \<sigma>))"
| return: "waiters \<sigma> w = Some (k, Erased) \<Longrightarrow> wait_step \<sigma> (return_waiter w \<sigma>)"

text \<open>
  The callback of the allocs and of the deactivations looks up and pushes under the lock; an entry
  that is missing or \<open>NULL\<close> gets nothing.
\<close>

inductive locked_step :: "'r proto \<Rightarrow> 'r proto \<Rightarrow> bool" where
  deliver_result: "entries \<sigma> k = Some (n, Some w) \<Longrightarrow> locked_step \<sigma> (push_result w r \<sigma>)"
| drop_result: "entries \<sigma> k = None \<or> entries \<sigma> k = Some (n, None) \<Longrightarrow> locked_step \<sigma> \<sigma>"

text \<open>
  The callback of the GEM ports keeps the iterator it found across an unlock and pushes through it
  under a new lock.
\<close>

inductive unlocked_step :: "'r proto \<Rightarrow> 'r proto \<Rightarrow> bool" where
  find_entry: "iterator \<sigma> = None \<Longrightarrow> entries \<sigma> k = Some (n, q) \<Longrightarrow>
     unlocked_step \<sigma> (\<sigma>\<lparr>iterator := Some (k, n)\<rparr>)"
| push_through: "iterator \<sigma> = Some (k, n) \<Longrightarrow> entries \<sigma> k = Some (n, q) \<Longrightarrow>
     unlocked_step \<sigma> (case q of None \<Rightarrow> \<sigma>\<lparr>iterator := None\<rparr>
                              | Some w \<Rightarrow> (push_result w r \<sigma>)\<lparr>iterator := None\<rparr>)"

inductive_cases wait_stepE: "wait_step \<sigma> \<sigma>'"
inductive_cases locked_stepE: "locked_step \<sigma> \<sigma>'"
inductive_cases unlocked_stepE: "unlocked_step \<sigma> \<sigma>'"

definition locked_system :: "'r proto \<Rightarrow> 'r proto \<Rightarrow> bool" where
  "locked_system \<sigma> \<sigma>' \<longleftrightarrow> wait_step \<sigma> \<sigma>' \<or> locked_step \<sigma> \<sigma>'"

definition gem_system :: "'r proto \<Rightarrow> 'r proto \<Rightarrow> bool" where
  "gem_system \<sigma> \<sigma>' \<longleftrightarrow> wait_step \<sigma> \<sigma>' \<or> unlocked_step \<sigma> \<sigma>'"

definition init_proto :: "'r proto" where
  "init_proto = \<lparr>entries = Map.empty, waiters = Map.empty, queues = (\<lambda>_. []), next_node = 0, iterator = None\<rparr>"

lemma init_proto_sel [simp]:
  "entries init_proto = Map.empty" "waiters init_proto = Map.empty" "iterator init_proto = None"
  by (simp_all add: init_proto_def)

section \<open>No dangling queue\<close>

text \<open>A queue an entry points to belongs to a waiter that still waits for that key.\<close>

definition entries_live :: "'r proto \<Rightarrow> bool" where
  "entries_live \<sigma> \<longleftrightarrow>
     (\<forall>k n w. entries \<sigma> k = Some (n, Some w) \<longrightarrow>
        (\<exists>ph. waiters \<sigma> w = Some (k, ph) \<and> (ph = Waiting \<or> ph = Expired \<or> (\<exists>r. ph = Popped r))))"

lemma entries_liveD:
  "entries_live \<sigma> \<Longrightarrow> entries \<sigma> k = Some (n, Some w) \<Longrightarrow>
     \<exists>ph. waiters \<sigma> w = Some (k, ph) \<and> (ph = Waiting \<or> ph = Expired \<or> (\<exists>r. ph = Popped r))"
  unfolding entries_live_def by blast

lemma assign_entry_sel [simp]:
  "waiters (assign_entry k q \<sigma>) = waiters \<sigma>" "queues (assign_entry k q \<sigma>) = queues \<sigma>"
  "iterator (assign_entry k q \<sigma>) = iterator \<sigma>"
  by (auto simp: assign_entry_def split: option.split)

lemma assign_entry_entries:
  "entries (assign_entry k q \<sigma>) = (entries \<sigma>)(k \<mapsto> ((case entries \<sigma> k of Some (n, _) \<Rightarrow> n | None \<Rightarrow> next_node \<sigma>), q))"
  by (auto simp: assign_entry_def split: option.split)

lemmas entry_defs = assign_entry_entries erase_entry_def set_phase_def return_waiter_def push_result_def

lemma entries_live_wait_step: "wait_step \<sigma> \<sigma>' \<Longrightarrow> entries_live \<sigma> \<Longrightarrow> entries_live \<sigma>'"
proof (induction rule: wait_step.induct)
  case (register \<sigma> w k)
  then have "entries \<sigma> k' \<noteq> Some (n, Some w)" for k' n using entries_liveD by fastforce
  then show ?case using register by (auto simp: entries_live_def entry_defs)
qed (fastforce simp: entries_live_def entry_defs)+

lemma entries_live_locked_step: "locked_step \<sigma> \<sigma>' \<Longrightarrow> entries_live \<sigma> \<Longrightarrow> entries_live \<sigma>'"
  by (auto elim!: locked_stepE simp: entries_live_def entry_defs)

lemma entries_live_unlocked_step: "unlocked_step \<sigma> \<sigma>' \<Longrightarrow> entries_live \<sigma> \<Longrightarrow> entries_live \<sigma>'"
  by (auto elim!: unlocked_stepE simp: entries_live_def entry_defs split: option.split)

lemma entries_live_init: "entries_live init_proto"
  by (simp add: entries_live_def)

lemma entries_live_reachable:
  assumes "(locked_system :: 'r proto \<Rightarrow> 'r proto \<Rightarrow> bool)\<^sup>*\<^sup>* \<sigma> \<sigma>' \<or> gem_system\<^sup>*\<^sup>* \<sigma> \<sigma>'" "entries_live \<sigma>"
  shows "entries_live \<sigma>'"
proof -
  have "locked_system\<^sup>*\<^sup>* \<sigma> \<sigma>' \<Longrightarrow> entries_live \<sigma>'"
    by (induction rule: rtranclp_induct)
      (use assms(2) entries_live_wait_step entries_live_locked_step in \<open>auto simp: locked_system_def\<close>)
  moreover have "gem_system\<^sup>*\<^sup>* \<sigma> \<sigma>' \<Longrightarrow> entries_live \<sigma>'"
    by (induction rule: rtranclp_induct)
      (use assms(2) entries_live_wait_step entries_live_unlocked_step in \<open>auto simp: gem_system_def\<close>)
  ultimately show ?thesis using assms(1) by blast
qed


section \<open>Runs\<close>

lemma registered:
  "waiters \<sigma> w = None \<Longrightarrow> \<exists>n \<sigma>'. wait_step \<sigma> \<sigma>' \<and> entries \<sigma>' = (entries \<sigma>)(k \<mapsto> (n, Some w)) \<and>
     waiters \<sigma>' = (waiters \<sigma>)(w \<mapsto> (k, Waiting)) \<and> queues \<sigma>' w = []"
  using wait_step.register [of \<sigma> w k] by (fastforce simp: entry_defs)

text \<open>A wait without interference: registered, and then either served or timed out.\<close>

lemma run_served:
  assumes "waiters \<sigma> w = None"
  shows "\<exists>\<sigma>1 \<sigma>2. locked_system\<^sup>*\<^sup>* \<sigma> \<sigma>1 \<and> locked_system\<^sup>*\<^sup>* \<sigma>1 \<sigma>2 \<and> waiters \<sigma>1 w = Some (k, Popped r) \<and>
    waiters \<sigma>2 = waiters \<sigma> \<and> entries \<sigma>2 = (entries \<sigma>)(k := None)"
proof -
  obtain n \<tau> where \<tau>: "wait_step \<sigma> \<tau>" "entries \<tau> = (entries \<sigma>)(k \<mapsto> (n, Some w))"
    "waiters \<tau> = (waiters \<sigma>)(w \<mapsto> (k, Waiting))" "queues \<tau> w = []"
    using registered [OF assms] by blast
  let ?d = "push_result w r \<tau>"
  let ?p = "set_phase w k (Popped r) (?d\<lparr>queues := (queues ?d)(w := [])\<rparr>)"
  let ?e = "erase_entry k (set_phase w k Erased ?p)"
  have d: "locked_system \<tau> ?d"
    unfolding locked_system_def using \<tau>(2) by (intro disjI2 locked_step.deliver_result [of _ k n]) simp
  have p: "locked_system ?d ?p"
    unfolding locked_system_def using \<tau>(3,4) by (intro disjI1 wait_step.pop) (simp_all add: push_result_def)
  have e: "locked_system ?p ?e"
    unfolding locked_system_def by (intro disjI1 wait_step.erase) (auto simp: set_phase_def)
  have f: "locked_system ?e (return_waiter w ?e)"
    unfolding locked_system_def by (intro disjI1 wait_step.return) (simp add: entry_defs)
  have "locked_system \<sigma> \<tau>" using \<tau>(1) by (simp add: locked_system_def)
  then have "locked_system\<^sup>*\<^sup>* \<sigma> ?p"
    using d p by (meson converse_rtranclp_into_rtranclp rtranclp.rtrancl_refl)
  moreover have "locked_system\<^sup>*\<^sup>* ?p (return_waiter w ?e)"
    using e f by (meson converse_rtranclp_into_rtranclp rtranclp.rtrancl_refl)
  ultimately show ?thesis using \<tau>(2,3) assms
    by (intro exI [of _ ?p] exI [of _ "return_waiter w ?e"]) (auto simp: entry_defs)
qed

lemma run_timed_out:
  assumes "waiters \<sigma> w = None"
  shows "\<exists>n \<sigma>1 \<sigma>2. locked_system\<^sup>*\<^sup>* \<sigma> \<sigma>1 \<and> locked_system\<^sup>*\<^sup>* \<sigma>1 \<sigma>2 \<and> waiters \<sigma>1 w = Some (k, Expired) \<and>
    waiters \<sigma>2 = waiters \<sigma> \<and>
    entries \<sigma>2 = (if early then (entries \<sigma>)(k \<mapsto> (n, None)) else (entries \<sigma>)(k := None))"
proof -
  obtain n \<tau> where \<tau>: "wait_step \<sigma> \<tau>" "entries \<tau> = (entries \<sigma>)(k \<mapsto> (n, Some w))"
    "waiters \<tau> = (waiters \<sigma>)(w \<mapsto> (k, Waiting))" "queues \<tau> w = []"
    using registered [OF assms] by blast
  let ?x = "set_phase w k Expired \<tau>"
  let ?i = "assign_entry k None (set_phase w k Invalidated ?x)"
  let ?e = "erase_entry k (set_phase w k Erased ?i)"
  have x: "locked_system \<tau> ?x"
    unfolding locked_system_def using \<tau>(3,4) by (intro disjI1 wait_step.expire) simp_all
  have i: "locked_system ?x ?i"
    unfolding locked_system_def by (intro disjI1 wait_step.invalidate) (simp add: set_phase_def)
  have r: "locked_system ?i (return_waiter w ?i)"
    unfolding locked_system_def by (intro disjI1 wait_step.early_return) (simp add: set_phase_def)
  have e: "locked_system ?i ?e"
    unfolding locked_system_def
    by (rule disjI1, rule wait_step.erase [where ph = Invalidated]) (simp_all add: set_phase_def)
  have f: "locked_system ?e (return_waiter w ?e)"
    unfolding locked_system_def by (intro disjI1 wait_step.return) (simp add: entry_defs)
  have "locked_system \<sigma> \<tau>" using \<tau>(1) by (simp add: locked_system_def)
  then have "locked_system\<^sup>*\<^sup>* \<sigma> ?x"
    using x by (meson converse_rtranclp_into_rtranclp rtranclp.rtrancl_refl)
  moreover have "locked_system\<^sup>*\<^sup>* ?x (return_waiter w (if early then ?i else ?e))"
    using i r e f by (cases early) (auto intro: converse_rtranclp_into_rtranclp)
  ultimately show ?thesis using \<tau>(2,3) assms
    by (intro exI [of _ n] exI [of _ ?x] exI [of _ "return_waiter w (if early then ?i else ?e)"])
      (auto simp: entry_defs)
qed

section \<open>Refinement\<close>

text \<open>What the sequential model keeps of the entries: whether the pointer is \<open>NULL\<close>.\<close>

definition abs_entries :: "'r proto \<Rightarrow> (cfg_compltd_key \<rightharpoonup> bool)" where
  "abs_entries \<sigma> k = map_option (\<lambda>(n, q). q \<noteq> None) (entries \<sigma> k)"

lemma abs_entries_update:
  "entries \<sigma>' = (entries \<sigma>)(k \<mapsto> (n, q)) \<Longrightarrow> abs_entries \<sigma>' = (abs_entries \<sigma>)(k \<mapsto> (q \<noteq> None))"
  "entries \<sigma>' = (entries \<sigma>)(k := None) \<Longrightarrow> abs_entries \<sigma>' = (abs_entries \<sigma>)(k := None)"
  by (auto simp: abs_entries_def fun_eq_iff)

text \<open>The three waits differ in the map only in whether they return early.\<close>

definition realised :: "cfg_compltd_key \<Rightarrow> 'r option \<Rightarrow> (cfg_compltd_key \<rightharpoonup> bool) \<Rightarrow> (cfg_compltd_key \<rightharpoonup> bool) \<Rightarrow> bool" where
  "realised k res before after \<longleftrightarrow>
     (\<forall>(\<sigma> :: 'r proto) w. abs_entries \<sigma> = before \<longrightarrow> waiters \<sigma> w = None \<longrightarrow>
        (\<exists>\<sigma>1 \<sigma>2. locked_system\<^sup>*\<^sup>* \<sigma> \<sigma>1 \<and> locked_system\<^sup>*\<^sup>* \<sigma>1 \<sigma>2 \<and>
           waiters \<sigma>1 w = Some (k, case res of Some r \<Rightarrow> Popped r | None \<Rightarrow> Expired) \<and>
           abs_entries \<sigma>2 = after \<and> waiters \<sigma>2 = waiters \<sigma>))"

lemma realised_served: "realised k (Some r) m (m(k := None))"
  unfolding realised_def option.case using run_served abs_entries_update(2) by (smt (verit))

lemma realised_timed_out: "realised k None m (m(k := None))" "realised k None m (m(k \<mapsto> False))"
proof -
  show "realised k None m (m(k := None))"
    unfolding realised_def option.case using run_timed_out [of _ _ k False] abs_entries_update(2) by (smt (verit))
  show "realised k None m (m(k \<mapsto> False))"
    unfolding realised_def option.case using run_timed_out [of _ _ k True] abs_entries_update(1) by (smt (verit))
qed



lemma wait_for_gem_action_refines:
  assumes "wait_for_gem_action P intf gem action s = (err, s')"
    and "rsp = bal_rsp_of P (Pop_wait (gem_obj (uint intf) (uint gem)))
                 (s\<lparr>gem_cfg_compltd_map := (gem_cfg_compltd_map s)((intf, gem) \<mapsto> True)\<rparr>)"
  shows "realised (intf, gem) (r_cfg_result rsp) (gem_cfg_compltd_map s) (gem_cfg_compltd_map s')"
proof (cases "r_cfg_result rsp")
  case None
  then have "gem_cfg_compltd_map s' = (gem_cfg_compltd_map s)((intf, gem) := None) \<or>
      gem_cfg_compltd_map s' = (gem_cfg_compltd_map s)((intf, gem) \<mapsto> False)"
    using assms by (auto simp: wait_for_gem_action_def get_gem_obj_state_def bal_call_def Let_def
        split: if_splits prod.splits)
  then show ?thesis using None realised_timed_out by metis
next
  case (Some r)
  then have "gem_cfg_compltd_map s' = (gem_cfg_compltd_map s)((intf, gem) := None)"
    using assms by (auto simp: wait_for_gem_action_def bal_call_def Let_def)
  then show ?thesis using Some realised_served by metis
qed

lemma wait_for_onu_deactivate_refines:
  assumes "wait_for_onu_deactivate_complete P intf onu s = (err, s')"
    and "rsp = bal_rsp_of P (Pop_wait (onu_obj (uint intf) (uint onu)))
                 (s\<lparr>onu_deact_compltd_map := (onu_deact_compltd_map s)((intf, onu) \<mapsto> True)\<rparr>)"
  shows "realised (intf, onu) (r_deact_result rsp) (onu_deact_compltd_map s) (onu_deact_compltd_map s')"
proof -
  have "onu_deact_compltd_map s' = (onu_deact_compltd_map s)((intf, onu) := None)"
    using assms(1) by (auto simp: wait_for_onu_deactivate_complete_def bal_call_def Let_def split: option.splits)
  then show ?thesis using realised_served realised_timed_out(1) by (metis option.exhaust)
qed

text \<open>
  The callback of the GEM ports is not safe in the same way: one request that times out suffices
  for it to hold an iterator to an entry that has been erased by the time it takes the lock
  again.
\<close>

theorem gem_iterator_may_dangle:
  "\<exists>\<sigma> k n. gem_system\<^sup>*\<^sup>* (init_proto :: 'r proto) \<sigma> \<and> iterator \<sigma> = Some (k, n) \<and>
     waiters \<sigma> = Map.empty \<and> entries \<sigma> k = None"
proof -
  let ?k = "(0, 1024) :: cfg_compltd_key"
  let ?a = "assign_entry ?k (Some 0) (set_phase 0 ?k Waiting (init_proto\<lparr>queues := (queues init_proto)(0 := [])\<rparr>)) :: 'r proto"
  let ?b = "?a\<lparr>iterator := Some (?k, 0)\<rparr>"
  let ?c = "set_phase 0 ?k Expired ?b"
  let ?d = "assign_entry ?k None (set_phase 0 ?k Invalidated ?c)"
  let ?e = "erase_entry ?k (set_phase 0 ?k Erased ?d)"
  let ?f = "return_waiter 0 ?e"
  have a: "gem_system init_proto ?a"
    unfolding gem_system_def by (rule disjI1, rule wait_step.register) simp
  have b: "gem_system ?a ?b"
    unfolding gem_system_def
    by (rule disjI2, rule unlocked_step.find_entry) (simp_all add: entry_defs init_proto_def)
  have c: "gem_system ?b ?c"
    unfolding gem_system_def
    by (rule disjI1, rule wait_step.expire) (simp_all add: entry_defs init_proto_def)
  have d: "gem_system ?c ?d"
    unfolding gem_system_def by (rule disjI1, rule wait_step.invalidate) (simp add: set_phase_def)
  have e: "gem_system ?d ?e"
    unfolding gem_system_def
    by (rule disjI1, rule wait_step.erase [where ph = Invalidated]) (simp_all add: set_phase_def)
  have f: "gem_system ?e ?f"
    unfolding gem_system_def by (rule disjI1, rule wait_step.return) (simp add: entry_defs)
  have "gem_system\<^sup>*\<^sup>* init_proto ?f"
    using a b c d e f by (meson converse_rtranclp_into_rtranclp rtranclp.rtrancl_refl)
  then show ?thesis
    by (intro exI [of _ ?f] exI [of _ ?k] exI [of _ 0]) (auto simp: entry_defs init_proto_def)
qed


end
