(* ===== verification/Transceiver.thy ===== *)
theory Transceiver
  imports Device
begin

text \<open>
  The PON transceivers (\<open>agent/device/device.cc\<close>): which are present, their EEPROM and what it says of the
  PON.  The output of the presence command and the files of the host are parameters, and so are the constants of
  a vendor's \<open>vendor.h\<close>.  The measured power is in theory \<open>Power\<close>.
\<close>

section \<open>Bytes\<close>

text \<open>
  \<open>hex_to_uinteger\<close> adds the bytes as \<open>double\<close>s and converts each sum to \<open>uint32_t\<close>, which is undefined
  for a sum out of range (\<open>None\<close>); a sum below is exact.
\<close>

fun be_sum :: "uint8 list \<Rightarrow> nat \<Rightarrow> nat option" where
  "be_sum [] res = Some res"
| "be_sum (b # bs) res =
     (let v = unat b * 2 ^ (8 * length bs) + res in if v < 2 ^ 32 then be_sum bs v else None)"

definition hex_to_uinteger :: "uint8 list \<Rightarrow> (uint32 \<times> bool) option" where
  "hex_to_uinteger bs =
     (if length bs > 8 then Some (0, False) else map_option (\<lambda>n. (of_nat n, True)) (be_sum bs 0))"

definition hex_to_ascii_string :: "uint8 list \<Rightarrow> string \<times> bool" where
  "hex_to_ascii_string bs = (map (\<lambda>b. char_of (unat b)) bs, True)"

definition get_value_from_pointer_u :: "uint8 list \<Rightarrow> nat" where
  "get_value_from_pointer_u bs = (if length bs > 4 then 0 else foldl (\<lambda>sum b. sum * 256 + unat b) 0 bs)"

section \<open>Which transceivers are present\<close>

text \<open>\<open>getline\<close> with a blank as delimiter: \<open>acc\<close> is the line read so far.\<close>

fun getlines :: "string \<Rightarrow> string \<Rightarrow> string list" where
  "getlines acc [] = (if acc = [] then [] else [acc])"
| "getlines acc (c # cs) = (if c = CHR '' '' then acc # getlines [] cs else getlines (acc @ [c]) cs)"

definition dec_digit :: "char \<Rightarrow> nat option" where
  "dec_digit c = (let n = of_char c :: nat in if 48 \<le> n \<and> n \<le> 57 then Some (n - 48) else None)"

text \<open>The value of the leading digits, if there is one.\<close>

fun dec_digits_value :: "nat option \<Rightarrow> string \<Rightarrow> nat option" where
  "dec_digits_value acc [] = acc"
| "dec_digits_value acc (c # cs) =
     (case dec_digit c of
        None \<Rightarrow> acc
      | Some d \<Rightarrow> dec_digits_value (Some (10 * (case acc of None \<Rightarrow> 0 | Some n \<Rightarrow> n) + d)) cs)"

text \<open>\<open>std::stoi\<close>; both of its exceptions are \<open>None\<close>, since no caller tells them apart.\<close>

definition stoi :: "string \<Rightarrow> int option" where
  "stoi s =
     (let t = dropWhile is_c_space s;
          v = (case t of
                 [] \<Rightarrow> None
               | c # cs \<Rightarrow>
                   if c = CHR ''-'' then map_option (\<lambda>n. - int n) (dec_digits_value None cs)
                   else if c = CHR ''+'' then map_option int (dec_digits_value None cs)
                   else map_option int (dec_digits_value None (c # cs)))
      in case v of None \<Rightarrow> None | Some i \<Rightarrow> if int32 i then Some i else None)"

record trx_config =
  total_trx_ports :: nat
  bus_index :: "int list"
  vendor_name_at :: "nat \<times> nat"
  vendor_oui_at :: "nat \<times> nat"
  vendor_part_number_at :: "nat \<times> nat"
  vendor_revision_at :: "nat \<times> nat"
  downstream_wavelength_at :: "nat \<times> nat"
  wavelength_divisor :: nat
  eeprom_path_prefix :: string
  eeprom_file_name :: string
  port_addr :: int

definition present_ports :: "trx_config \<Rightarrow> string \<Rightarrow> int set" where
  "present_ports C out =
     set (filter (\<lambda>i. i < int (total_trx_ports C)) (List.map_filter stoi (getlines [] out)))"

datatype bcmolt_pon_type =
    BCMOLT_PON_TYPE_UNKNOWN | BCMOLT_PON_TYPE_GPON | BCMOLT_PON_TYPE_XGPON | BCMOLT_PON_TYPE_XGPON_GPON_WDMA

record pon_data =
  pd_valid :: bool
  pd_wavelength :: uint32
  pd_pon_type :: bcmolt_pon_type

record trx_data =
  sfp_index :: int
  trx_vendor_name :: string
  trx_vendor_oui :: string
  trx_vendor_part_no :: string
  trx_vendor_rev :: string
  p_data0 :: pon_data
  p_data1 :: pon_data

text \<open>The transceiver data are a set of pointers: the list is in the order of their addresses.\<close>

record pon_trx =
  sfp_presence_data :: "int set"
  eeprom_read_path :: "int \<rightharpoonup> string"
  eeprom_data :: "int \<rightharpoonup> uint8 list"
  t_data :: "trx_data list"

text \<open>The exit status of the command, what it wrote, and whether the file could be removed.\<close>

definition read_sfp_presence_data ::
    "trx_config \<Rightarrow> int \<times> string \<times> bool \<Rightarrow> pon_trx \<Rightarrow> int set \<times> pon_trx" where
  "read_sfp_presence_data C cmd x =
     (case cmd of (status_code, res, removed) \<Rightarrow>
        if status_code \<noteq> 0 then (sfp_presence_data x, x)
        else if \<not> removed then (sfp_presence_data x, x)
        else let x = x\<lparr>sfp_presence_data := present_ports C res\<rparr> in (sfp_presence_data x, x))"

definition get_sfp_presence_data :: "pon_trx \<Rightarrow> int set" where
  "get_sfp_presence_data x = sfp_presence_data x"

section \<open>The EEPROM\<close>

definition EEPROM_DATA_READ_SIZE :: nat where "EEPROM_DATA_READ_SIZE = 256"
definition PON_TRX_BUS_FORMAT_SIZE :: nat where "PON_TRX_BUS_FORMAT_SIZE = 64"

text \<open>The format is a prefix, such as \<open>/sys/bus/i2c/devices/\<close>, followed by \<open>%d-00%d/%s\<close>.\<close>

definition i2c_path :: "string \<Rightarrow> int \<Rightarrow> int \<Rightarrow> string \<Rightarrow> string" where
  "i2c_path prefix bus addr name =
     prefix @ int_to_string bus @ ''-00'' @ int_to_string addr @ ''/'' @ name"

definition I2C_DEVICES :: string where "I2C_DEVICES = ''/sys/bus/i2c/devices/''"

definition eeprom_path :: "trx_config \<Rightarrow> int \<Rightarrow> string" where
  "eeprom_path C i = i2c_path (eeprom_path_prefix C) (bus_index C ! nat i) (port_addr C) (eeprom_file_name C)"

definition path_too_long :: "trx_config \<Rightarrow> bool" where
  "path_too_long C \<longleftrightarrow>
     length (eeprom_path_prefix C @ ''%d-00%d/%s'') + length (eeprom_file_name C) + 4 > PON_TRX_BUS_FORMAT_SIZE"

text \<open>
  Reading the EEPROM of a transceiver; \<open>None\<close> for an index before the start of the table of buses.
  A path that is too long leaves an empty path behind, with which the next call fails.
\<close>

definition read_eeprom_data_for_sfp ::
    "trx_config \<Rightarrow> (string \<rightharpoonup> uint8 list) \<Rightarrow> int \<Rightarrow> pon_trx \<Rightarrow> (bool \<times> pon_trx) option" where
  "read_eeprom_data_for_sfp C files i x =
     (if i \<ge> int (total_trx_ports C) then Some (False, x)
      else if eeprom_read_path x i = None \<and> path_too_long C
      then Some (False, x\<lparr>eeprom_read_path := (eeprom_read_path x)(i \<mapsto> [])\<rparr>)
      else if eeprom_read_path x i = None \<and> i < 0 then None
      else
        let path = (case eeprom_read_path x i of
                      Some p \<Rightarrow> p
                    | None \<Rightarrow> eeprom_path C i)
        in case files path of
             None \<Rightarrow> Some (False, x\<lparr>eeprom_read_path := (eeprom_read_path x)(i := None)\<rparr>)
           | Some content \<Rightarrow>
               if length content < EEPROM_DATA_READ_SIZE
               then Some (False, x\<lparr>eeprom_read_path := (eeprom_read_path x)(i := None),
                                   eeprom_data := (eeprom_data x)(i := None)\<rparr>)
               else Some (True, x\<lparr>eeprom_read_path := (eeprom_read_path x)(i \<mapsto> path),
                                  eeprom_data := (eeprom_data x)(i \<mapsto> take EEPROM_DATA_READ_SIZE content)\<rparr>))"

definition slice :: "nat \<times> nat \<Rightarrow> 'a list \<Rightarrow> 'a list" where
  "slice at xs = take (snd at) (drop (fst at) xs)"

text \<open>The case of the GPON wavelength has no \<open>break\<close>.\<close>

definition get_pon_type_from_wavelength :: "uint32 \<Rightarrow> bcmolt_pon_type" where
  "get_pon_type_from_wavelength w =
     (if w = 1490 \<or> w = 1577 then BCMOLT_PON_TYPE_XGPON else BCMOLT_PON_TYPE_UNKNOWN)"

text \<open>
  Decoding what was read; data never read are zeros.  The new entry goes to position \<open>pos\<close>, its
  address.  \<open>None\<close> for a wavelength whose conversion is undefined.  The resolution of the wavelength is
  one over \<open>wavelength_divisor\<close> nanometres: 1 or 20 for the vendors of the repository.
\<close>

definition decode_eeprom_data :: "trx_config \<Rightarrow> nat \<Rightarrow> int \<Rightarrow> pon_trx \<Rightarrow> (bool \<times> pon_trx) option" where
  "decode_eeprom_data C pos i x =
     (let data = (case eeprom_data x i of Some d \<Rightarrow> d | None \<Rightarrow> replicate EEPROM_DATA_READ_SIZE 0);
          x = x\<lparr>eeprom_data := (eeprom_data x)(i \<mapsto> data)\<rparr>;
          (name, _) = hex_to_ascii_string (slice (vendor_name_at C) data);
          (oui, _) = hex_to_ascii_string (slice (vendor_oui_at C) data);
          (part, _) = hex_to_ascii_string (slice (vendor_part_number_at C) data);
          (rev, _) = hex_to_ascii_string (slice (vendor_revision_at C) data)
      in do {
           (raw, ok) \<leftarrow> hex_to_uinteger (slice (downstream_wavelength_at C) data);
           if \<not> ok then Some (False, x)
           else
             let w = raw div of_nat (wavelength_divisor C);
                 store = \<lparr>sfp_index = i, trx_vendor_name = name, trx_vendor_oui = oui, trx_vendor_part_no = part,
                          trx_vendor_rev = rev,
                          p_data0 = \<lparr>pd_valid = True, pd_wavelength = w, pd_pon_type = get_pon_type_from_wavelength w\<rparr>,
                          p_data1 = \<lparr>pd_valid = False, pd_wavelength = 0, pd_pon_type = BCMOLT_PON_TYPE_UNKNOWN\<rparr>\<rparr>
             in Some (True, x\<lparr>t_data := take pos (t_data x) @ store # drop pos (t_data x)\<rparr>)
         })"

definition get_trx_data :: "int \<Rightarrow> pon_trx \<Rightarrow> trx_data option" where
  "get_trx_data i x = find (\<lambda>d. sfp_index d = i) (t_data x)"

definition get_sfp_mode :: "int \<Rightarrow> pon_trx \<Rightarrow> bcmolt_pon_type" where
  "get_sfp_mode i x =
     (case find (\<lambda>d. sfp_index d = i) (t_data x) of
        None \<Rightarrow> BCMOLT_PON_TYPE_UNKNOWN
      | Some td \<Rightarrow>
          if pd_valid (p_data0 td) then
            let pon0 = pd_pon_type (p_data0 td); pon1 = pd_pon_type (p_data1 td)
            in if pon0 = BCMOLT_PON_TYPE_UNKNOWN then pon0
               else if pd_valid (p_data1 td) then
                 if pon1 = BCMOLT_PON_TYPE_UNKNOWN then pon1
                 else if pon0 = pon1 then pon0 else BCMOLT_PON_TYPE_XGPON_GPON_WDMA
               else pon0
          else BCMOLT_PON_TYPE_UNKNOWN)"

text \<open>What \<open>main\<close> does with the transceivers first: its exit code, or 0 to go on.\<close>

fun for_each_sfp :: "(int \<Rightarrow> pon_trx \<Rightarrow> (bool \<times> pon_trx) option) \<Rightarrow> int list \<Rightarrow> pon_trx \<Rightarrow> (bool \<times> pon_trx) option" where
  "for_each_sfp f [] x = Some (True, x)"
| "for_each_sfp f (i # is) x = do { (ok, x) \<leftarrow> f i x; if ok then for_each_sfp f is x else Some (False, x) }"

definition init_transceivers ::
    "trx_config \<Rightarrow> int \<times> string \<times> bool \<Rightarrow> (string \<rightharpoonup> uint8 list) \<Rightarrow> (int \<Rightarrow> nat) \<Rightarrow> pon_trx \<Rightarrow> (int \<times> pon_trx) option" where
  "init_transceivers C cmd files pos x =
     (let (sfp, x) = read_sfp_presence_data C cmd x
      in if sfp = {} then Some (2, x)
         else do {
           (ok, x) \<leftarrow> for_each_sfp (read_eeprom_data_for_sfp C files) (sorted_list_of_set sfp) x;
           if \<not> ok then Some (2, x)
           else do {
             (ok, x) \<leftarrow> for_each_sfp (\<lambda>i. decode_eeprom_data C (pos i) i) (sorted_list_of_set sfp) x;
             Some (if ok then 0 else 2, x)
           }
         })"

section \<open>Properties\<close>

text \<open>The big-endian bytes of a number.\<close>

fun be_bytes :: "nat \<Rightarrow> nat \<Rightarrow> uint8 list" where
  "be_bytes 0 n = []"
| "be_bytes (Suc k) n = of_nat (n div 256 ^ k) # be_bytes k (n mod 256 ^ k)"

lemma length_be_bytes [simp]: "length (be_bytes k n) = k"
  by (induction k n rule: be_bytes.induct) simp_all

lemma unat_byte: "n < 256 \<Longrightarrow> unat (of_nat n :: uint8) = n"
  by (simp add: unat_of_nat)

lemma be_byte_value: "n < 256 ^ Suc k \<Longrightarrow> unat (of_nat (n div 256 ^ k) :: uint8) = n div 256 ^ k"
  by (intro unat_byte) (simp add: less_mult_imp_div_less mult.commute)

lemma unat8_le: "unat (b :: uint8) \<le> 255"
  using unsigned_less [of b, where 'a = nat] by simp

lemma two_power_8: "(2 :: nat) ^ (8 * k) = 256 ^ k"
  by (simp add: power_mult)

lemma be_sum_bytes: "n < 256 ^ k \<Longrightarrow> n + r < 2 ^ 32 \<Longrightarrow> be_sum (be_bytes k n) r = Some (n + r)"
proof (induction k arbitrary: n r)
  case (Suc k)
  have v: "unat (of_nat (n div 256 ^ k) :: uint8) * 2 ^ (8 * k) = n div 256 ^ k * 256 ^ k"
    using be_byte_value [OF Suc.prems(1)] by (simp add: two_power_8)
  have m: "n div 256 ^ k * 256 ^ k + n mod 256 ^ k = n" by (rule div_mult_mod_eq)
  have "be_sum (be_bytes k (n mod 256 ^ k)) (n div 256 ^ k * 256 ^ k + r) =
      Some (n mod 256 ^ k + (n div 256 ^ k * 256 ^ k + r))"
    using Suc.prems(2) m by (intro Suc.IH) (simp_all del: mod_mult_div_eq div_mult_mod_eq)
  moreover have "n div 256 ^ k * 256 ^ k + r < 2 ^ 32" using Suc.prems(2) m by linarith
  ultimately show ?case using v m by simp
qed simp

lemma foldl_be_bytes: "n < 256 ^ k \<Longrightarrow> foldl (\<lambda>sum b. sum * 256 + unat b) r (be_bytes k n) = r * 256 ^ k + n"
proof (induction k arbitrary: n r)
  case (Suc k)
  have "foldl (\<lambda>sum b. sum * 256 + unat b) (r * 256 + n div 256 ^ k) (be_bytes k (n mod 256 ^ k)) =
      (r * 256 + n div 256 ^ k) * 256 ^ k + n mod 256 ^ k" by (intro Suc.IH) simp
  then show ?case using be_byte_value [OF Suc.prems] by (simp add: algebra_simps)
qed simp

text \<open>
  Both conversions of big-endian bytes are exact: \<open>hex_to_uinteger\<close> gives back every number below
  \<open>2 ^ 32\<close> from up to eight bytes and \<open>get_value_from_pointer_u\<close> every number of up to four; beyond
  these lengths the one reports failure and the other answers 0.
\<close>

theorem big_endian_roundtrip:
  assumes "n < 256 ^ k"
  shows "(k \<le> 8 \<longrightarrow> n < 2 ^ 32 \<longrightarrow> hex_to_uinteger (be_bytes k n) = Some (of_nat n, True)) \<and>
    (k > 8 \<longrightarrow> hex_to_uinteger (be_bytes k n) = Some (0, False)) \<and>
    get_value_from_pointer_u (be_bytes k n) = (if k \<le> 4 then n else 0)"
  using be_sum_bytes [OF assms, of 0] foldl_be_bytes [OF assms, of 0]
  by (simp add: hex_to_uinteger_def get_value_from_pointer_u_def)

theorem big_endian_roundtrip_witness:
  "hex_to_uinteger (be_bytes 2 1490) = Some (1490, True) \<and> get_value_from_pointer_u (be_bytes 2 1490) = 1490"
  using big_endian_roundtrip [of 1490 2] by simp

section \<open>Properties of the presence\<close>

lemma dec_digit_of: "n < 10 \<Longrightarrow> dec_digit (char_of (48 + n :: nat)) = Some n"
  by (simp add: dec_digit_def Let_def)

lemma dec_digits_value_append:
  "\<forall>c\<in>set ds. dec_digit c \<noteq> None \<Longrightarrow>
     dec_digits_value acc (ds @ cs) = dec_digits_value (dec_digits_value acc ds) cs"
  by (induction ds arbitrary: acc) (auto split: option.split)

lemma nat_to_string_digits: "\<forall>c\<in>set (nat_to_string n). dec_digit c \<noteq> None"
proof (induction n rule: nat_to_string.induct)
  case (1 n)
  then show ?case using dec_digit_of by (subst nat_to_string.simps) auto
qed

lemma dec_digits_value_nat: "dec_digits_value None (nat_to_string n) = Some n"
proof (induction n rule: nat_to_string.induct)
  case (1 n)
  show ?case
  proof (cases "n < 10")
    case True
    then show ?thesis using dec_digit_of by (subst nat_to_string.simps) simp
  next
    case False
    have "dec_digits_value None (nat_to_string (n div 10) @ [char_of (48 + n mod 10)]) = Some n"
      using 1 [OF False] dec_digit_of [of "n mod 10"] dec_digits_value_append [OF nat_to_string_digits]
      by simp
    then show ?thesis using False by (subst nat_to_string.simps) simp
  qed
qed

lemma digit_chars: "dec_digit c \<noteq> None \<Longrightarrow> \<not> is_c_space c \<and> c \<noteq> CHR ''-'' \<and> c \<noteq> CHR ''+'' \<and> c \<noteq> CHR '' ''"
  by (auto simp: dec_digit_def is_c_space_def Let_def split: if_splits)

lemma nat_to_string_nonempty: "nat_to_string n \<noteq> []"
  by (subst nat_to_string.simps) simp

lemma stoi_nat_to_string:
  assumes "int32 (int n)" "cs = [] \<or> dec_digit (hd cs) = None"
  shows "stoi (nat_to_string n @ cs) = Some (int n)"
proof -
  obtain d ds where d: "nat_to_string n = d # ds" using nat_to_string_nonempty by (cases "nat_to_string n") auto
  have "dec_digit d \<noteq> None" using nat_to_string_digits [of n] d by simp
  note c = digit_chars [OF this]
  have "dec_digits_value acc cs = acc" for acc using assms(2) by (cases cs) auto
  then have "dec_digits_value None ((d # ds) @ cs) = Some n"
    using dec_digits_value_append [OF nat_to_string_digits, of None n cs] dec_digits_value_nat [of n] d by simp
  then show ?thesis using c assms(1) d by (simp add: stoi_def)
qed

lemma set_map_filter: "set (List.map_filter f xs) = {y. Some y \<in> f ` set xs}"
  by (induction xs) (auto simp: List.map_filter_simps split: option.split)

lemma find_insert_at:
  assumes "\<forall>y\<in>set xs. \<not> Q y" "Q x"
  shows "find Q (take pos xs @ x # drop pos xs) = Some x"
proof -
  have "find Q (ys @ x # zs) = Some x" if "\<forall>y\<in>set ys. \<not> Q y" for ys zs
    using that assms(2) by (induction ys) auto
  then show ?thesis using assms(1) by (meson in_set_takeD)
qed

lemma getlines_word: "CHR '' '' \<notin> set w \<Longrightarrow> getlines acc (w @ cs) = getlines (acc @ w) cs"
  by (induction w arbitrary: acc) auto

lemma getlines_numbers:
  assumes "acc \<noteq> []" "CHR '' '' \<notin> set acc"
  shows "getlines acc (concat (map (\<lambda>n. '' '' @ nat_to_string n) ns) @ [CHR 0x0A]) =
    (case ns of [] \<Rightarrow> [acc @ [CHR 0x0A]]
     | _ \<Rightarrow> acc # map nat_to_string (butlast ns) @ [nat_to_string (last ns) @ [CHR 0x0A]])"
  using assms
proof (induction ns arbitrary: acc)
  case (Cons n ns)
  have w: "CHR '' '' \<notin> set (nat_to_string n)"
    using nat_to_string_digits [of n] digit_chars by blast
  then have "getlines [] (nat_to_string n @ concat (map (\<lambda>n. '' '' @ nat_to_string n) ns) @ [CHR 0x0A]) =
      getlines (nat_to_string n) (concat (map (\<lambda>n. '' '' @ nat_to_string n) ns) @ [CHR 0x0A])"
    by (simp add: getlines_word)
  then show ?case using Cons.IH [OF nat_to_string_nonempty w] by (simp split: list.split)
qed simp

text \<open>
  C38: the output of the presence command, \<open>Presence:\<close> and the numbers of the ports with a blank before
  each, is read back exactly: the transceivers present are the listed ones below the number of ports.
\<close>

theorem presence_roundtrip:
  assumes "\<forall>n\<in>set ns. int32 (int n)"
  shows "present_ports C (''Presence:'' @ concat (map (\<lambda>n. '' '' @ nat_to_string n) ns) @ [CHR 0x0A]) =
    {int n |n. n \<in> set ns \<and> n < total_trx_ports C}"
proof -
  have word: "stoi ''Presence:'' = None" "stoi (''Presence:'' @ [CHR 0x0A]) = None"
    by (simp_all add: stoi_def is_c_space_def dec_digit_def)
  have lines: "getlines [] (''Presence:'' @ concat (map (\<lambda>n. '' '' @ nat_to_string n) ns) @ [CHR 0x0A]) =
      getlines ''Presence:'' (concat (map (\<lambda>n. '' '' @ nat_to_string n) ns) @ [CHR 0x0A])"
    by (subst getlines_word) simp_all
  have "set (List.map_filter stoi (getlines [] (''Presence:'' @ concat (map (\<lambda>n. '' '' @ nat_to_string n) ns) @ [CHR 0x0A])))
      = int ` set ns"
  proof (cases "ns = []")
    case True
    then show ?thesis using lines word by (simp add: getlines_numbers List.map_filter_def)
  next
    case False
    have last: "stoi (nat_to_string (last ns) @ [CHR 0x0A]) = Some (int (last ns))"
      using False assms by (intro stoi_nat_to_string) (auto simp: dec_digit_def)
    have "stoi (nat_to_string n) = Some (int n)" if "n \<in> set (butlast ns)" for n
      using stoi_nat_to_string [of n "[]"] assms in_set_butlastD [OF that] by simp
    then have butlast: "stoi ` set (map nat_to_string (butlast ns)) = Some ` int ` set (butlast ns)"
      unfolding set_map image_image by (intro image_cong refl)
    have ns: "set ns = insert (last ns) (set (butlast ns))"
      using arg_cong [OF append_butlast_last_id [OF False], of set] by simp
    have "getlines ''Presence:'' (concat (map (\<lambda>n. '' '' @ nat_to_string n) ns) @ [CHR 0x0A]) =
        ''Presence:'' # map nat_to_string (butlast ns) @ [nat_to_string (last ns) @ [CHR 0x0A]]"
      using False getlines_numbers [of "''Presence:''" ns] by (cases ns) simp_all
    then have "stoi ` set (getlines ''Presence:'' (concat (map (\<lambda>n. '' '' @ nat_to_string n) ns) @ [CHR 0x0A])) =
        insert None (insert (Some (int (last ns))) (Some ` int ` set (butlast ns)))"
      unfolding butlast [symmetric] by (simp only: set_simps set_append image_insert image_Un image_empty word last)
        blast
    then show ?thesis unfolding set_map_filter lines ns by auto
  qed
  then show ?thesis by (auto simp: present_ports_def)
qed

theorem presence_roundtrip_witness:
  "present_ports \<lparr>total_trx_ports = 16, bus_index = [], vendor_name_at = (20, 16), vendor_oui_at = (37, 3),
      vendor_part_number_at = (40, 16), vendor_revision_at = (56, 4), downstream_wavelength_at = (60, 2),
      wavelength_divisor = 1, eeprom_path_prefix = I2C_DEVICES, eeprom_file_name = ''sfp_eeprom'', port_addr = 50\<rparr>
     (''Presence:'' @ concat (map (\<lambda>n. '' '' @ nat_to_string n) [0, 1, 16]) @ [CHR 0x0A]) = {0, 1}"
  by (subst presence_roundtrip) (auto simp: int32_def)

section \<open>Properties of the EEPROM\<close>

text \<open>
  Reading and decoding the EEPROM of a transceiver that is within the table and was not read before.
  When its file has the 256 bytes and the wavelength bytes say \<open>raw\<close>, both steps succeed, the decoded
  data are found under its index with the vendor's name as the bytes spell it, and its mode is XGPON
  exactly for the two downstream wavelengths, that of GPON included, and unknown for every other.
\<close>

theorem transceiver_mode:
  assumes "0 \<le> i" "i < int (total_trx_ports C)" "eeprom_read_path x i = None"
    and "\<not> path_too_long C" "\<forall>td\<in>set (t_data x). sfp_index td \<noteq> i"
    and "files (eeprom_path C i) = Some content"
    and "EEPROM_DATA_READ_SIZE \<le> length content" "raw < 65536"
    and "slice (downstream_wavelength_at C) (take EEPROM_DATA_READ_SIZE content) = be_bytes 2 raw"
  shows "\<exists>y z td. read_eeprom_data_for_sfp C files i x = Some (True, y) \<and>
    decode_eeprom_data C pos i y = Some (True, z) \<and> get_trx_data i z = Some td \<and>
    trx_vendor_name td = map (\<lambda>b. char_of (unat b)) (slice (vendor_name_at C) (take EEPROM_DATA_READ_SIZE content)) \<and>
    get_sfp_mode i z =
      (if (of_nat raw :: uint32) div of_nat (wavelength_divisor C) \<in> {1490, 1577}
       then BCMOLT_PON_TYPE_XGPON else BCMOLT_PON_TYPE_UNKNOWN)"
proof -
  let ?data = "take EEPROM_DATA_READ_SIZE content"
  let ?y = "x\<lparr>eeprom_read_path := (eeprom_read_path x)(i \<mapsto>
               eeprom_path C i),
             eeprom_data := (eeprom_data x)(i \<mapsto> ?data)\<rparr>"
  have y: "read_eeprom_data_for_sfp C files i x = Some (True, ?y)"
    using assms(1-4,6,7) by (simp add: read_eeprom_data_for_sfp_def Let_def)
  have raw: "hex_to_uinteger (be_bytes 2 raw) = Some (of_nat raw, True)"
    using be_sum_bytes [of raw 2 0] assms(8) by (simp add: hex_to_uinteger_def)
  obtain z td where z: "decode_eeprom_data C pos i ?y = Some (True, z)"
      "t_data z = take pos (t_data x) @ td # drop pos (t_data x)" "sfp_index td = i"
      "trx_vendor_name td = map (\<lambda>b. char_of (unat b)) (slice (vendor_name_at C) ?data)"
      "pd_valid (p_data0 td)" "\<not> pd_valid (p_data1 td)"
      "pd_pon_type (p_data0 td) = get_pon_type_from_wavelength (of_nat raw div of_nat (wavelength_divisor C))"
    using raw assms(9) by (simp add: decode_eeprom_data_def hex_to_ascii_string_def Let_def)
  have "find (\<lambda>d. sfp_index d = i) (t_data z) = Some td"
    unfolding z(2) using assms(5) z(3) by (intro find_insert_at) simp_all
  then show ?thesis using y z
    by (intro exI [of _ ?y] exI [of _ z] exI [of _ td])
      (auto simp: get_trx_data_def get_sfp_mode_def get_pon_type_from_wavelength_def)
qed

definition sample_trx_config :: trx_config where
  "sample_trx_config = \<lparr>total_trx_ports = 16, bus_index = [41, 42], vendor_name_at = (20, 16), vendor_oui_at = (37, 3),
      vendor_part_number_at = (40, 16), vendor_revision_at = (56, 4), downstream_wavelength_at = (60, 2),
      wavelength_divisor = 1, eeprom_path_prefix = I2C_DEVICES, eeprom_file_name = ''sfp_eeprom'', port_addr = 50\<rparr>"

theorem transceiver_mode_witness:
  "\<exists>y z. read_eeprom_data_for_sfp sample_trx_config (\<lambda>_. Some (replicate 60 0 @ [5, 0xD2] @ replicate 194 0)) 0
        \<lparr>sfp_presence_data = {0}, eeprom_read_path = Map.empty, eeprom_data = Map.empty, t_data = []\<rparr> = Some (True, y) \<and>
     decode_eeprom_data sample_trx_config 0 0 y = Some (True, z) \<and> get_sfp_mode 0 z = BCMOLT_PON_TYPE_XGPON"
proof -
  have "slice (60, 2) (take 256 (replicate 60 0 @ [5, 0xD2] @ replicate 194 0)) = (be_bytes 2 1490 :: uint8 list)"
    by (simp add: slice_def numeral_2_eq_2)
  then show ?thesis
    using transceiver_mode [of 0 sample_trx_config
        "\<lparr>sfp_presence_data = {0}, eeprom_read_path = Map.empty, eeprom_data = Map.empty, t_data = []\<rparr>"
        "\<lambda>_. Some (replicate 60 0 @ [5, 0xD2] @ replicate 194 0)" "replicate 60 0 @ [5, 0xD2] @ replicate 194 0" 1490 0]
    by (auto simp: sample_trx_config_def EEPROM_DATA_READ_SIZE_def path_too_long_def I2C_DEVICES_def
        PON_TRX_BUS_FORMAT_SIZE_def)
qed

end
