(* ===== verification/Vendor.thy ===== *)
theory Vendor
  imports Transceiver
begin

text \<open>
  The boards of the repository (\<open>agent/device/*/vendor.h\<close> and \<open>vendor.cc\<close>): the constants each gives to the
  core and to the transceivers, and the methods of \<open>PonTrxBase\<close> it overrides.  \<open>vendor_init\<close> is empty on
  every board.  A constant that the header of a board does not define is \<open>None\<close>.  The transmission delay of
  a bit is a fraction of a microsecond.  The headers of the \<open>tlabvolt\<close> boards hold a name only.
\<close>

section \<open>The constants of a board\<close>

record board =
  VENDOR_ID :: string
  MODEL_ID :: string
  MAX_SUPPORTED_PON :: "nat option"
  ONU_BIT_TRANSMISSION_DELAY :: "(nat \<times> nat) option"
  MINIMUM_ONU_RESPONSE_RANGING_TIME :: "int option"
  DEFAULT_MAC_SYSTEM_MODE :: string
  DEFAULT_PON_MODE :: bcmolt_pon_type
  ONU_ID_RANGE :: "int \<times> int"
  ALLOC_ID_RANGE :: "int \<times> int"
  GEM_PORT_ID_RANGE :: "int \<times> int"
  FLOW_ID_RANGE :: "int \<times> int"
  MAC_DEVICE_ACTIVATION_DELAY :: nat
  DYNAMIC_PON_TRX_SUPPORT :: bool
  TOTAL_PON_PORTS :: nat
  PORT_ADDRESS :: int
  NAME_EEPROM :: string
  trx_port_to_pon_port_map :: "nat list list"
  trx :: trx_config
  PonTrx_get_mac_system_mode :: "int \<Rightarrow> int set \<Rightarrow> string \<times> bool"

definition PonTrxBase_get_mac_system_mode :: "int \<Rightarrow> int set \<Rightarrow> string \<times> bool" where
  "PonTrxBase_get_mac_system_mode olt_mac_id sfp_ids = (''BCMOLT_SYSTEM_MODE_GPON__16_X'', True)"

definition asfvolt16_get_mac_system_mode :: "int \<Rightarrow> int set \<Rightarrow> string \<times> bool" where
  "asfvolt16_get_mac_system_mode olt_mac_id sfp_ids = (''BCMOLT_SYSTEM_MODE_XGS__2_X'', True)"

definition sda3016ss_get_mac_system_mode :: "int \<Rightarrow> int set \<Rightarrow> string \<times> bool" where
  "sda3016ss_get_mac_system_mode olt_mac_id sfp_ids = (''BCMOLT_SYSTEM_MODE_XGS__8_X_GPON__8_X_WDMA'', True)"

definition asfvolt16 :: board where
  "asfvolt16 =
     \<lparr>VENDOR_ID = ''EdgeCore'', MODEL_ID = ''asfvolt16'', MAX_SUPPORTED_PON = Some 16,
      ONU_BIT_TRANSMISSION_DELAY = Some (1004823, 10 ^ 10), MINIMUM_ONU_RESPONSE_RANGING_TIME = Some 1572135,
      DEFAULT_MAC_SYSTEM_MODE = ''BCMOLT_SYSTEM_MODE_XGS__2_X'', DEFAULT_PON_MODE = BCMOLT_PON_TYPE_XGPON,
      ONU_ID_RANGE = (1, 32), ALLOC_ID_RANGE = (1024, 1024 + 32 * 4), GEM_PORT_ID_RANGE = (1024, 1024 + 32 * 4 * 8),
      FLOW_ID_RANGE = (1, 65535), MAC_DEVICE_ACTIVATION_DELAY = 2000000, DYNAMIC_PON_TRX_SUPPORT = False,
      TOTAL_PON_PORTS = 16,
      PORT_ADDRESS = 50, NAME_EEPROM = ''sfp_eeprom'', trx_port_to_pon_port_map = map (\<lambda>i. [i]) [0..<16],
      trx = \<lparr>total_trx_ports = 16,
             bus_index = [47, 48, 37, 38, 35, 36, 33, 34, 39, 40, 41, 42, 43, 44, 45, 46],
             vendor_name_at = (148, 16), vendor_oui_at = (165, 3), vendor_part_number_at = (168, 16),
             vendor_revision_at = (184, 2), downstream_wavelength_at = (186, 2), wavelength_divisor = 20,
             eeprom_path_prefix = I2C_DEVICES, eeprom_file_name = ''sfp_eeprom'', port_addr = 50\<rparr>,
      PonTrx_get_mac_system_mode = asfvolt16_get_mac_system_mode\<rparr>"

definition asgvolt64 :: board where
  "asgvolt64 =
     \<lparr>VENDOR_ID = ''EdgeCore'', MODEL_ID = ''asgvolt64'', MAX_SUPPORTED_PON = Some 64,
      ONU_BIT_TRANSMISSION_DELAY = Some (8038585, 10 ^ 10), MINIMUM_ONU_RESPONSE_RANGING_TIME = Some 198075,
      DEFAULT_MAC_SYSTEM_MODE = ''BCMOLT_SYSTEM_MODE_GPON__16_X'', DEFAULT_PON_MODE = BCMOLT_PON_TYPE_GPON,
      ONU_ID_RANGE = (1, 32), ALLOC_ID_RANGE = (256, 256 + 32 * 4), GEM_PORT_ID_RANGE = (256, 256 + 32 * 4 * 8),
      FLOW_ID_RANGE = (1, 65535), MAC_DEVICE_ACTIVATION_DELAY = 2000000, DYNAMIC_PON_TRX_SUPPORT = False,
      TOTAL_PON_PORTS = 64,
      PORT_ADDRESS = 50, NAME_EEPROM = ''eeprom'', trx_port_to_pon_port_map = map (\<lambda>i. [i]) [0..<64],
      trx = \<lparr>total_trx_ports = 64,
             bus_index = [41, 42, 56, 55, 43, 44, 54, 53, 45, 46, 52, 51, 47, 48, 50, 49,
              57, 58, 72, 71, 59, 60, 70, 69, 61, 62, 68, 67, 63, 64, 66, 65,
              73, 74, 88, 87, 75, 76, 86, 85, 77, 78, 84, 83, 79, 80, 82, 81,
              89, 90, 104, 103, 91, 92, 102, 101, 93, 94, 100, 99, 95, 96, 98, 97],
             vendor_name_at = (20, 16), vendor_oui_at = (37, 3), vendor_part_number_at = (40, 16),
             vendor_revision_at = (56, 4), downstream_wavelength_at = (60, 2), wavelength_divisor = 1,
             eeprom_path_prefix = I2C_DEVICES, eeprom_file_name = ''eeprom'', port_addr = 50\<rparr>,
      PonTrx_get_mac_system_mode = PonTrxBase_get_mac_system_mode\<rparr>"

definition rlt_3200g_w :: board where
  "rlt_3200g_w =
     \<lparr>VENDOR_ID = ''Radisys'', MODEL_ID = ''rlt-3200g-w'', MAX_SUPPORTED_PON = Some 32,
      ONU_BIT_TRANSMISSION_DELAY = Some (8038585, 10 ^ 10), MINIMUM_ONU_RESPONSE_RANGING_TIME = Some 198075,
      DEFAULT_MAC_SYSTEM_MODE = ''BCMOLT_SYSTEM_MODE_GPON__16_X'', DEFAULT_PON_MODE = BCMOLT_PON_TYPE_GPON,
      ONU_ID_RANGE = (1, 32), ALLOC_ID_RANGE = (256, 256 + 32 * 4), GEM_PORT_ID_RANGE = (256, 256 + 32 * 4 * 8),
      FLOW_ID_RANGE = (1, 65535), MAC_DEVICE_ACTIVATION_DELAY = 200000, DYNAMIC_PON_TRX_SUPPORT = False,
      TOTAL_PON_PORTS = 32,
      PORT_ADDRESS = 50, NAME_EEPROM = ''eeprom'', trx_port_to_pon_port_map = map (\<lambda>i. [i]) [0..<32],
      trx = \<lparr>total_trx_ports = 32,
             bus_index = [41, 42, 56, 55, 43, 44, 54, 53, 45, 46, 52, 51, 47, 48, 50, 49,
              57, 58, 72, 71, 59, 60, 70, 69, 61, 62, 68, 67, 63, 64, 66, 65],
             vendor_name_at = (20, 16), vendor_oui_at = (37, 3), vendor_part_number_at = (40, 16),
             vendor_revision_at = (56, 4), downstream_wavelength_at = (60, 2), wavelength_divisor = 1,
             eeprom_path_prefix = I2C_DEVICES, eeprom_file_name = ''sfp_eeprom'', port_addr = 50\<rparr>,
      PonTrx_get_mac_system_mode = PonTrxBase_get_mac_system_mode\<rparr>"

definition rlt_1600g_w :: board where
  "rlt_1600g_w =
     \<lparr>VENDOR_ID = ''Radisys'', MODEL_ID = ''rlt-1600g-w'', MAX_SUPPORTED_PON = Some 16,
      ONU_BIT_TRANSMISSION_DELAY = Some (8038585, 10 ^ 10), MINIMUM_ONU_RESPONSE_RANGING_TIME = Some 198075,
      DEFAULT_MAC_SYSTEM_MODE = ''BCMOLT_SYSTEM_MODE_GPON__16_X'', DEFAULT_PON_MODE = BCMOLT_PON_TYPE_GPON,
      ONU_ID_RANGE = (1, 32), ALLOC_ID_RANGE = (256, 256 + 32 * 4), GEM_PORT_ID_RANGE = (256, 256 + 32 * 4 * 8),
      FLOW_ID_RANGE = (1, 65535), MAC_DEVICE_ACTIVATION_DELAY = 200000, DYNAMIC_PON_TRX_SUPPORT = False,
      TOTAL_PON_PORTS = 16,
      PORT_ADDRESS = 50, NAME_EEPROM = ''eeprom'', trx_port_to_pon_port_map = map (\<lambda>i. [i]) [0..<16],
      trx = \<lparr>total_trx_ports = 16,
             bus_index = [41, 42, 56, 55, 43, 44, 54, 53, 45, 46, 52, 51, 47, 48, 50, 49],
             vendor_name_at = (20, 16), vendor_oui_at = (37, 3), vendor_part_number_at = (40, 16),
             vendor_revision_at = (56, 4), downstream_wavelength_at = (60, 2), wavelength_divisor = 1,
             eeprom_path_prefix = I2C_DEVICES, eeprom_file_name = ''sfp_eeprom'', port_addr = 50\<rparr>,
      PonTrx_get_mac_system_mode = PonTrxBase_get_mac_system_mode\<rparr>"

definition rlt_1600x_w :: board where
  "rlt_1600x_w =
     \<lparr>VENDOR_ID = ''Radisys'', MODEL_ID = ''rlt-1600x-w'', MAX_SUPPORTED_PON = Some 16,
      ONU_BIT_TRANSMISSION_DELAY = Some (8038585, 10 ^ 10), MINIMUM_ONU_RESPONSE_RANGING_TIME = Some 198075,
      DEFAULT_MAC_SYSTEM_MODE = ''BCMOLT_SYSTEM_MODE_GPON__16_X'', DEFAULT_PON_MODE = BCMOLT_PON_TYPE_GPON,
      ONU_ID_RANGE = (1, 32), ALLOC_ID_RANGE = (256, 256 + 32 * 4), GEM_PORT_ID_RANGE = (256, 256 + 32 * 4 * 8),
      FLOW_ID_RANGE = (1, 65535), MAC_DEVICE_ACTIVATION_DELAY = 200000, DYNAMIC_PON_TRX_SUPPORT = False,
      TOTAL_PON_PORTS = 16,
      PORT_ADDRESS = 50, NAME_EEPROM = ''eeprom'', trx_port_to_pon_port_map = map (\<lambda>i. [i]) [0..<16],
      trx = \<lparr>total_trx_ports = 16,
             bus_index = [41, 42, 56, 55, 43, 44, 54, 53, 45, 46, 52, 51, 47, 48, 50, 49],
             vendor_name_at = (20, 16), vendor_oui_at = (37, 3), vendor_part_number_at = (40, 16),
             vendor_revision_at = (56, 4), downstream_wavelength_at = (60, 2), wavelength_divisor = 1,
             eeprom_path_prefix = I2C_DEVICES, eeprom_file_name = ''sfp_eeprom'', port_addr = 50\<rparr>,
      PonTrx_get_mac_system_mode = PonTrxBase_get_mac_system_mode\<rparr>"

definition sda3016ss :: board where
  "sda3016ss =
     \<lparr>VENDOR_ID = ''Zyxel'', MODEL_ID = ''sda3016ss'', MAX_SUPPORTED_PON = Some 32,
      ONU_BIT_TRANSMISSION_DELAY = Some (1004823, 10 ^ 10), MINIMUM_ONU_RESPONSE_RANGING_TIME = Some 1572135,
      DEFAULT_MAC_SYSTEM_MODE = ''BCMOLT_SYSTEM_MODE_XGS__8_X_GPON__8_X_WDMA'', DEFAULT_PON_MODE = BCMOLT_PON_TYPE_XGPON,
      ONU_ID_RANGE = (1, 32), ALLOC_ID_RANGE = (1024, 1024 + 32 * 8), GEM_PORT_ID_RANGE = (1024, 1024 + 32 * 8 * 8),
      FLOW_ID_RANGE = (1, 65535), MAC_DEVICE_ACTIVATION_DELAY = 200000, DYNAMIC_PON_TRX_SUPPORT = False,
      TOTAL_PON_PORTS = 32,
      PORT_ADDRESS = 50, NAME_EEPROM = ''sfp_eeprom'', trx_port_to_pon_port_map = map (\<lambda>i. [i, 0]) [0..<16],
      trx = \<lparr>total_trx_ports = 16,
             bus_index = [47, 48, 37, 38, 35, 36, 33, 34, 39, 40, 41, 42, 43, 44, 45, 46],
             vendor_name_at = (148, 16), vendor_oui_at = (165, 3), vendor_part_number_at = (168, 16),
             vendor_revision_at = (184, 2), downstream_wavelength_at = (186, 2), wavelength_divisor = 20,
             eeprom_path_prefix = I2C_DEVICES, eeprom_file_name = ''sfp_eeprom'', port_addr = 50\<rparr>,
      PonTrx_get_mac_system_mode = sda3016ss_get_mac_system_mode\<rparr>"

definition sim :: board where
  "sim =
     \<lparr>VENDOR_ID = ''ONF'', MODEL_ID = ''sim'', MAX_SUPPORTED_PON = Some 16,
      ONU_BIT_TRANSMISSION_DELAY = Some (1004823, 10 ^ 10), MINIMUM_ONU_RESPONSE_RANGING_TIME = Some 1572135,
      DEFAULT_MAC_SYSTEM_MODE = ''BCMOLT_SYSTEM_MODE_GPON__16_X'', DEFAULT_PON_MODE = BCMOLT_PON_TYPE_GPON,
      ONU_ID_RANGE = (1, 32), ALLOC_ID_RANGE = (1024, 1024 + 32 * 4), GEM_PORT_ID_RANGE = (1024, 1024 + 32 * 4 * 8),
      FLOW_ID_RANGE = (1, 65535), MAC_DEVICE_ACTIVATION_DELAY = 200000, DYNAMIC_PON_TRX_SUPPORT = True,
      TOTAL_PON_PORTS = 16,
      PORT_ADDRESS = 50, NAME_EEPROM = ''sfp_eeprom'', trx_port_to_pon_port_map = map (\<lambda>i. [i]) [0..<16],
      trx = \<lparr>total_trx_ports = 16,
             bus_index = [47, 48, 37, 38, 35, 36, 33, 34, 39, 40, 41, 42, 43, 44, 45, 46],
             vendor_name_at = (148, 16), vendor_oui_at = (165, 3), vendor_part_number_at = (168, 16),
             vendor_revision_at = (184, 2), downstream_wavelength_at = (186, 2), wavelength_divisor = 20,
             eeprom_path_prefix = '''', eeprom_file_name = ''sfp_eeprom'', port_addr = 50\<rparr>,
      PonTrx_get_mac_system_mode = PonTrxBase_get_mac_system_mode\<rparr>"

definition generic :: board where
  "generic =
     \<lparr>VENDOR_ID = ''generic'', MODEL_ID = ''generic'', MAX_SUPPORTED_PON = None,
      ONU_BIT_TRANSMISSION_DELAY = None, MINIMUM_ONU_RESPONSE_RANGING_TIME = None,
      DEFAULT_MAC_SYSTEM_MODE = ''BCMOLT_SYSTEM_MODE_GPON__16_X'', DEFAULT_PON_MODE = BCMOLT_PON_TYPE_GPON,
      ONU_ID_RANGE = (1, 32), ALLOC_ID_RANGE = (1024, 16383), GEM_PORT_ID_RANGE = (1024, 65535),
      FLOW_ID_RANGE = (1, 65535), MAC_DEVICE_ACTIVATION_DELAY = 200000, DYNAMIC_PON_TRX_SUPPORT = False,
      TOTAL_PON_PORTS = 16,
      PORT_ADDRESS = 50, NAME_EEPROM = ''sfp_eeprom'', trx_port_to_pon_port_map = map (\<lambda>i. [i]) [0..<16],
      trx = \<lparr>total_trx_ports = 16,
             bus_index = [41, 42, 56, 55, 43, 44, 54, 53, 45, 46, 52, 51, 47, 48, 50, 49],
             vendor_name_at = (148, 16), vendor_oui_at = (165, 3), vendor_part_number_at = (168, 16),
             vendor_revision_at = (184, 2), downstream_wavelength_at = (186, 2), wavelength_divisor = 20,
             eeprom_path_prefix = I2C_DEVICES, eeprom_file_name = ''sfp_eeprom'', port_addr = 50\<rparr>,
      PonTrx_get_mac_system_mode = PonTrxBase_get_mac_system_mode\<rparr>"

text \<open>The boards that define all that the core uses.\<close>

definition boards :: "board list" where
  "boards = [asfvolt16, asgvolt64, rlt_3200g_w, rlt_1600g_w, rlt_1600x_w, sda3016ss, sim]"

lemmas board_defs = asfvolt16_def asgvolt64_def rlt_3200g_w_def rlt_1600g_w_def rlt_1600x_w_def sda3016ss_def sim_def

text \<open>Integer division: 0 where a transceiver has two PON ports.\<close>

definition PONS_PER_TRX :: "board \<Rightarrow> nat" where
  "PONS_PER_TRX b = total_trx_ports (trx b) div TOTAL_PON_PORTS b"

section \<open>The agent on a board\<close>

definition vendor_consts :: "board \<Rightarrow> string \<Rightarrow> int" where
  "vendor_consts b n = (case map_of
     [(''ONU_ID_START'', fst (ONU_ID_RANGE b)), (''ONU_ID_END'', snd (ONU_ID_RANGE b)),
      (''ALLOC_ID_START'', fst (ALLOC_ID_RANGE b)), (''ALLOC_ID_END'', snd (ALLOC_ID_RANGE b)),
      (''GEM_PORT_ID_END'', snd (GEM_PORT_ID_RANGE b)),
      (''FLOW_ID_START'', fst (FLOW_ID_RANGE b)), (''FLOW_ID_END'', snd (FLOW_ID_RANGE b))] n
     of Some i \<Rightarrow> i | None \<Rightarrow> 0)"

definition on_board :: "board \<Rightarrow> platform \<Rightarrow> platform" where
  "on_board b P = P\<lparr>max_supported_pon := the (MAX_SUPPORTED_PON b),
     GEM_PORT_ID_START := fst (GEM_PORT_ID_RANGE b), vendor_const := vendor_consts b,
     vendor_name := VENDOR_ID b, model_id := MODEL_ID b\<rparr>"

text \<open>The system mode of a device: by the transceivers present where the build detects them.\<close>

definition board_mac_mode :: "board \<Rightarrow> bool \<Rightarrow> pon_trx \<Rightarrow> nat \<Rightarrow> string option" where
  "board_mac_mode b dynamic x dev =
     (if dynamic
      then (case PonTrx_get_mac_system_mode b (int dev) (get_sfp_presence_data x) of
              (sm, res) \<Rightarrow> if res then Some sm else None)
      else Some (DEFAULT_MAC_SYSTEM_MODE b))"

definition Enable_board :: "board \<Rightarrow> bool \<Rightarrow> platform \<Rightarrow> pon_trx \<Rightarrow> olt \<Rightarrow> (status \<times> olt) option" where
  "Enable_board b dynamic P x s = Enable (on_board b P) (board_mac_mode b dynamic x) s"

section \<open>The tables of the boards\<close>

text \<open>
  A table of transceivers is sound: a bus for each port and no bus twice, paths that fit their buffer,
  and the fields of the EEPROM in order, one after the other, within it.
\<close>

definition eeprom_fields :: "trx_config \<Rightarrow> (nat \<times> nat) list" where
  "eeprom_fields C = [vendor_name_at C, vendor_oui_at C, vendor_part_number_at C, vendor_revision_at C,
     downstream_wavelength_at C]"

definition sound_trx :: "trx_config \<Rightarrow> bool" where
  "sound_trx C \<longleftrightarrow>
     length (bus_index C) = total_trx_ports C \<and> distinct (bus_index C) \<and>
     list_all (\<lambda>bus. 0 \<le> bus \<and> bus < 100000) (bus_index C) \<and> 0 \<le> port_addr C \<and> port_addr C < 10000 \<and>
     \<not> path_too_long C \<and>
     list_all (\<lambda>(i, n). i + n \<le> EEPROM_DATA_READ_SIZE) (eeprom_fields C) \<and>
     snd (downstream_wavelength_at C) = 2 \<and> sorted_wrt (\<lambda>(i, n) (j, m). i + n \<le> j) (eeprom_fields C)"


lemmas sound_trx_defs = sound_trx_def eeprom_fields_def EEPROM_DATA_READ_SIZE_def path_too_long_def I2C_DEVICES_def
  PON_TRX_BUS_FORMAT_SIZE_def

lemma asfvolt16_sound: "sound_trx (trx asfvolt16)"
  by (simp add: asfvolt16_def sound_trx_defs)

lemma asgvolt64_sound: "sound_trx (trx asgvolt64)"
  by (simp add: asgvolt64_def sound_trx_defs)

lemma rlt_3200g_w_sound: "sound_trx (trx rlt_3200g_w)"
  by (simp add: rlt_3200g_w_def sound_trx_defs)

lemma rlt_1600g_w_sound: "sound_trx (trx rlt_1600g_w)"
  by (simp add: rlt_1600g_w_def sound_trx_defs)

lemma rlt_1600x_w_sound: "sound_trx (trx rlt_1600x_w)"
  by (simp add: rlt_1600x_w_def sound_trx_defs)

lemma sda3016ss_sound: "sound_trx (trx sda3016ss)"
  by (simp add: sda3016ss_def sound_trx_defs)

lemma sim_sound: "sound_trx (trx sim)"
  by (simp add: sim_def sound_trx_defs)

lemma generic_sound: "sound_trx (trx generic)"
  by (simp add: generic_def sound_trx_defs)

lemma boards_sound: "b \<in> set boards \<Longrightarrow> sound_trx (trx b)"
  using asfvolt16_sound asgvolt64_sound rlt_3200g_w_sound rlt_1600g_w_sound
    rlt_1600x_w_sound sda3016ss_sound sim_sound
  by (auto simp: boards_def)

text \<open>Where the name in the header is not the one that is read.\<close>

lemma boards_eeprom_name:
  "map MODEL_ID (filter (\<lambda>b. NAME_EEPROM b \<noteq> eeprom_file_name (trx b)) boards) =
     [''rlt-3200g-w'', ''rlt-1600g-w'', ''rlt-1600x-w'']"
  by (simp add: boards_def board_defs)

text \<open>On the combo board the PON ports from 16 on belong to no transceiver.\<close>

lemma sda3016ss_ports:
  "TOTAL_PON_PORTS sda3016ss = 32" "set (concat (trx_port_to_pon_port_map sda3016ss)) = {0..<16}"
  "PONS_PER_TRX sda3016ss = 0"
  by (auto simp: sda3016ss_def PONS_PER_TRX_def atLeast0LessThan)

lemma boards_one_port:
  "b \<in> set boards \<Longrightarrow> MODEL_ID b \<noteq> ''sda3016ss'' \<Longrightarrow>
     concat (trx_port_to_pon_port_map b) = [0..<TOTAL_PON_PORTS b] \<and> PONS_PER_TRX b = 1 \<and>
     MAX_SUPPORTED_PON b = Some (TOTAL_PON_PORTS b)"
  by (auto simp: boards_def PONS_PER_TRX_def board_defs concat_map_singleton)

section \<open>The ids a board offers\<close>

lemma boards_ids:
  "b \<in> set boards \<Longrightarrow>
     ONU_ID_RANGE b = (1, 32) \<and> FLOW_ID_RANGE b = (1, 65535) \<and>
     fst (ALLOC_ID_RANGE b) < snd (ALLOC_ID_RANGE b) \<and> snd (ALLOC_ID_RANGE b) < 16384 \<and>
     fst (GEM_PORT_ID_RANGE b) < snd (GEM_PORT_ID_RANGE b) \<and> snd (GEM_PORT_ID_RANGE b) < 65536 \<and>
     snd (GEM_PORT_ID_RANGE b) - fst (GEM_PORT_ID_RANGE b) = 8 * (snd (ALLOC_ID_RANGE b) - fst (ALLOC_ID_RANGE b))"
  by (auto simp: boards_def board_defs)

text \<open>The pools of every range that the description of the device lists.\<close>

lemma board_resource_pools:
  "resource_pools (on_board b P) =
     map (\<lambda>(n, sharing, i, j). \<lparr>pool_type = n, pool_sharing = sharing, pool_start = i, pool_end = j\<rparr>)
       [(''ONU_ID'', ''DEDICATED_PER_INTF'', ONU_ID_START, snd (ONU_ID_RANGE b)),
        (''ALLOC_ID'', ''DEDICATED_PER_INTF'', ALLOC_ID_RANGE b),
        (''GEMPORT_ID'', ''DEDICATED_PER_INTF'', GEM_PORT_ID_RANGE b),
        (''FLOW_ID'', ''SHARED_BY_ALL_INTF_ALL_TECH'', FLOW_ID_RANGE b)]"
  by (simp add: resource_pools_def on_board_def vendor_consts_def split: prod.split)

section \<open>Reading the transceivers of a board\<close>

definition fresh_trx :: pon_trx where
  "fresh_trx = \<lparr>sfp_presence_data = {}, eeprom_read_path = Map.empty, eeprom_data = Map.empty, t_data = []\<rparr>"

definition full_eeproms :: "pon_trx \<Rightarrow> bool" where
  "full_eeproms x \<longleftrightarrow> (\<forall>i d. eeprom_data x i = Some d \<longrightarrow> length d = EEPROM_DATA_READ_SIZE)"

lemma for_each_sfp_returns:
  assumes "\<And>i x. i \<in> set is \<Longrightarrow> Q x \<Longrightarrow> \<exists>r y. f i x = Some (r, y) \<and> Q y" "Q x"
  shows "\<exists>r y. for_each_sfp f is x = Some (r, y) \<and> Q y"
  using assms
proof (induction "is" arbitrary: x)
  case (Cons i "is")
  obtain r y where y: "f i x = Some (r, y)" "Q y" using Cons.prems(1) [of i x] Cons.prems(2) by auto
  have "\<exists>r z. for_each_sfp f is y = Some (r, z) \<and> Q z" using Cons.prems(1) y(2) by (intro Cons.IH) simp_all
  then show ?case using y by (cases r) auto
qed auto

lemma read_eeprom_returns:
  "0 \<le> i \<Longrightarrow> full_eeproms x \<Longrightarrow> \<exists>r y. read_eeprom_data_for_sfp C files i x = Some (r, y) \<and> full_eeproms y"
  by (auto simp: read_eeprom_data_for_sfp_def full_eeproms_def Let_def split: option.split)

lemma hex_to_uinteger_pair:
  assumes "length bs = 2"
  shows "hex_to_uinteger bs \<noteq> None"
proof -
  obtain a b where bs: "bs = [a, b]" using assms by (auto simp: numeral_2_eq_2 length_Suc_conv)
  have "unat a * 256 < 2 ^ 32" "unat b + unat a * 256 < 2 ^ 32" using unat8_le [of a] unat8_le [of b] by auto
  then show ?thesis by (simp add: bs hex_to_uinteger_def)
qed

lemma decode_eeprom_returns:
  assumes "sound_trx C" "full_eeproms x"
  shows "\<exists>r y. decode_eeprom_data C pos i x = Some (r, y) \<and> full_eeproms y"
proof -
  let ?d = "case eeprom_data x i of Some d \<Rightarrow> d | None \<Rightarrow> replicate EEPROM_DATA_READ_SIZE 0"
  obtain j where at: "downstream_wavelength_at C = (j, 2)" "j + 2 \<le> EEPROM_DATA_READ_SIZE"
    using assms(1) by (cases "downstream_wavelength_at C") (auto simp: sound_trx_def eeprom_fields_def)
  have len: "length ?d = EEPROM_DATA_READ_SIZE" using assms(2) by (auto simp: full_eeproms_def split: option.split)
  then have "length (slice (downstream_wavelength_at C) ?d) = 2" using at by (simp add: slice_def)
  then obtain raw r where raw: "hex_to_uinteger (slice (downstream_wavelength_at C) ?d) = Some (raw, r)"
    using hex_to_uinteger_pair by fastforce
  show ?thesis using assms(2) len
    by (cases r) (auto simp: decode_eeprom_data_def Let_def raw hex_to_ascii_string_def full_eeproms_def)
qed

text \<open>
  The path in its buffer of 64 bytes: the four characters the check allows for the number of the bus
  and the address are enough for five and four digits, since the format is longer than what it prints.
\<close>

lemma length_nat_to_string: "n < 10 ^ Suc k \<Longrightarrow> length (nat_to_string n) \<le> Suc k"
proof (induction k arbitrary: n)
  case 0
  then show ?case by (subst nat_to_string.simps) simp
next
  case (Suc k)
  have "n div 10 < 10 ^ Suc k" using Suc.prems by (simp add: less_mult_imp_div_less)
  then show ?case using Suc.IH [of "n div 10"] by (subst nat_to_string.simps) simp
qed

lemma length_int_to_string: "0 \<le> i \<Longrightarrow> i < 10 ^ Suc k \<Longrightarrow> length (int_to_string i) \<le> Suc k"
  using length_nat_to_string [of "nat i" k] by (simp add: int_to_string_def nat_less_iff)

lemma path_fits:
  assumes "sound_trx C" "0 \<le> i" "i < int (total_trx_ports C)"
  shows "length (eeprom_path C i) < PON_TRX_BUS_FORMAT_SIZE"
proof -
  have "bus_index C ! nat i \<in> set (bus_index C)" using assms by (simp add: sound_trx_def nat_less_iff)
  then have "length (int_to_string (bus_index C ! nat i)) \<le> 5"
    using assms(1) length_int_to_string [of _ 4] by (auto simp: sound_trx_def list_all_iff)
  moreover have "length (int_to_string (port_addr C)) \<le> 4"
    using assms(1) length_int_to_string [of _ 3] by (auto simp: sound_trx_def)
  moreover have "length (eeprom_path_prefix C) + length (eeprom_file_name C) \<le> 50"
    using assms(1) by (simp add: sound_trx_def path_too_long_def PON_TRX_BUS_FORMAT_SIZE_def)
  ultimately show ?thesis by (simp add: eeprom_path_def i2c_path_def PON_TRX_BUS_FORMAT_SIZE_def)
qed

lemma init_transceivers_None:
  assumes "sound_trx C"
  shows "init_transceivers C (st, out, removed) files pos fresh_trx = None \<longleftrightarrow>
    st = 0 \<and> removed \<and> (\<exists>i\<in>present_ports C out. i < 0)"
proof (cases "st = 0 \<and> removed")
  case False
  then show ?thesis by (auto simp: init_transceivers_def read_sfp_presence_data_def fresh_trx_def)
next
  case True
  let ?S = "present_ports C out" and ?x = "fresh_trx\<lparr>sfp_presence_data := present_ports C out\<rparr>"
  have fin: "finite ?S" by (simp add: present_ports_def)
  have full: "full_eeproms ?x" by (simp add: full_eeproms_def fresh_trx_def)
  show ?thesis
  proof (cases "\<exists>i\<in>?S. i < 0")
    case neg: True
    then obtain i "is" where L: "sorted_list_of_set ?S = i # is"
      using fin by (cases "sorted_list_of_set ?S") auto
    have "sorted (i # is)" "set (i # is) = ?S" using fin L by (metis sorted_list_of_set)+
    then have "i < 0" using neg by fastforce
    then have "read_eeprom_data_for_sfp C files i ?x = None"
      using assms by (simp add: read_eeprom_data_for_sfp_def sound_trx_def fresh_trx_def)
    moreover have "?S \<noteq> {}" using neg by blast
    ultimately show ?thesis using True neg L by (simp add: init_transceivers_def read_sfp_presence_data_def Let_def)
  next
    case neg: False
    let ?is = "sorted_list_of_set ?S"
    have "\<exists>r y. for_each_sfp (read_eeprom_data_for_sfp C files) ?is ?x = Some (r, y) \<and> full_eeproms y"
      using neg fin by (intro for_each_sfp_returns read_eeprom_returns full) (auto simp: not_less)
    then obtain r y where r: "for_each_sfp (read_eeprom_data_for_sfp C files) ?is ?x = Some (r, y)" "full_eeproms y"
      by blast
    have "\<exists>q z. for_each_sfp (\<lambda>i. decode_eeprom_data C (pos i) i) ?is y = Some (q, z) \<and> full_eeproms z"
      by (intro for_each_sfp_returns decode_eeprom_returns assms r(2))
    then obtain q z where "for_each_sfp (\<lambda>i. decode_eeprom_data C (pos i) i) ?is y = Some (q, z)" by blast
    then show ?thesis using True neg r by (simp add: init_transceivers_def read_sfp_presence_data_def Let_def)
  qed
qed



section \<open>Bringing a board up\<close>

lemma board_mac_mode_default: "b \<in> set boards \<Longrightarrow> board_mac_mode b dynamic x dev = Some (DEFAULT_MAC_SYSTEM_MODE b)"
  by (auto simp: boards_def board_mac_mode_def board_defs PonTrxBase_get_mac_system_mode_def
      asfvolt16_get_mac_system_mode_def sda3016ss_get_mac_system_mode_def)

text \<open>
  The detection of the transceivers does not matter for the bring-up: on every board of the
  repository a build with it and one without connect the devices with the same messages, whatever
  transceivers are present.
\<close>

lemma detection_irrelevant:
  "b \<in> set boards \<Longrightarrow> Enable_board b True P x s = Enable_board b False P y s"
proof -
  assume "b \<in> set boards"
  then have "board_mac_mode b True x = board_mac_mode b False y"
    by (intro ext) (simp add: board_mac_mode_default)
  then show ?thesis by (simp add: Enable_board_def)
qed

end
