(* ===== verification/Trx_Power.thy ===== *)
theory Trx_Power
  imports Transceiver Complex_Main
begin

text \<open>
  The measured optical power (\<open>agent/src/trx_eeprom_reader.cc\<close>, \<open>agent/src/indications.cc\<close>): the raw readings
  in the EEPROM of a transceiver, the powers in mW and dBm they stand for, the text of the stand-alone tool and
  the indication of a measurement.
\<close>

section \<open>Measured power\<close>

datatype power_type = RX_POWER | TX_POWER | RX_AND_TX_POWER

datatype device_type = DEVICE_EITHER | DEVICE_GPON | DEVICE_XGSPON

definition read_txt_file :: "(string \<rightharpoonup> string) \<Rightarrow> string \<Rightarrow> string \<times> bool" where
  "read_txt_file files name = (case files name of None \<Rightarrow> ([], False) | Some c \<Rightarrow> (c, True))"

text \<open>The board name without the last character when it has a newline anywhere.\<close>

definition get_board_name :: "(string \<rightharpoonup> string) \<Rightarrow> string" where
  "get_board_name files =
     (let name = fst (read_txt_file files ''/sys/devices/virtual/dmi/id/board_name'')
      in if CHR 0x0A \<in> set name then butlast name else name)"

record trx_reader =
  rd_type :: power_type
  rd_port :: int
  rd_dev_name :: string
  rd_buf_size :: nat
  rd_read_offset :: nat
  rd_read_num_bytes :: nat
  rd_port_addr :: int
  rd_name_eeprom :: string
  rd_bus_index :: "int list"

definition gpon_bus_index :: "int list" where
  "gpon_bus_index =
     [41, 42, 56, 55, 43, 44, 54, 53, 45, 46, 52, 51, 47, 48, 50, 49,
      57, 58, 72, 71, 59, 60, 70, 69, 61, 62, 68, 67, 63, 64, 66, 65,
      73, 74, 88, 87, 75, 76, 86, 85, 77, 78, 84, 83, 79, 80, 82, 81,
      89, 90, 104, 103, 91, 92, 102, 101, 93, 94, 100, 99, 95, 96, 98, 97,
      20, 21, 25, 26, 27, 28, 29, 30, 31, 32]"

definition xgspon_bus_index :: "int list" where
  "xgspon_bus_index =
     [47, 48, 37, 38, 35, 36, 33, 34, 39, 40, 41, 42, 43, 44, 45, 46, 49, 50, 51, 52]"

definition TrxEepromReader :: "(string \<rightharpoonup> string) \<Rightarrow> device_type \<Rightarrow> power_type \<Rightarrow> int \<Rightarrow> trx_reader" where
  "TrxEepromReader files dev_type read_type port =
     (let gpon = (dev_type = DEVICE_GPON \<or> dev_type = DEVICE_EITHER \<and> get_board_name files = ''ASGvOLT64'')
      in if gpon
         then \<lparr>rd_type = read_type, rd_port = port, rd_dev_name = ''ASGvOLT64'', rd_buf_size = 600,
               rd_read_offset = 360, rd_read_num_bytes = 2,
               rd_port_addr = 50, rd_name_eeprom = ''eeprom'', rd_bus_index = gpon_bus_index\<rparr>
         else \<lparr>rd_type = read_type, rd_port = port, rd_dev_name = ''ASXvOLT16'', rd_buf_size = 256,
               rd_read_offset = 104, rd_read_num_bytes = 2,
               rd_port_addr = 50, rd_name_eeprom = ''sfp_eeprom'', rd_bus_index = xgspon_bus_index\<rparr>)"

definition is_valid_port :: "trx_reader \<Rightarrow> bool" where
  "is_valid_port R \<longleftrightarrow> rd_port R \<ge> 0 \<and> nat (rd_port R) < length (rd_bus_index R)"

definition set_port_path :: "trx_reader \<Rightarrow> string" where
  "set_port_path R = i2c_path I2C_DEVICES (rd_bus_index R ! nat (rd_port R)) (rd_port_addr R) (rd_name_eeprom R)"

text \<open>The bytes read, or the negative code.\<close>

definition read_binary_file :: "trx_reader \<Rightarrow> (string \<rightharpoonup> uint8 list) \<Rightarrow> int + uint8 list" where
  "read_binary_file R files =
     (case files (set_port_path R) of
        None \<Rightarrow> Inl (-2)
      | Some content \<Rightarrow>
          let buffer = take (rd_buf_size R) content
          in if length buffer < rd_read_offset R + rd_read_num_bytes R then Inl (-4) else Inr buffer)"

text \<open>The received and the transmitted power.\<close>

definition read_power_raw :: "trx_reader \<Rightarrow> (string \<rightharpoonup> uint8 list) \<Rightarrow> (nat \<times> nat) option" where
  "read_power_raw R files =
     (if is_valid_port R then
        (case read_binary_file R files of
           Inl _ \<Rightarrow> None
         | Inr data \<Rightarrow>
             let n = rd_read_num_bytes R;
                 rx = get_value_from_pointer_u (slice (rd_read_offset R, n) data);
                 tx = get_value_from_pointer_u (slice (rd_read_offset R - n, n) data)
             in Some (if rd_type R = TX_POWER then 0 else rx, if rd_type R = RX_POWER then 0 else tx))
      else None)"

section \<open>Power in mW and dBm\<close>

text \<open>
  A \<open>double\<close> is a real number here, without its rounding, or the negative infinity that \<open>log10\<close> has for 0.
\<close>

datatype double = Finite real | Negative_infinity

definition raw_rx_to_mw :: "nat \<Rightarrow> real" where "raw_rx_to_mw raw = real raw * 0.0001"

definition raw_tx_to_mw :: "nat \<Rightarrow> real" where "raw_tx_to_mw raw = real raw * 0.0002"

definition mw_to_dbm :: "real \<Rightarrow> double" where
  "mw_to_dbm mw = (if mw = 0 then Negative_infinity else Finite (10 * log 10 mw))"

definition read_power_mean_dbm :: "trx_reader \<Rightarrow> (string \<rightharpoonup> uint8 list) \<Rightarrow> (double \<times> double) option" where
  "read_power_mean_dbm R files =
     (case read_power_raw R files of
        None \<Rightarrow> None
      | Some (rx, tx) \<Rightarrow> Some (mw_to_dbm (raw_rx_to_mw rx), mw_to_dbm (raw_tx_to_mw tx)))"

section \<open>The text of a reading\<close>

text \<open>The manipulators of a stream: \<open>setw\<close> with \<open>setfill\<close>, \<open>hex\<close> with \<open>uppercase\<close>, \<open>fixed\<close> with \<open>setprecision\<close>.\<close>

definition newline :: string where "newline = [CHR 0x0A]"

definition tab :: string where "tab = [CHR 0x09]"

definition setw :: "nat \<Rightarrow> char \<Rightarrow> string \<Rightarrow> string" where
  "setw n fill cs = replicate (n - length cs) fill @ cs"

fun show_hex :: "nat \<Rightarrow> string" where
  "show_hex n = (if n < 16 then [''0123456789ABCDEF'' ! n] else show_hex (n div 16) @ [''0123456789ABCDEF'' ! (n mod 16)])"

declare show_hex.simps [simp del]

fun show_fixed :: "nat \<Rightarrow> double \<Rightarrow> string" where
  "show_fixed n Negative_infinity = ''-inf''"
| "show_fixed n (Finite x) =
     (let k = nat (round (\<bar>x\<bar> * 10 ^ n))
      in (if x < 0 then ''-'' else []) @ nat_to_string (k div 10 ^ n) @ ''.'' @
         setw n CHR ''0'' (nat_to_string (k mod 10 ^ n)))"

definition dump_power :: "string \<Rightarrow> nat \<Rightarrow> real \<Rightarrow> string" where
  "dump_power name raw mw =
     tab @ name @ '' power - raw: (hex) '' @ setw 4 CHR ''0'' (show_hex raw) @
     '', (dec) '' @ setw 5 CHR '' '' (nat_to_string raw) @
     ''  | '' @ setw 8 CHR '' '' (show_fixed 5 (Finite mw)) @ '' mW, '' @
     setw 9 CHR '' '' (show_fixed 5 (mw_to_dbm mw)) @ '' dBm'' @ newline"

definition dump_data :: "trx_reader \<Rightarrow> (string \<rightharpoonup> uint8 list) \<Rightarrow> string" where
  "dump_data R files =
     tab @ ''device:       '' @ rd_dev_name R @ newline @
     tab @ ''buffer size:  '' @ nat_to_string (rd_buf_size R) @ newline @
     tab @ ''read offset:  '' @ nat_to_string (rd_read_offset R) @ newline @
     tab @ ''num bytes:    '' @ nat_to_string (rd_read_num_bytes R) @ newline @
     tab @ ''max ports:    '' @ nat_to_string (length (rd_bus_index R)) @ newline @
     tab @ ''port:         '' @ int_to_string (rd_port R) @ newline @
     tab @ ''node path:    '' @ (if is_valid_port R then set_port_path R else []) @ newline @
     (case read_power_raw R files of
        None \<Rightarrow> []
      | Some (rx, tx) \<Rightarrow>
          (if rd_type R = RX_POWER \<or> rd_type R = RX_AND_TX_POWER then dump_power ''Rx'' rx (raw_rx_to_mw rx) else []) @
          (if rd_type R = TX_POWER \<or> rd_type R = RX_AND_TX_POWER then dump_power ''Tx'' tx (raw_tx_to_mw tx) else []))"

section \<open>The stand-alone tool\<close>

text \<open>
  The stand-alone tool: it erases the first character of its argument while a dash is left anywhere,
  prints the usage for what remains of a request for help, and otherwise takes the argument for a
  port.  Its exit code and what it prints to the standard output.
\<close>

fun trim_dashes :: "string \<Rightarrow> string" where
  "trim_dashes [] = []"
| "trim_dashes (c # cs) = (if CHR ''-'' \<in> set (c # cs) then trim_dashes cs else c # cs)"

definition rssi_tool ::
    "(string \<rightharpoonup> string) \<Rightarrow> (string \<rightharpoonup> uint8 list) \<Rightarrow> string \<Rightarrow> string option \<Rightarrow> int \<times> string" where
  "rssi_tool files eeproms argv0 arg =
     (let run = (\<lambda>port. (0, dump_data (TrxEepromReader files DEVICE_EITHER RX_AND_TX_POWER port) eeproms @ newline))
      in case arg of
           None \<Rightarrow> run 0
         | Some a \<Rightarrow>
             if trim_dashes a = ''h'' \<or> trim_dashes a = ''help''
             then (0, ''usage:'' @ newline @ tab @ argv0 @ '' 0'' @ newline @ tab @ ''#1 port no'' @ newline)
             else (case stoi a of None \<Rightarrow> (1, []) | Some port \<Rightarrow> run port))"

text \<open>
  The result of a measurement; the power is 0 when there is no reading.
\<close>

record onu_rssi_result =
  rssi_intf_id :: uint32
  rssi_onu_id :: uint32
  rssi_status :: string
  rssi_reason :: int
  rssi_rx_power_mean_dbm :: double

definition OnuRssiMeasurementCompletedIndication ::
    "device_type \<Rightarrow> (string \<rightharpoonup> uint8 list) \<Rightarrow> uint32 \<Rightarrow> uint32 \<Rightarrow> bcmolt_result \<Rightarrow> int \<Rightarrow> olt \<Rightarrow>
     (cfg_compltd_key \<times> onu_rssi_result) option" where
  "OnuRssiMeasurementCompletedIndication board files pon onu status fail_reason s =
     (let power = (if status = BCMOLT_RESULT_SUCCESS
                   then case read_power_mean_dbm (TrxEepromReader Map.empty board RX_POWER (uint pon)) files of
                          Some p \<Rightarrow> fst p
                        | None \<Rightarrow> Finite 0
                   else Finite 0)
      in deliver (onu_rssi_compltd_map s) (pon, onu)
           \<lparr>rssi_intf_id = pon, rssi_onu_id = onu, rssi_status = bcmolt_result_to_string status,
            rssi_reason = fail_reason, rssi_rx_power_mean_dbm = power\<rparr>)"

section \<open>Properties of the power measurement\<close>

text \<open>The argument is cut after its last dash, which need not be a leading one.\<close>

lemma trim_dashes_last: "CHR ''-'' \<notin> set ys \<Longrightarrow> trim_dashes (xs @ CHR ''-'' # ys) = ys"
proof (induction xs)
  case Nil
  then show ?case by (cases ys) auto
qed simp

lemma trim_dashes_none: "CHR ''-'' \<notin> set ys \<Longrightarrow> trim_dashes ys = ys"
  by (cases ys) auto

text \<open>
  So the tool takes \<open>-3\<close> for a port, which its reader then rejects; a negative port never reaches the table.
\<close>

lemma read_power_raw_in_bounds:
  "read_power_raw R eeproms \<noteq> None \<Longrightarrow> 0 \<le> rd_port R \<and> nat (rd_port R) < length (rd_bus_index R)"
  by (auto simp: read_power_raw_def is_valid_port_def split: if_splits)

lemma get_value_pair: "length bs = 2 \<Longrightarrow> get_value_from_pointer_u bs = 256 * unat (bs ! 0) + unat (bs ! 1)"
  by (auto simp: get_value_from_pointer_u_def numeral_2_eq_2 length_Suc_conv)

text \<open>
  A power reading is never taken from outside the file: it is given exactly when the port is in the
  table of its board and the file holds at least the bytes up to the received power, and then the
  received and the transmitted power are two bytes each, the one not asked for being 0.
\<close>

theorem power_reading:
  assumes "R = TrxEepromReader board_files dev t port"
  shows "(\<forall>p. read_power_raw R files = Some p \<longrightarrow> is_valid_port R \<and> fst p < 65536 \<and> snd p < 65536) \<and>
    (read_power_raw R files \<noteq> None \<longleftrightarrow> is_valid_port R \<and>
       (\<exists>content. files (set_port_path R) = Some content \<and> rd_read_offset R + 2 \<le> length content)) \<and>
    (\<forall>content. is_valid_port R \<longrightarrow> files (set_port_path R) = Some content \<longrightarrow> rd_read_offset R + 2 \<le> length content \<longrightarrow>
       read_power_raw R files = Some
         (if t = TX_POWER then 0 else 256 * unat (content ! rd_read_offset R) + unat (content ! (rd_read_offset R + 1)),
          if t = RX_POWER then 0 else 256 * unat (content ! (rd_read_offset R - 2)) + unat (content ! (rd_read_offset R - 1))))"
proof -
  have R: "rd_read_num_bytes R = 2" "rd_type R = t" "2 \<le> rd_read_offset R" "rd_read_offset R + 2 \<le> rd_buf_size R"
    unfolding assms TrxEepromReader_def by (simp_all add: Let_def)
  have val: "read_power_raw R files = Some
      (if t = TX_POWER then 0 else 256 * unat (content ! rd_read_offset R) + unat (content ! (rd_read_offset R + 1)),
       if t = RX_POWER then 0 else 256 * unat (content ! (rd_read_offset R - 2)) + unat (content ! (rd_read_offset R - 1)))"
    if "is_valid_port R" "files (set_port_path R) = Some content" "rd_read_offset R + 2 \<le> length content" for content
  proof -
    have two: "get_value_from_pointer_u (slice (j, 2) (take (rd_buf_size R) content)) =
        256 * unat (content ! j) + unat (content ! Suc j)" if "j + 2 \<le> rd_read_offset R + 2" for j
      using that R(4) \<open>_ \<le> length content\<close> by (subst get_value_pair) (simp_all add: slice_def)
    show ?thesis using that R two [of "rd_read_offset R"] two [of "rd_read_offset R - 2"]
      by (simp add: read_power_raw_def read_binary_file_def Let_def Suc_diff_Suc numeral_2_eq_2)
  qed
  have none: "read_power_raw R files = None"
    if "\<not> (is_valid_port R \<and> (\<exists>content. files (set_port_path R) = Some content \<and> rd_read_offset R + 2 \<le> length content))"
    using that R by (auto simp: read_power_raw_def read_binary_file_def Let_def split: option.split)
  have small: "256 * unat (a :: uint8) + unat (b :: uint8) < 65536" for a b
    using unat8_le [of a] unat8_le [of b] by linarith
  show ?thesis
  proof (cases "is_valid_port R \<and> (\<exists>content. files (set_port_path R) = Some content \<and> rd_read_offset R + 2 \<le> length content)")
    case True
    then show ?thesis using val small by auto
  next
    case False
    then show ?thesis using none by auto
  qed
qed

theorem power_reading_witness:
  "read_power_raw (TrxEepromReader Map.empty DEVICE_XGSPON RX_POWER 3) (\<lambda>_. Some (replicate 256 1)) = Some (257, 0)"
  using power_reading [OF refl, of Map.empty DEVICE_XGSPON RX_POWER 3 "\<lambda>_. Some (replicate 256 1)"]
  by (simp add: TrxEepromReader_def is_valid_port_def xgspon_bus_index_def)


text \<open>
  The power in dBm: a reading of 0 is negative infinity, the others are at least -40 dBm, and below 10 dBm (received)
  or 20 dBm (transmitted); a higher reading is a higher power.
\<close>

lemma dbm_range:
  assumes "0 < raw" "raw < 65536"
  shows "\<exists>x. mw_to_dbm (raw_rx_to_mw raw) = Finite x \<and> -40 \<le> x \<and> x < 10"
    "\<exists>x. mw_to_dbm (raw_tx_to_mw raw) = Finite x \<and> -40 \<le> x \<and> x < 20"
proof -
  have raw: "1 \<le> real raw" "real raw \<le> 65535" using assms by linarith+
  have "-4 \<le> log 10 (raw_rx_to_mw raw)" "log 10 (raw_rx_to_mw raw) < 1"
    "-4 \<le> log 10 (raw_tx_to_mw raw)" "log 10 (raw_tx_to_mw raw) < 2"
    using raw by (subst le_log_iff log_less_iff;
      simp add: raw_rx_to_mw_def raw_tx_to_mw_def powr_minus divide_simps)+
  moreover have "raw_rx_to_mw raw \<noteq> 0" "raw_tx_to_mw raw \<noteq> 0"
    using assms(1) by (simp_all add: raw_rx_to_mw_def raw_tx_to_mw_def)
  ultimately show "\<exists>x. mw_to_dbm (raw_rx_to_mw raw) = Finite x \<and> -40 \<le> x \<and> x < 10"
    "\<exists>x. mw_to_dbm (raw_tx_to_mw raw) = Finite x \<and> -40 \<le> x \<and> x < 20"
    by (simp_all add: mw_to_dbm_def)
qed

lemma dbm_mono:
  assumes "0 < a" "a < b"
  shows "\<exists>x y. mw_to_dbm a = Finite x \<and> mw_to_dbm b = Finite y \<and> x < y"
  using assms by (simp add: mw_to_dbm_def)

lemma dbm_zero: "mw_to_dbm (raw_rx_to_mw 0) = Negative_infinity" "mw_to_dbm (raw_tx_to_mw 0) = Negative_infinity"
  by (simp_all add: mw_to_dbm_def raw_rx_to_mw_def raw_tx_to_mw_def)

text \<open>
  The power of a measurement that was delivered: the received one of a successful measurement, otherwise 0, as
  for a transceiver that cannot be read; 0 dBm is 1 mW, so that a failure is not told from a strong signal.
\<close>

lemma rssi_power:
  assumes "OnuRssiMeasurementCompletedIndication board files pon onu status reason s = Some (k, res)"
  shows "rssi_rx_power_mean_dbm res = Finite 0 \<or>
    status = BCMOLT_RESULT_SUCCESS \<and>
    (\<exists>raw tx. read_power_raw (TrxEepromReader Map.empty board RX_POWER (uint pon)) files = Some (raw, tx) \<and>
       rssi_rx_power_mean_dbm res = mw_to_dbm (raw_rx_to_mw raw))"
  using assms
  by (auto simp: OnuRssiMeasurementCompletedIndication_def deliver_def read_power_mean_dbm_def Let_def
      split: if_splits option.splits)

lemma zero_dbm: "mw_to_dbm 1 = Finite 0"
  by (simp add: mw_to_dbm_def)

end
