(* ===== verification/Host.thy ===== *)
theory Host
  imports Device
begin

text \<open>
  What the agent asks of the host it runs on (\<open>agent/src/core_utils.cc\<close>): the serial number and the MAC
  address that the board's tools print, the MAC address of a network interface, text files, and the
  command line of BAL.  The output of a command and the answers of the kernel are the record \<open>host\<close>.
\<close>

section \<open>What the host says\<close>

record host =
  popen :: "string \<Rightarrow> string option"
  inet_socket :: bool
  hw_addr :: "string \<Rightarrow> uint8 list option"
  grpc_server_interface_name :: "string option"

definition OPENOLT_FIELD_LEN :: nat where "OPENOLT_FIELD_LEN = 200"

definition IFNAMSIZ :: nat where "IFNAMSIZ = 16"

text \<open>\<open>bash -l -c "onlpdump -s" | perl -ne 'print $1 if /FIELD: (\S+)/'\<close>, in a buffer of 150 characters.\<close>

definition sysinfo_command :: "string \<Rightarrow> string" where
  "sysinfo_command field = take 149
     (''bash -l -c '' @ [CHR 0x22] @ ''onlpdump -s'' @ [CHR 0x22] @ '' | perl -ne '' @ [CHR 0x27] @
      ''print $1 if /'' @ field @ '': ('' @ [CHR 0x5C] @ ''S+)/'' @ [CHR 0x27])"

text \<open>The buffer after the call: \<open>fread\<close> overwrites its start and adds no terminator.\<close>

definition openolt_read_sysinfo :: "host \<Rightarrow> string \<Rightarrow> string \<Rightarrow> string" where
  "openolt_read_sysinfo H field buf =
     (case popen H (sysinfo_command field) of
        None \<Rightarrow> buf
      | Some out \<Rightarrow> let d = take OPENOLT_FIELD_LEN out in d @ drop (length d) buf)"

definition lower_hex_digits :: string where
  "lower_hex_digits = ''0123456789abcdef''"

definition lower_hex_byte :: "uint8 \<Rightarrow> string" where
  "lower_hex_byte b = [lower_hex_digits ! (unat b div 16), lower_hex_digits ! (unat b mod 16)]"

fun format_mac :: "uint8 list \<Rightarrow> string" where
  "format_mac [] = []"
| "format_mac [b] = lower_hex_byte b"
| "format_mac (b # bs) = lower_hex_byte b @ CHR '':'' # format_mac bs"

text \<open>The buffer with the address, as far as it fits; \<open>None\<close> is NULL.  The kernel ends a name of 15 characters.\<close>

definition get_intf_mac :: "host \<Rightarrow> string \<Rightarrow> string \<Rightarrow> string option" where
  "get_intf_mac H intf_name buf =
     (if \<not> inet_socket H then None
      else case hw_addr H (take (IFNAMSIZ - 1) intf_name) of
             None \<Rightarrow> None
           | Some sa_data \<Rightarrow>
               let t = take (length buf - 1) (format_mac (take 6 sa_data))
               in Some (t @ CHR 0x00 # drop (Suc (length t)) buf))"

section \<open>The description of the device\<close>

definition zero_field :: string where
  "zero_field = replicate OPENOLT_FIELD_LEN (CHR 0x00)"

definition serial_number_field :: "host \<Rightarrow> string" where
  "serial_number_field H = openolt_read_sysinfo H ''Serial Number'' zero_field"

definition device_id_field :: "host \<Rightarrow> string" where
  "device_id_field H =
     (case grpc_server_interface_name H of
        Some nw \<Rightarrow> (case get_intf_mac H nw zero_field of Some buf \<Rightarrow> buf | None \<Rightarrow> zero_field)
      | None \<Rightarrow> openolt_read_sysinfo H ''MAC'' zero_field)"

definition terminated :: "string \<Rightarrow> bool" where
  "terminated buf \<longleftrightarrow> CHR 0x00 \<in> set buf"

definition on_host :: "host \<Rightarrow> platform \<Rightarrow> platform" where
  "on_host H P = P\<lparr>sysinfo := \<lambda>field. c_str (openolt_read_sysinfo H field zero_field),
     grpc_interface_mac :=
       map_option (\<lambda>nw. map_option c_str (get_intf_mac H nw zero_field)) (grpc_server_interface_name H)\<rparr>"

text \<open>\<open>None\<close> when a field is read beyond its end.\<close>

definition GetDeviceInfo_on :: "host \<Rightarrow> platform \<Rightarrow> olt \<Rightarrow> device_info option" where
  "GetDeviceInfo_on H P s =
     (if terminated (serial_number_field H) \<and> terminated (device_id_field H)
      then Some (GetDeviceInfo (on_host H P) s) else None)"

section \<open>Text files\<close>

text \<open>How writing ends: the file cannot be opened, or so many characters can be written.\<close>

definition save_to_txt_file ::
    "nat option \<Rightarrow> string \<Rightarrow> string \<Rightarrow> (string \<rightharpoonup> string) \<Rightarrow> bool \<times> (string \<rightharpoonup> string)" where
  "save_to_txt_file space file_name content files =
     (case space of
        None \<Rightarrow> (False, files)
      | Some n \<Rightarrow> (length content \<le> n, files(file_name \<mapsto> take n content)))"

section \<open>The version\<close>

text \<open>The labels the build defines, empty when it does not; the text printed before the exit with 0, if it is asked for.\<close>

record build_labels =
  VERSION :: string
  BAL_VER :: string
  LABEL_VCS_URL :: string
  LABEL_VCS_REF :: string
  LABEL_BUILD_DATE :: string
  LABEL_COMMIT_DATE :: string

fun display_version_info :: "build_labels \<Rightarrow> string list \<Rightarrow> string option" where
  "display_version_info b [] = None"
| "display_version_info b (arg # args) =
     (if arg = ''--version'' \<or> arg = ''-v''
      then Some (''OpenOLT agent: '' @ VERSION b @ [CHR 0x0A] @ ''BAL version: '' @ BAL_VER b @ [CHR 0x0A] @
             ''Label VCS Url: '' @ LABEL_VCS_URL b @ [CHR 0x0A] @ ''Label VCS Ref: '' @ LABEL_VCS_REF b @ [CHR 0x0A] @
             ''Label build date: '' @ LABEL_BUILD_DATE b @ [CHR 0x0A] @
             ''Label commit date: '' @ LABEL_COMMIT_DATE b @ [CHR 0x0A])
      else display_version_info b args)"

lemma display_version_info_iff: "display_version_info b args \<noteq> None \<longleftrightarrow> ''--version'' \<in> set args \<or> ''-v'' \<in> set args"
  by (induction args) auto

section \<open>The command line\<close>

record bcm_cli =
  session_open :: bool
  session_stopped :: bool
  status_bcm_cli_quit :: bool

definition openolt_cli_get_prompt_cb :: "nat \<Rightarrow> nat \<Rightarrow> string" where
  "openolt_cli_get_prompt_cb dev_id max_len = take (max_len - 1) (''BCM.'' @ nat_to_string dev_id @ ''> '')"

text \<open>\<open>parse\<close> and \<open>driver\<close> are the library's; the driver returns when the session has been stopped.\<close>

definition bal_apiend_cli_thread_handler ::
    "(string \<Rightarrow> bcm_cli \<Rightarrow> bcm_cli) \<Rightarrow> (bcm_cli \<Rightarrow> bcm_cli) \<Rightarrow> bcm_cli \<Rightarrow> int \<times> bcm_cli" where
  "bal_apiend_cli_thread_handler parse driver c =
     (let c = (if session_stopped c then c else driver (parse [CHR 0x0A] c))
      in (0, c\<lparr>session_open := False\<rparr>))"

definition bcm_openolt_api_cli_init :: "bool \<Rightarrow> bcmos_errno \<Rightarrow> bcmos_errno \<Rightarrow> bcmos_errno" where
  "bcm_openolt_api_cli_init subsystem_host set_commands ind_register =
     (if subsystem_host \<and> set_commands = BCM_ERR_OK then ind_register else set_commands)"

definition bcm_cli_quit :: "bcm_cli \<Rightarrow> bcmos_errno \<times> bcm_cli" where
  "bcm_cli_quit c = (BCM_ERR_OK, c\<lparr>session_stopped := True, status_bcm_cli_quit := True\<rparr>)"

definition get_status_bcm_cli_quit :: "bcm_cli \<Rightarrow> int" where
  "get_status_bcm_cli_quit c = (if status_bcm_cli_quit c then 1 else 0)"

text \<open>\<open>None\<close> when the function ends without a \<open>return\<close>, which leaves its value undefined.\<close>

definition bcmolt_apiend_cli_init :: "bcmos_errno \<Rightarrow> bcmos_errno \<Rightarrow> bcmos_errno option" where
  "bcmolt_apiend_cli_init task_query task_create =
     (if task_query \<noteq> BCM_ERR_OK \<and> task_create \<noteq> BCM_ERR_OK then Some task_create else None)"

section \<open>Properties\<close>

text \<open>The two fields that are asked for leave room in the buffer of the command, and so do names of up to 87 characters.\<close>

lemma sysinfo_command_complete:
  "length field \<le> 87 \<Longrightarrow> sysinfo_command field =
     ''bash -l -c '' @ [CHR 0x22] @ ''onlpdump -s'' @ [CHR 0x22] @ '' | perl -ne '' @ [CHR 0x27] @
      ''print $1 if /'' @ field @ '': ('' @ [CHR 0x5C] @ ''S+)/'' @ [CHR 0x27]"
  by (simp add: sysinfo_command_def)

lemma length_zero_field [simp]: "length zero_field = OPENOLT_FIELD_LEN"
  by (simp add: zero_field_def)

lemma terminated_zero_field [simp]: "terminated zero_field"
  by (simp add: terminated_def zero_field_def OPENOLT_FIELD_LEN_def)

text \<open>An output that fills the field leaves no terminator.\<close>

definition overlong :: "string option \<Rightarrow> bool" where
  "overlong out \<longleftrightarrow>
     (case out of None \<Rightarrow> False
      | Some d \<Rightarrow> OPENOLT_FIELD_LEN \<le> length d \<and> CHR 0x00 \<notin> set (take OPENOLT_FIELD_LEN d))"

lemma terminated_sysinfo:
  "terminated (openolt_read_sysinfo H field zero_field) \<longleftrightarrow> \<not> overlong (popen H (sysinfo_command field))"
  by (auto simp: openolt_read_sysinfo_def overlong_def terminated_def zero_field_def OPENOLT_FIELD_LEN_def Let_def
      split: option.split)

lemma terminated_intf_mac: "get_intf_mac H nw buf = Some b \<Longrightarrow> terminated b"
  by (auto simp: get_intf_mac_def terminated_def Let_def split: if_splits option.splits)

lemma GetDeviceInfo_on_None:
  "GetDeviceInfo_on H P s = None \<longleftrightarrow>
     overlong (popen H (sysinfo_command ''Serial Number'')) \<or>
     grpc_server_interface_name H = None \<and> overlong (popen H (sysinfo_command ''MAC''))"
  using terminated_intf_mac
  by (auto simp: GetDeviceInfo_on_def serial_number_field_def device_id_field_def terminated_sysinfo
      split: option.splits)

text \<open>Reading a MAC address back.\<close>

fun parse_mac :: "string \<Rightarrow> nat list" where
  "parse_mac (a # b # cs) =
     (case (hex_digit a, hex_digit b) of
        (Some x, Some y) \<Rightarrow> (16 * x + y) # (case cs of [] \<Rightarrow> [] | c # cs \<Rightarrow> parse_mac cs)
      | _ \<Rightarrow> [])"
| "parse_mac _ = []"

lemma hex_digit_lower: "n < 16 \<Longrightarrow> hex_digit (lower_hex_digits ! n) = Some n"
proof -
  assume "n < 16"
  moreover have "map hex_digit lower_hex_digits = map Some [0..<16]"
    by (simp add: lower_hex_digits_def hex_digit_def upt_rec)
  moreover have "length lower_hex_digits = 16" by (simp add: lower_hex_digits_def)
  ultimately show "hex_digit (lower_hex_digits ! n) = Some n"
    by (metis add_0 nth_map nth_upt length_upt diff_zero)
qed

lemma lower_hex_byte_digits:
  obtains a b where "lower_hex_byte v = [a, b]" "hex_digit a = Some (unat v div 16)" "hex_digit b = Some (unat v mod 16)"
proof -
  have "unat v < 2 ^ 8" using unsigned_less [of v, where 'a = nat] by simp
  then have "unat v div 16 < 16" "unat v mod 16 < 16" by simp_all
  then show thesis using that hex_digit_lower by (simp add: lower_hex_byte_def)
qed

lemma parse_format_mac: "parse_mac (format_mac bs) = map unat bs"
proof (induction bs rule: format_mac.induct)
  case (2 v)
  obtain a b where "lower_hex_byte v = [a, b]" "hex_digit a = Some (unat v div 16)" "hex_digit b = Some (unat v mod 16)"
    using lower_hex_byte_digits .
  then show ?case by simp
next
  case (3 v w bs)
  obtain a b where "lower_hex_byte v = [a, b]" "hex_digit a = Some (unat v div 16)" "hex_digit b = Some (unat v mod 16)"
    using lower_hex_byte_digits .
  then show ?case using 3 by simp
qed simp

lemma format_mac_text: "CHR 0x00 \<notin> set (format_mac bs) \<and> length (format_mac bs) = 3 * length bs - 1"
proof (induction bs rule: format_mac.induct)
  case (2 v)
  obtain a b where "lower_hex_byte v = [a, b]" "hex_digit a = Some (unat v div 16)" "hex_digit b = Some (unat v mod 16)"
    using lower_hex_byte_digits .
  then show ?case using hex_digit_not_special(4) by auto
next
  case (3 v w bs)
  obtain a b where "lower_hex_byte v = [a, b]" "hex_digit a = Some (unat v div 16)" "hex_digit b = Some (unat v mod 16)"
    using lower_hex_byte_digits .
  then show ?case using 3 hex_digit_not_special(4) by auto
qed simp

lemma get_intf_mac_zero_field:
  assumes "inet_socket H" "hw_addr H (take (IFNAMSIZ - 1) nw) = Some mac"
  shows "\<exists>buf. get_intf_mac H nw zero_field = Some buf \<and> c_str buf = format_mac (take 6 mac)"
proof -
  have "length (format_mac (take 6 mac)) \<le> 17" using format_mac_text [of "take 6 mac"] by simp
  then have "take (OPENOLT_FIELD_LEN - 1) (format_mac (take 6 mac)) = format_mac (take 6 mac)"
    by (simp add: OPENOLT_FIELD_LEN_def)
  moreover have "takeWhile (\<lambda>c. c \<noteq> CHR 0x00) (format_mac (take 6 mac) @ CHR 0x00 # r) = format_mac (take 6 mac)" for r
    using format_mac_text [of "take 6 mac"] by (subst takeWhile_append2) auto
  ultimately show ?thesis using assms by (simp add: get_intf_mac_def c_str_def Let_def)
qed


definition sample_host :: host where
  "sample_host = \<lparr>popen = \<lambda>_. Some ''EC2022001'', inet_socket = True,
     hw_addr = \<lambda>nw. if nw = ''eth0'' then Some [0x00, 0x1b, 0x21, 0xa0, 0xff, 0x07] else None,
     grpc_server_interface_name = Some ''eth0''\<rparr>"


text \<open>
  Starting the command line returns a value only when it fails: \<open>Enable_\<close> tests an undefined value
  when the thread was created or was there before.
\<close>

lemma apiend_cli_init_returns:
  "bcmolt_apiend_cli_init q c = Some e \<longleftrightarrow> e = c \<and> q \<noteq> BCM_ERR_OK \<and> c \<noteq> BCM_ERR_OK"
  by (auto simp: bcmolt_apiend_cli_init_def)

text \<open>The thread of the command line leaves a session that was stopped before it alone but closes it.\<close>

lemma cli_quit_ends:
  assumes "bcm_cli_quit c = (e, c')"
  shows "get_status_bcm_cli_quit c' = 1 \<and>
    bal_apiend_cli_thread_handler parse driver c' = (0, c'\<lparr>session_open := False\<rparr>)"
  using assms by (auto simp: bcm_cli_quit_def get_status_bcm_cli_quit_def bal_apiend_cli_thread_handler_def)

text \<open>A text file is read back when it was saved; otherwise at most the start of the text was written.\<close>

lemma save_to_txt_file_outcome:
  "save_to_txt_file space name content files = (r, files') \<Longrightarrow>
     (r \<longrightarrow> files' name = Some content) \<and>
     (\<not> r \<longrightarrow> files' = files \<or> (\<exists>n < length content. files' = files(name \<mapsto> take n content)))"
  by (auto simp: save_to_txt_file_def not_le split: option.splits)

end
